(* ===== verification/Mothra_Prelude.thy ===== *)
theory Mothra_Prelude
  imports Main "HOL-Library.Word" "HOL-Library.AList"
begin

text \<open>
  Shared vocabulary of the development: the machine integers of the Rust sources, time, the
  standard-library pieces that the components use (hash maps, \<open>min_by_key\<close>, \<open>max_by_key\<close>,
  saturating and checked arithmetic, \<open>str::split\<close>), and the lemmas about them that the component
  theories share.

  \<^item> \<open>u8\<close>, \<open>u16\<close>, \<open>u32\<close>, \<open>u64\<close> are words of that width. A \<open>usize\<close> is a \<open>nat\<close>: it only counts
    entries of collections that live in memory, and where a counter could underflow the model
    says so.
  \<^item> \<open>Instant\<close> and \<open>Duration\<close> are natural numbers of milliseconds.
  \<^item> A \<open>HashMap\<close> is an association list with distinct keys. The order of the list stands for
    the unspecified iteration order: no theorem assumes anything about it.
  \<^item> A panic (\<open>unwrap\<close> of \<open>None\<close>, arithmetic overflow in a build with overflow checks, an
    \<open>unreachable!\<close>) is the value \<open>None\<close> of an \<open>option\<close> result.
  \<^item> Logging has no effect on the state and is left out.
\<close>

section \<open>Machine integers, time, environment\<close>

type_synonym u8 = "8 word"
type_synonym u16 = "16 word"
type_synonym u32 = "32 word"
type_synonym u64 = "64 word"

type_synonym instant = nat
type_synonym duration = nat

type_synonym peer_id = "u8 list"
type_synonym subnet_id = u64

abbreviation from_secs :: "nat \<Rightarrow> duration" where
  "from_secs s \<equiv> 1000 * s"

text \<open>What an operation reads from outside: the clock (\<open>Instant::now()\<close>), and whether the build
  has overflow checks (\<open>make rust\<close> has them, \<open>make rls=1 rust\<close> has not).\<close>

record env =
  now :: instant
  overflow_checks :: bool

datatype 'a poll = Ready 'a | Pending

named_theorems peerdb_simps
named_theorems handler_simps
named_theorems codec_simps

section \<open>Rust arithmetic\<close>

definition saturating_add :: "'a::len word \<Rightarrow> 'a word \<Rightarrow> 'a word" where
  "saturating_add a b = (if unat a + unat b < 2 ^ LENGTH('a) then a + b else - 1)"

definition saturating_sub :: "'a::len word \<Rightarrow> 'a word \<Rightarrow> 'a word" where
  "saturating_sub a b = (if a < b then 0 else a - b)"

definition checked_add :: "'a::len word \<Rightarrow> 'a word \<Rightarrow> 'a word option" where
  "checked_add a b = (if unat a + unat b < 2 ^ LENGTH('a) then Some (a + b) else None)"

text \<open>The operators \<open>+\<close> and \<open>-\<close> panic on overflow when the checks are on and wrap when they are off.\<close>

definition rust_add :: "env \<Rightarrow> 'a::len word \<Rightarrow> 'a word \<Rightarrow> 'a word option" where
  "rust_add e a b =
     (if unat a + unat b < 2 ^ LENGTH('a) then Some (a + b)
      else if overflow_checks e then None else Some (a + b))"

definition rust_sub :: "env \<Rightarrow> 'a::len word \<Rightarrow> 'a word \<Rightarrow> 'a word option" where
  "rust_sub e a b = (if b \<le> a then Some (a - b) else if overflow_checks e then None else Some (a - b))"

lemma unat_saturating_add:
  "unat (saturating_add a (b :: 'a::len word)) = min (unat a + unat b) (2 ^ LENGTH('a) - 1)"
  by (auto simp: saturating_add_def unat_word_ariths unsigned_minus_1_eq_mask mask_eq_exp_minus_1)

lemma unat_saturating_sub: "unat (saturating_sub a b) = unat a - unat b"
  by (auto simp: saturating_sub_def word_less_nat_alt unat_sub word_le_nat_alt not_less)

lemma u8_le: "unat (a :: u8) \<le> 255"
  using unsigned_less [of a, where ?'a = nat] by simp

lemma u8_saturating_sub_max [simp]: "saturating_sub (a :: u8) (- 1) = 0"
proof -
  have "unat (- 1 :: u8) = 255" by (simp add: unsigned_minus_1_eq_mask mask_eq_exp_minus_1)
  then have "unat (saturating_sub a (- 1)) = 0" using u8_le [of a] by (simp add: unat_saturating_sub)
  then show ?thesis by (simp only: unsigned_eq_0_iff)
qed

lemma saturating_add_0 [simp]: "saturating_add a 0 = a"
  by (simp add: saturating_add_def)

lemma saturating_sub_0 [simp]: "saturating_sub a 0 = a"
  by (simp add: saturating_sub_def)

lemma checked_add_Some_unat:
  "checked_add a (b :: 'a::len word) = Some c \<Longrightarrow> unat c = unat a + unat b"
  by (auto simp: checked_add_def unat_word_ariths split: if_splits)

section \<open>Hash maps as association lists\<close>

abbreviation hm_wf :: "('k \<times> 'v) list \<Rightarrow> bool" where
  "hm_wf m \<equiv> distinct (map fst m)"

abbreviation hm_get :: "('k \<times> 'v) list \<Rightarrow> 'k \<Rightarrow> 'v option" where
  "hm_get m k \<equiv> map_of m k"

abbreviation hm_insert :: "'k \<Rightarrow> 'v \<Rightarrow> ('k \<times> 'v) list \<Rightarrow> ('k \<times> 'v) list" where
  "hm_insert k v m \<equiv> AList.update k v m"

abbreviation hm_remove :: "'k \<Rightarrow> ('k \<times> 'v) list \<Rightarrow> ('k \<times> 'v) list" where
  "hm_remove k m \<equiv> AList.delete k m"

definition count_if :: "('v \<Rightarrow> bool) \<Rightarrow> ('k \<times> 'v) list \<Rightarrow> nat" where
  "count_if P m = length (filter (\<lambda>(_, v). P v) m)"

lemma hm_get_insert [simp]: "map_of (AList.update k v m) x = (if x = k then Some v else map_of m x)"
  by (simp add: update_conv')

lemma hm_get_remove [simp]: "map_of (AList.delete k m) x = (if x = k then None else map_of m x)"
  by (simp add: delete_conv')

lemma hm_insert_map: "map_of (AList.update k v m) = (map_of m)(k \<mapsto> v)"
  by (rule ext) simp

lemma hm_remove_map: "map_of (AList.delete k m) = (map_of m)(k := None)"
  by (rule ext) simp

lemma map_leD: "m \<subseteq>\<^sub>m m' \<Longrightarrow> m k = Some v \<Longrightarrow> m' k = Some v"
  by (metis map_le_def domI)

lemma hm_wf_insert [simp]: "hm_wf m \<Longrightarrow> hm_wf (AList.update k v m)"
  by (rule distinct_update)

lemma hm_wf_remove [simp]: "hm_wf m \<Longrightarrow> hm_wf (AList.delete k m)"
  by (rule distinct_delete)

lemma count_if_Nil [simp]: "count_if P [] = 0"
  by (simp add: count_if_def)

lemma count_if_Cons [simp]: "count_if P (x # m) = (if P (snd x) then 1 else 0) + count_if P m"
  by (simp add: count_if_def case_prod_beta)

lemma count_if_insert:
  "count_if P (AList.update k v m) + (case map_of m k of Some v0 \<Rightarrow> if P v0 then 1 else 0 | None \<Rightarrow> 0)
   = count_if P m + (if P v then 1 else 0)"
  by (induction m) auto

lemma count_if_remove:
  "hm_wf m \<Longrightarrow>
   count_if P (AList.delete k m) + (case map_of m k of Some v0 \<Rightarrow> if P v0 then 1 else 0 | None \<Rightarrow> 0)
   = count_if P m"
proof (induction m)
  case (Cons x m)
  show ?case
  proof (cases "fst x = k")
    case True
    with Cons.prems have "map_of m k = None"
      by (auto simp: map_of_eq_None_iff)
    with Cons True show ?thesis by auto
  next
    case False
    with Cons show ?thesis by (auto split: option.splits)
  qed
qed simp

lemma count_if_pos: "map_of m k = Some v \<Longrightarrow> P v \<Longrightarrow> 0 < count_if P m"
  by (induction m) (auto split: if_splits)

lemma count_if_le_length: "count_if P m \<le> length m"
  by (simp add: count_if_def)

section \<open>Iterator functions\<close>

text \<open>\<open>Iterator::min_by_key\<close> returns the first of several minimal elements,
  \<open>Iterator::max_by_key\<close> the last of several maximal ones.\<close>

fun min_by_key :: "('a \<Rightarrow> 'b::linorder) \<Rightarrow> 'a list \<Rightarrow> 'a option" where
  "min_by_key f [] = None"
| "min_by_key f (x # xs) = Some (foldl (\<lambda>m y. if f y < f m then y else m) x xs)"

fun max_by_key :: "('a \<Rightarrow> 'b::linorder) \<Rightarrow> 'a list \<Rightarrow> 'a option" where
  "max_by_key f [] = None"
| "max_by_key f (x # xs) = Some (foldl (\<lambda>m y. if f m \<le> f y then y else m) x xs)"

lemma foldl_min_key:
  fixes f :: "'a \<Rightarrow> 'b::linorder"
  defines "g \<equiv> \<lambda>m y. if f y < f m then y else m"
  shows "foldl g x xs \<in> insert x (set xs) \<and> (\<forall>y \<in> insert x (set xs). f (foldl g x xs) \<le> f y)"
proof (induction xs arbitrary: x)
  case (Cons a xs)
  from Cons.IH [of "g x a"] show ?case
    by (fastforce simp: g_def split: if_splits)
qed simp

lemma foldl_max_key:
  fixes f :: "'a \<Rightarrow> 'b::linorder"
  defines "g \<equiv> \<lambda>m y. if f m \<le> f y then y else m"
  shows "foldl g x xs \<in> insert x (set xs) \<and> (\<forall>y \<in> insert x (set xs). f y \<le> f (foldl g x xs))"
proof (induction xs arbitrary: x)
  case (Cons a xs)
  from Cons.IH [of "g x a"] show ?case
    by (fastforce simp: g_def split: if_splits)
qed simp

lemma min_by_key_None [simp]: "min_by_key f xs = None \<longleftrightarrow> xs = []"
  by (cases xs) auto

lemma max_by_key_None [simp]: "max_by_key f xs = None \<longleftrightarrow> xs = []"
  by (cases xs) auto

lemma min_by_key_Some:
  assumes "min_by_key f xs = Some m"
  shows "m \<in> set xs" and "\<And>y. y \<in> set xs \<Longrightarrow> f m \<le> f y"
  using assms foldl_min_key [of f] by (cases xs; force)+

lemma max_by_key_Some:
  assumes "max_by_key f xs = Some m"
  shows "m \<in> set xs" and "\<And>y. y \<in> set xs \<Longrightarrow> f y \<le> f m"
  using assms foldl_max_key [of f] by (cases xs; force)+

section \<open>Sequences of operations\<close>

lemma concat_map_concat: "concat (map f (concat xss)) = concat (map (\<lambda>xs. concat (map f xs)) xss)"
  by (induction xss) auto

text \<open>
  A component is driven by calls. \<open>run_calls step\<close> performs them in order and collects what they
  return; a panic ends the run. The locale is the pattern of the component invariants: every
  admissible call on a good state returns and leaves a good state, so every run does.
\<close>

primrec run_calls :: "('c \<Rightarrow> 's \<Rightarrow> ('o \<times> 's) option) \<Rightarrow> 'c list \<Rightarrow> 's \<Rightarrow> ('o list \<times> 's) option" where
  "run_calls step [] s = Some ([], s)"
| "run_calls step (c # cs) s =
     (case step c s of
        None \<Rightarrow> None
      | Some (out, s') \<Rightarrow> map_option (\<lambda>(outs, s''). (out # outs, s'')) (run_calls step cs s'))"

lemma run_calls_append:
  "run_calls step (cs @ ds) s =
     (case run_calls step cs s of
        None \<Rightarrow> None
      | Some (outs, s') \<Rightarrow> map_option (\<lambda>(outs', s''). (outs @ outs', s'')) (run_calls step ds s'))"
  by (induction cs arbitrary: s)
    (auto split: option.splits prod.splits simp: map_option_case)

locale op_machine =
  fixes step :: "'c \<Rightarrow> 's \<Rightarrow> ('o \<times> 's) option"
    and inv :: "'s \<Rightarrow> bool"
    and admissible :: "'c \<Rightarrow> bool"
  assumes step_ok: "inv s \<Longrightarrow> admissible c \<Longrightarrow> \<exists>out s'. step c s = Some (out, s') \<and> inv s'"
begin

lemma run_ok:
  "inv s \<Longrightarrow> list_all admissible cs \<Longrightarrow> \<exists>outs s'. run_calls step cs s = Some (outs, s') \<and> inv s'"
proof (induction cs arbitrary: s)
  case (Cons c cs)
  from Cons.prems step_ok [of s c] obtain out s1 where s1: "step c s = Some (out, s1)" "inv s1" by auto
  with Cons.IH [OF s1(2)] Cons.prems(2) show ?case by auto
qed simp

lemma run_conserves:
  fixes f :: "'s \<Rightarrow> nat"
  assumes "\<And>s c out s'. inv s \<Longrightarrow> admissible c \<Longrightarrow> step c s = Some (out, s') \<Longrightarrow> f s + a c \<le> f s' + b out"
  shows "inv s \<Longrightarrow> list_all admissible cs \<Longrightarrow> run_calls step cs s = Some (outs, s') \<Longrightarrow>
           f s + sum_list (map a cs) \<le> f s' + sum_list (map b outs)"
proof (induction cs arbitrary: s outs)
  case (Cons c cs)
  from Cons.prems step_ok [of s c] obtain out s1 where s1: "step c s = Some (out, s1)" "inv s1" by auto
  with Cons.prems(3) obtain outs1 where outs1: "run_calls step cs s1 = Some (outs1, s')" "outs = out # outs1" by auto
  from assms [OF Cons.prems(1) _ s1(1)] Cons.IH [OF s1(2) _ outs1(1)] Cons.prems(2) outs1(2) show ?case by auto
qed simp

lemma run_outputs:
  assumes "\<And>s c out s'. inv s \<Longrightarrow> admissible c \<Longrightarrow> step c s = Some (out, s') \<Longrightarrow> Q out"
  shows "inv s \<Longrightarrow> list_all admissible cs \<Longrightarrow> run_calls step cs s = Some (outs, s') \<Longrightarrow> list_all Q outs"
proof (induction cs arbitrary: s outs)
  case (Cons c cs)
  from Cons.prems step_ok [of s c] obtain out s1 where s1: "step c s = Some (out, s1)" "inv s1" by auto
  with Cons.prems(3) obtain outs1 where outs1: "run_calls step cs s1 = Some (outs1, s')" "outs = out # outs1" by auto
  from assms [OF Cons.prems(1) _ s1(1)] Cons.IH [OF s1(2) _ outs1(1)] Cons.prems(2) outs1(2) show ?case by auto
qed simp

lemma run_inv: "inv s \<Longrightarrow> list_all admissible cs \<Longrightarrow> run_calls step cs s = Some (outs, s') \<Longrightarrow> inv s'"
  using run_ok [of s cs] by auto

end

text \<open>
  A component that contains another one drives it: each of its calls amounts to some calls of the
  inner component (\<open>inner\<close>), whose state is part of its own (\<open>view\<close>) and whose events it passes on
  (\<open>obs\<close>). Then every run of the outer component contains a run of the inner one; since the inner
  one never panics, neither does the outer.
\<close>

locale op_simulation = op_machine astep ainv "\<lambda>_. True"
  for astep :: "'a \<Rightarrow> 's \<Rightarrow> ('e list \<times> 's) option" and ainv :: "'s \<Rightarrow> bool" +
  fixes cstep :: "'c \<Rightarrow> 't \<Rightarrow> ('p \<times> 't) option"
    and cinv :: "'t \<Rightarrow> bool"
    and view :: "'t \<Rightarrow> 's"
    and inner :: "'c \<Rightarrow> 't \<Rightarrow> 'a list"
    and obs :: "'p \<Rightarrow> 'e list"
  assumes sim: "cinv t \<Longrightarrow> ainv (view t) \<Longrightarrow> run_calls astep (inner c t) (view t) = Some (os, s) \<Longrightarrow>
    \<exists>p t'. cstep c t = Some (p, t') \<and> view t' = s \<and> cinv t' \<and> obs p = concat os"
begin

lemma step_sim:
  assumes "cinv t" "ainv (view t)"
  shows "\<exists>p t' os. cstep c t = Some (p, t') \<and> run_calls astep (inner c t) (view t) = Some (os, view t') \<and>
           cinv t' \<and> ainv (view t') \<and> obs p = concat os"
proof -
  from run_ok [OF assms(2), of "inner c t"] obtain os s where
    r: "run_calls astep (inner c t) (view t) = Some (os, s)" "ainv s" by (auto simp: list_all_iff)
  from sim [OF assms r(1)] r show ?thesis by auto
qed

lemma run_sim:
  "cinv t \<Longrightarrow> ainv (view t) \<Longrightarrow>
   \<exists>ps t' as os. run_calls cstep cs t = Some (ps, t') \<and> run_calls astep as (view t) = Some (os, view t') \<and>
     cinv t' \<and> ainv (view t') \<and> concat (map obs ps) = concat os"
proof (induction cs arbitrary: t)
  case Nil
  then show ?case by (auto intro!: exI [of _ "[]"])
next
  case (Cons c cs)
  from step_sim [OF Cons.prems, of c] obtain p t1 os1 where
    1: "cstep c t = Some (p, t1)" "run_calls astep (inner c t) (view t) = Some (os1, view t1)" "cinv t1" "ainv (view t1)"
      "obs p = concat os1" by blast
  from Cons.IH [OF 1(3,4)] obtain ps t' as os where
    2: "run_calls cstep cs t1 = Some (ps, t')" "run_calls astep as (view t1) = Some (os, view t')" "cinv t'" "ainv (view t')"
      "concat (map obs ps) = concat os" by blast
  have "run_calls astep (inner c t @ as) (view t) = Some (os1 @ os, view t')"
    using 1(2) 2(2) by (simp add: run_calls_append)
  with 1 2 show ?case by (intro exI [of _ "p # ps"] exI [of _ t'] exI [of _ "inner c t @ as"] exI [of _ "os1 @ os"]) auto
qed

end

section \<open>Strings\<close>

text \<open>\<open>str::split\<close> on a separator character: always at least one piece, possibly empty.\<close>

fun split_on :: "char \<Rightarrow> string \<Rightarrow> string list" where
  "split_on c [] = [[]]"
| "split_on c (x # xs) =
     (if x = c then [] # split_on c xs
      else (case split_on c xs of [] \<Rightarrow> [[x]] | y # ys \<Rightarrow> (x # y) # ys))"

lemma split_on_not_Nil [simp]: "split_on c xs \<noteq> []"
  by (induction xs) (auto split: list.splits)

lemma split_on_no_sep: "c \<notin> set xs \<Longrightarrow> split_on c xs = [xs]"
  by (induction xs) auto

lemma split_on_append: "c \<notin> set xs \<Longrightarrow> split_on c (xs @ c # ys) = xs # split_on c ys"
  by (induction xs) auto

text \<open>Pieces joined with the separator give the string back.\<close>

fun join_with :: "char \<Rightarrow> string list \<Rightarrow> string" where
  "join_with c [] = []"
| "join_with c [x] = x"
| "join_with c (x # xs) = x @ c # join_with c xs"

lemma join_with_Cons: "ys \<noteq> [] \<Longrightarrow> join_with c (x # ys) = x @ c # join_with c ys"
  by (cases ys) auto

lemma join_split_on: "join_with c (split_on c xs) = xs"
proof (induction xs)
  case (Cons x xs)
  obtain y ys where yys: "split_on c xs = y # ys"
    by (cases "split_on c xs") auto
  then show ?case
    using Cons.IH by (cases ys) (auto simp: join_with_Cons)
qed simp

end
