(* ===== verification/Delay_Set.thy ===== *)
theory Delay_Set
  imports Mothra_Prelude
begin

text \<open>
  \<open>core/network/src/hashset_delay.rs\<close>: a set whose entries expire, built from a hash map and
  tokio's \<open>DelayQueue\<close>.

  The \<open>DelayQueue\<close> is a third-party type: its operations are the record \<open>delay_queue_ops\<close> that
  every operation takes as its first argument, and its documented behaviour is the locale
  \<open>delay_queue\<close> (over an abstraction \<open>items\<close>, the queued values with their deadlines).
  \<open>remove\<close> and \<open>reset\<close> panic on a key that is not in the queue, and \<open>insert\<close> and \<open>reset\<close> on a timeout
  that is too far in the future, hence the option results (\<open>None\<close> is the panic). \<open>dq_max\<close> stands for
  the longest timeout that is not too far (about two years in tokio): the contract promises nothing
  about a longer one, and of \<open>dq_max\<close> only that it is not below the five minutes that are the longest
  timeout the program fixes itself.
  The locale \<open>delay_set\<close> is what the rest of the program relies on: a map from keys to deadlines.
  Every delay queue gives one through the operations of \<open>HashSetDelay\<close> (the sublocale
  declaration). The list queue at the end satisfies the contract of \<open>DelayQueue\<close>.
\<close>

section \<open>The interface of the delay queue\<close>

type_synonym dq_key = nat

record ('q, 'k) delay_queue_ops =
  dq_new :: 'q
  dq_max :: duration
  dq_insert :: "instant \<Rightarrow> 'k \<Rightarrow> duration \<Rightarrow> 'q \<Rightarrow> ('q \<times> dq_key) option"
  dq_reset :: "instant \<Rightarrow> dq_key \<Rightarrow> duration \<Rightarrow> 'q \<Rightarrow> 'q option"
  dq_remove :: "dq_key \<Rightarrow> 'q \<Rightarrow> 'q option"
  dq_clear :: "'q \<Rightarrow> 'q"
  dq_poll :: "instant \<Rightarrow> 'q \<Rightarrow> (string + 'k) option poll \<times> 'q"

locale delay_queue =
  fixes dq :: "('q, 'k) delay_queue_ops"
    and items :: "'q \<Rightarrow> dq_key \<Rightarrow> ('k \<times> instant) option"
  assumes items_finite: "finite (dom (items q))"
    and items_new: "items (dq_new dq) = Map.empty"
    and max_minutes: "from_secs 300 \<le> dq_max dq"
    and insert_fits: "d \<le> dq_max dq \<Longrightarrow> dq_insert dq t k d q \<noteq> None"
    and items_insert: "dq_insert dq t k d q = Some (q', h) \<Longrightarrow>
          items q h = None \<and> items q' = (items q)(h \<mapsto> (k, t + d))"
    and items_reset: "items q h = Some (k, t0) \<Longrightarrow> d \<le> dq_max dq \<Longrightarrow>
          \<exists>q'. dq_reset dq t h d q = Some q' \<and> items q' = (items q)(h \<mapsto> (k, t + d))"
    and items_remove: "items q h = Some x \<Longrightarrow>
          \<exists>q'. dq_remove dq h q = Some q' \<and> items q' = (items q)(h := None)"
    and items_clear: "items (dq_clear dq q) = Map.empty"
    and items_expired: "dq_poll dq t q = (Ready (Some (Inr k)), q') \<Longrightarrow>
          \<exists>h d. items q h = Some (k, d) \<and> d \<le> t \<and> items q' = (items q)(h := None)"
    and items_poll_other: "dq_poll dq t q = (r, q') \<Longrightarrow> (\<And>k. r \<noteq> Ready (Some (Inr k))) \<Longrightarrow>
          items q' = items q"

section \<open>The data structure and its operations\<close>

definition DEFAULT_DELAY :: nat where
  "DEFAULT_DELAY = 30"

record map_entry =
  me_key :: dq_key
  me_value :: instant

record ('q, 'k) hash_set_delay =
  entries :: "('k \<times> map_entry) list"
  expirations :: 'q
  default_entry_timeout :: duration

definition hsd_new :: "('q, 'k) delay_queue_ops \<Rightarrow> duration \<Rightarrow> ('q, 'k) hash_set_delay" where
  "hsd_new dq d = \<lparr> entries = [], expirations = dq_new dq, default_entry_timeout = d \<rparr>"

definition hsd_default :: "('q, 'k) delay_queue_ops \<Rightarrow> ('q, 'k) hash_set_delay" where
  "hsd_default dq = hsd_new dq (from_secs DEFAULT_DELAY)"

definition hsd_get :: "'k \<Rightarrow> ('q, 'k) hash_set_delay \<Rightarrow> instant option" where
  "hsd_get k s = map_option me_value (hm_get (entries s) k)"

definition hsd_contains :: "'k \<Rightarrow> ('q, 'k) hash_set_delay \<Rightarrow> bool" where
  "hsd_contains k s = (hm_get (entries s) k \<noteq> None)"

definition hsd_len :: "('q, 'k) hash_set_delay \<Rightarrow> nat" where
  "hsd_len s = length (entries s)"

definition hsd_keys :: "('q, 'k) hash_set_delay \<Rightarrow> 'k list" where
  "hsd_keys s = map fst (entries s)"

definition hsd_update_timeout ::
  "('q, 'k) delay_queue_ops \<Rightarrow> env \<Rightarrow> 'k \<Rightarrow> duration \<Rightarrow> ('q, 'k) hash_set_delay \<Rightarrow>
   (bool \<times> ('q, 'k) hash_set_delay) option" where
  "hsd_update_timeout dq e k d s =
     (case hm_get (entries s) k of
        Some en \<Rightarrow>
          (case dq_reset dq (now e) (me_key en) d (expirations s) of
             Some q' \<Rightarrow> Some (True, s\<lparr> expirations := q' \<rparr>)
           | None \<Rightarrow> None)
      | None \<Rightarrow> Some (False, s))"

text \<open>\<open>insert_at\<close> computes \<open>Instant::now() + entry_duration\<close> for the entry after it has put the key into
  the queue. \<open>DelayQueue::insert\<close> makes the same addition to find the deadline, so where the sum has no
  \<open>Instant\<close> the call has panicked already: the panic is the \<open>None\<close> of \<open>dq_insert\<close>.\<close>

definition hsd_insert_at ::
  "('q, 'k) delay_queue_ops \<Rightarrow> env \<Rightarrow> 'k \<Rightarrow> duration \<Rightarrow> ('q, 'k) hash_set_delay \<Rightarrow>
   ('q, 'k) hash_set_delay option" where
  "hsd_insert_at dq e k d s =
     (if hsd_contains k s then map_option snd (hsd_update_timeout dq e k d s)
      else (case dq_insert dq (now e) k d (expirations s) of
              Some (q', delay_key) \<Rightarrow>
                Some (s\<lparr> expirations := q',
                         entries := hm_insert k \<lparr> me_key = delay_key, me_value = now e + d \<rparr> (entries s) \<rparr>)
            | None \<Rightarrow> None))"

definition hsd_insert ::
  "('q, 'k) delay_queue_ops \<Rightarrow> env \<Rightarrow> 'k \<Rightarrow> ('q, 'k) hash_set_delay \<Rightarrow> ('q, 'k) hash_set_delay option" where
  "hsd_insert dq e k s = hsd_insert_at dq e k (default_entry_timeout s) s"

definition hsd_remove ::
  "('q, 'k) delay_queue_ops \<Rightarrow> 'k \<Rightarrow> ('q, 'k) hash_set_delay \<Rightarrow> (bool \<times> ('q, 'k) hash_set_delay) option" where
  "hsd_remove dq k s =
     (case hm_get (entries s) k of
        Some en \<Rightarrow>
          (case dq_remove dq (me_key en) (expirations s) of
             Some q' \<Rightarrow> Some (True, s\<lparr> entries := hm_remove k (entries s), expirations := q' \<rparr>)
           | None \<Rightarrow> None)
      | None \<Rightarrow> Some (False, s))"

fun hsd_retain_loop ::
  "('q, 'k) delay_queue_ops \<Rightarrow> ('k \<Rightarrow> bool) \<Rightarrow> ('k \<times> map_entry) list \<Rightarrow> 'q \<Rightarrow>
   (('k \<times> map_entry) list \<times> 'q) option" where
  "hsd_retain_loop dq f [] q = Some ([], q)"
| "hsd_retain_loop dq f ((k, en) # es) q =
     (if f k
      then map_option (\<lambda>(es', q'). ((k, en) # es', q')) (hsd_retain_loop dq f es q)
      else (case dq_remove dq (me_key en) q of
              Some q' \<Rightarrow> hsd_retain_loop dq f es q'
            | None \<Rightarrow> None))"

definition hsd_retain ::
  "('q, 'k) delay_queue_ops \<Rightarrow> ('k \<Rightarrow> bool) \<Rightarrow> ('q, 'k) hash_set_delay \<Rightarrow> ('q, 'k) hash_set_delay option" where
  "hsd_retain dq f s =
     map_option (\<lambda>(es, q). s\<lparr> entries := es, expirations := q \<rparr>)
       (hsd_retain_loop dq f (entries s) (expirations s))"

definition hsd_clear :: "('q, 'k) delay_queue_ops \<Rightarrow> ('q, 'k) hash_set_delay \<Rightarrow> ('q, 'k) hash_set_delay" where
  "hsd_clear dq s = s\<lparr> entries := [], expirations := dq_clear dq (expirations s) \<rparr>"

definition hsd_poll_next ::
  "('q, 'k) delay_queue_ops \<Rightarrow> env \<Rightarrow> ('q, 'k) hash_set_delay \<Rightarrow>
   (string + 'k) option poll \<times> ('q, 'k) hash_set_delay" where
  "hsd_poll_next dq e s =
     (case dq_poll dq (now e) (expirations s) of
        (Ready (Some (Inr k)), q') \<Rightarrow>
          (case hm_get (entries s) k of
             Some _ \<Rightarrow> (Ready (Some (Inr k)), s\<lparr> entries := hm_remove k (entries s), expirations := q' \<rparr>)
           | None \<Rightarrow> (Ready (Some (Inl ''Value no longer exists in expirations'')), s\<lparr> expirations := q' \<rparr>))
      | (Ready (Some (Inl err)), q') \<Rightarrow>
          (Ready (Some (Inl (''delay queue error: '' @ err))), s\<lparr> expirations := q' \<rparr>)
      | (Ready None, q') \<Rightarrow> (Ready None, s\<lparr> expirations := q' \<rparr>)
      | (Pending, q') \<Rightarrow> (Pending, s\<lparr> expirations := q' \<rparr>))"

text \<open>A program that uses one \<open>HashSetDelay\<close>: any sequence of calls, each with its own reading of
  the clock.\<close>

datatype 'k delay_set_call =
    CallInsert 'k
  | CallInsertAt 'k duration
  | CallUpdateTimeout 'k duration
  | CallRemove 'k
  | CallRetain "'k \<Rightarrow> bool"
  | CallClear
  | CallPollNext

fun hsd_call ::
  "('q, 'k) delay_queue_ops \<Rightarrow> env \<Rightarrow> 'k delay_set_call \<Rightarrow> ('q, 'k) hash_set_delay \<Rightarrow> ('q, 'k) hash_set_delay option" where
  "hsd_call dq e (CallInsert k) s = hsd_insert dq e k s"
| "hsd_call dq e (CallInsertAt k d) s = hsd_insert_at dq e k d s"
| "hsd_call dq e (CallUpdateTimeout k d) s = map_option snd (hsd_update_timeout dq e k d s)"
| "hsd_call dq e (CallRemove k) s = map_option snd (hsd_remove dq k s)"
| "hsd_call dq e (CallRetain f) s = hsd_retain dq f s"
| "hsd_call dq e CallClear s = Some (hsd_clear dq s)"
| "hsd_call dq e CallPollNext s = Some (snd (hsd_poll_next dq e s))"

fun hsd_run ::
  "('q, 'k) delay_queue_ops \<Rightarrow> (env \<times> 'k delay_set_call) list \<Rightarrow> ('q, 'k) hash_set_delay \<Rightarrow> ('q, 'k) hash_set_delay option" where
  "hsd_run dq [] s = Some s"
| "hsd_run dq ((e, c) # cs) s = Option.bind (hsd_call dq e c s) (hsd_run dq cs)"

text \<open>The timeout a call passes on to the queue.\<close>

fun call_timeout :: "'k delay_set_call \<Rightarrow> duration option" where
  "call_timeout (CallInsertAt k d) = Some d"
| "call_timeout (CallUpdateTimeout k d) = Some d"
| "call_timeout c = None"

definition call_fits :: "duration \<Rightarrow> 'k delay_set_call \<Rightarrow> bool" where
  "call_fits m c = (case call_timeout c of Some d \<Rightarrow> d \<le> m | None \<Rightarrow> True)"

section \<open>Invariant and abstraction\<close>

text \<open>The entries of the map and the items of the queue correspond one to one.\<close>

definition hsd_inv ::
  "('q \<Rightarrow> dq_key \<Rightarrow> ('k \<times> instant) option) \<Rightarrow> ('q, 'k) hash_set_delay \<Rightarrow> bool" where
  "hsd_inv items s \<longleftrightarrow>
     hm_wf (entries s) \<and>
     (\<forall>k en. hm_get (entries s) k = Some en \<longrightarrow>
        (\<exists>t. items (expirations s) (me_key en) = Some (k, t))) \<and>
     (\<forall>h k t. items (expirations s) h = Some (k, t) \<longrightarrow>
        (\<exists>en. hm_get (entries s) k = Some en \<and> me_key en = h))"

text \<open>What the structure stands for: the deadline of every key it holds.\<close>

definition hsd_abs ::
  "('q \<Rightarrow> dq_key \<Rightarrow> ('k \<times> instant) option) \<Rightarrow> ('q, 'k) hash_set_delay \<Rightarrow> 'k \<Rightarrow> instant option" where
  "hsd_abs items s k =
     (case hm_get (entries s) k of
        Some en \<Rightarrow> map_option snd (items (expirations s) (me_key en))
      | None \<Rightarrow> None)"

lemma hsd_invD1: "hsd_inv items s \<Longrightarrow> hm_get (entries s) k = Some en \<Longrightarrow>
  \<exists>t. items (expirations s) (me_key en) = Some (k, t)"
  by (auto simp: hsd_inv_def)

lemma hsd_invD2: "hsd_inv items s \<Longrightarrow> items (expirations s) h = Some (k, t) \<Longrightarrow>
  \<exists>en. hm_get (entries s) k = Some en \<and> me_key en = h"
  by (auto simp: hsd_inv_def)

lemma hsd_inv_wf: "hsd_inv items s \<Longrightarrow> hm_wf (entries s)"
  by (simp add: hsd_inv_def)

lemma hsd_invI:
  assumes "hm_wf (entries s)"
    and "\<And>k en. hm_get (entries s) k = Some en \<Longrightarrow> \<exists>t. items (expirations s) (me_key en) = Some (k, t)"
    and "\<And>h k t. items (expirations s) h = Some (k, t) \<Longrightarrow> \<exists>en. hm_get (entries s) k = Some en \<and> me_key en = h"
  shows "hsd_inv items s"
  using assms by (auto simp: hsd_inv_def)

lemma hsd_contains_abs: "hsd_inv items s \<Longrightarrow> hsd_contains k s \<longleftrightarrow> hsd_abs items s k \<noteq> None"
  by (auto simp: hsd_contains_def hsd_abs_def dest: hsd_invD1 split: option.splits)

lemma hsd_dom_abs: "hsd_inv items s \<Longrightarrow> dom (hsd_abs items s) = set (hsd_keys s)"
proof -
  assume inv: "hsd_inv items s"
  have "hsd_abs items s k \<noteq> None \<longleftrightarrow> k \<in> fst ` set (entries s)" for k
    using hsd_contains_abs [OF inv, of k]
    by (simp add: hsd_contains_def dom_map_of_conv_image_fst [symmetric] domIff)
  then show ?thesis by (auto simp: hsd_keys_def dom_def)
qed

lemma hsd_len_abs: "hsd_inv items s \<Longrightarrow> hsd_len s = card (dom (hsd_abs items s))"
  by (simp add: hsd_dom_abs hsd_keys_def hsd_len_def distinct_card [OF hsd_inv_wf, simplified])

section \<open>The interface the clients use\<close>

locale delay_set =
  fixes ds_insert :: "env \<Rightarrow> 'k \<Rightarrow> 's \<Rightarrow> 's option"
    and ds_remove :: "'k \<Rightarrow> 's \<Rightarrow> (bool \<times> 's) option"
    and ds_poll :: "env \<Rightarrow> 's \<Rightarrow> (string + 'k) option poll \<times> 's"
    and ds_inv :: "'s \<Rightarrow> bool"
    and ds_abs :: "'s \<Rightarrow> 'k \<Rightarrow> instant option"
    and ds_timeout :: "'s \<Rightarrow> duration"
    and ds_max :: duration
  assumes ds_finite: "ds_inv s \<Longrightarrow> finite (dom (ds_abs s))"
    and ds_insert_law: "ds_inv s \<Longrightarrow> ds_timeout s \<le> ds_max \<Longrightarrow>
          \<exists>s'. ds_insert e k s = Some s' \<and> ds_inv s' \<and> ds_timeout s' = ds_timeout s \<and>
               ds_abs s' = (ds_abs s)(k \<mapsto> now e + ds_timeout s)"
    and ds_remove_law: "ds_inv s \<Longrightarrow>
          \<exists>s'. ds_remove k s = Some (ds_abs s k \<noteq> None, s') \<and> ds_inv s' \<and>
               ds_timeout s' = ds_timeout s \<and> ds_abs s' = (ds_abs s)(k := None)"
    and ds_expired_law: "ds_inv s \<Longrightarrow> ds_poll e s = (Ready (Some (Inr k)), s') \<Longrightarrow>
          ds_inv s' \<and> ds_timeout s' = ds_timeout s \<and>
          (\<exists>t. ds_abs s k = Some t \<and> t \<le> now e) \<and> ds_abs s' = (ds_abs s)(k := None)"
    and ds_poll_other_law: "ds_inv s \<Longrightarrow> ds_poll e s = (r, s') \<Longrightarrow> (\<And>k. r \<noteq> Ready (Some (Inr k))) \<Longrightarrow>
          ds_inv s' \<and> ds_timeout s' = ds_timeout s \<and> ds_abs s' = ds_abs s"
begin

text \<open>The keys whose time has come; the polling loops of the clients make this set smaller.\<close>

definition due :: "env \<Rightarrow> 's \<Rightarrow> 'k set" where
  "due e s = {k. \<exists>t. ds_abs s k = Some t \<and> t \<le> now e}"

lemma finite_due: "ds_inv s \<Longrightarrow> finite (due e s)"
  by (rule finite_subset [OF _ ds_finite]) (auto simp: due_def)

lemma due_reinsert:
  assumes "ds_inv s" and "ds_poll e s = (Ready (Some (Inr k)), s')"
    and "ds_insert e k s' = Some s''" and "0 < ds_timeout s" and "ds_timeout s \<le> ds_max"
  shows "due e s'' = due e s - {k} \<and> k \<in> due e s \<and> ds_inv s'' \<and> ds_timeout s'' = ds_timeout s"
proof -
  from ds_expired_law [OF assms(1,2)]
  have s': "ds_inv s'" "ds_timeout s' = ds_timeout s" "ds_abs s' = (ds_abs s)(k := None)"
    and k: "\<exists>t. ds_abs s k = Some t \<and> t \<le> now e" by auto
  from ds_insert_law [OF s'(1), of e k] assms(3,5) s'(2)
  have "ds_inv s''" "ds_timeout s'' = ds_timeout s'" "ds_abs s'' = (ds_abs s')(k \<mapsto> now e + ds_timeout s')"
    by auto
  with s' k assms(4) show ?thesis by (auto simp: due_def)
qed

end

section \<open>The operations over any delay queue\<close>

context delay_queue
begin

lemma new_inv: "hsd_inv items (hsd_new dq d)" and new_abs: "hsd_abs items (hsd_new dq d) = Map.empty"
  by (auto simp: hsd_inv_def hsd_abs_def hsd_new_def items_new)

lemma update_timeout_ok:
  assumes inv: "hsd_inv items s" and k: "hm_get (entries s) k = Some en" and d: "d \<le> dq_max dq"
  shows "\<exists>s'. hsd_update_timeout dq e k d s = Some (True, s') \<and> hsd_inv items s' \<and>
              entries s' = entries s \<and> default_entry_timeout s' = default_entry_timeout s \<and>
              hsd_abs items s' = (hsd_abs items s)(k \<mapsto> now e + d)"
proof -
  from hsd_invD1 [OF inv k] obtain t where t: "items (expirations s) (me_key en) = Some (k, t)" ..
  from items_reset [OF t d, of "now e"] obtain q'
    where r: "dq_reset dq (now e) (me_key en) d (expirations s) = Some q'"
      and q': "items q' = (items (expirations s))(me_key en \<mapsto> (k, now e + d))" by blast
  let ?s' = "s\<lparr> expirations := q' \<rparr>"
  have other: "me_key en' \<noteq> me_key en" if "k' \<noteq> k" "hm_get (entries s) k' = Some en'" for k' en'
    using hsd_invD1 [OF inv that(2)] t that(1) by auto
  have "hsd_inv items ?s'"
  proof (rule hsd_invI)
    show "hm_wf (entries ?s')" using hsd_inv_wf [OF inv] by simp
  next
    fix k' en' assume "hm_get (entries ?s') k' = Some en'"
    then show "\<exists>t. items (expirations ?s') (me_key en') = Some (k', t)"
      using k other [of k' en'] hsd_invD1 [OF inv, of k' en'] by (cases "k' = k") (auto simp: q')
  next
    fix h' k' t' assume "items (expirations ?s') h' = Some (k', t')"
    then show "\<exists>en'. hm_get (entries ?s') k' = Some en' \<and> me_key en' = h'"
      using k hsd_invD2 [OF inv] by (auto simp: q' split: if_splits)
  qed
  moreover have "hsd_abs items ?s' = (hsd_abs items s)(k \<mapsto> now e + d)"
    using k other by (auto simp: fun_eq_iff hsd_abs_def q' split: option.splits)
  ultimately show ?thesis
    using k r by (simp add: hsd_update_timeout_def)
qed

lemma insert_at_ok:
  assumes inv: "hsd_inv items s" and d: "d \<le> dq_max dq"
  shows "\<exists>s'. hsd_insert_at dq e k d s = Some s' \<and> hsd_inv items s' \<and>
              default_entry_timeout s' = default_entry_timeout s \<and>
              hsd_abs items s' = (hsd_abs items s)(k \<mapsto> now e + d)"
proof (cases "hm_get (entries s) k")
  case (Some en)
  from update_timeout_ok [OF inv Some d, of e] Some show ?thesis
    by (auto simp: hsd_insert_at_def hsd_contains_def)
next
  case None
  obtain q' h where ins: "dq_insert dq (now e) k d (expirations s) = Some (q', h)"
    using insert_fits [OF d, of "now e" k "expirations s"] by auto
  from items_insert [OF ins] have fresh: "items (expirations s) h = None"
    and q': "items q' = (items (expirations s))(h \<mapsto> (k, now e + d))" by auto
  have old: "me_key en \<noteq> h" if "hm_get (entries s) k' = Some en" for k' en
    using hsd_invD1 [OF inv that] fresh by auto
  let ?en = "\<lparr> me_key = h, me_value = now e + d \<rparr>"
  let ?s' = "s\<lparr> expirations := q', entries := hm_insert k ?en (entries s) \<rparr>"
  have "hsd_inv items ?s'"
  proof (rule hsd_invI)
    show "hm_wf (entries ?s')" using hsd_inv_wf [OF inv] by simp
  next
    fix k' en assume "hm_get (entries ?s') k' = Some en"
    then show "\<exists>t. items (expirations ?s') (me_key en) = Some (k', t)"
      using old hsd_invD1 [OF inv] by (auto simp: q' split: if_splits)
  next
    fix h' k' t assume "items (expirations ?s') h' = Some (k', t)"
    then show "\<exists>en. hm_get (entries ?s') k' = Some en \<and> me_key en = h'"
      using None hsd_invD2 [OF inv] by (fastforce simp: q' split: if_splits)
  qed
  moreover have "hsd_abs items ?s' = (hsd_abs items s)(k \<mapsto> now e + d)"
    using old by (auto simp: fun_eq_iff hsd_abs_def q' split: option.splits)
  ultimately show ?thesis
    using None ins by (auto simp: hsd_insert_at_def hsd_contains_def)
qed

lemma remove_ok:
  assumes inv: "hsd_inv items s"
  shows "\<exists>s'. hsd_remove dq k s = Some (hsd_abs items s k \<noteq> None, s') \<and> hsd_inv items s' \<and>
              default_entry_timeout s' = default_entry_timeout s \<and>
              hsd_abs items s' = (hsd_abs items s)(k := None)"
proof (cases "hm_get (entries s) k")
  case None
  with inv show ?thesis by (auto simp: hsd_remove_def hsd_abs_def fun_eq_iff)
next
  case (Some en)
  from hsd_invD1 [OF inv Some] obtain t where t: "items (expirations s) (me_key en) = Some (k, t)" ..
  from items_remove [OF t] obtain q' where r: "dq_remove dq (me_key en) (expirations s) = Some q'"
    and q': "items q' = (items (expirations s))(me_key en := None)" by blast
  let ?s' = "s\<lparr> entries := hm_remove k (entries s), expirations := q' \<rparr>"
  have other: "me_key en' \<noteq> me_key en" if "k' \<noteq> k" "hm_get (entries s) k' = Some en'" for k' en'
    using hsd_invD1 [OF inv that(2)] t that(1) by auto
  have "hsd_inv items ?s'"
  proof (rule hsd_invI)
    show "hm_wf (entries ?s')" using hsd_inv_wf [OF inv] by simp
  next
    fix k' en' assume "hm_get (entries ?s') k' = Some en'"
    then show "\<exists>t. items (expirations ?s') (me_key en') = Some (k', t)"
      using other hsd_invD1 [OF inv] by (auto simp: q' split: if_splits)
  next
    fix h' k' t' assume "items (expirations ?s') h' = Some (k', t')"
    then show "\<exists>en'. hm_get (entries ?s') k' = Some en' \<and> me_key en' = h'"
      using Some hsd_invD2 [OF inv] by (fastforce simp: q' split: if_splits)
  qed
  moreover have "hsd_abs items ?s' = (hsd_abs items s)(k := None)"
    using other by (auto simp: fun_eq_iff hsd_abs_def q' split: option.splits)
  moreover have "hsd_abs items s k \<noteq> None" using Some t by (simp add: hsd_abs_def)
  ultimately show ?thesis using Some r by (simp add: hsd_remove_def)
qed

lemma poll_expired_ok:
  assumes inv: "hsd_inv items s" and p: "dq_poll dq (now e) (expirations s) = (Ready (Some (Inr k)), q')"
  shows "\<exists>s'. hsd_poll_next dq e s = (Ready (Some (Inr k)), s') \<and> hsd_inv items s' \<and>
              default_entry_timeout s' = default_entry_timeout s \<and>
              (\<exists>t. hsd_abs items s k = Some t \<and> t \<le> now e) \<and>
              hsd_abs items s' = (hsd_abs items s)(k := None)"
proof -
  from items_expired [OF p] obtain h t where h: "items (expirations s) h = Some (k, t)"
    and t: "t \<le> now e" and q': "items q' = (items (expirations s))(h := None)" by blast
  from hsd_invD2 [OF inv h] obtain en where en: "hm_get (entries s) k = Some en" "me_key en = h" by blast
  let ?s' = "s\<lparr> entries := hm_remove k (entries s), expirations := q' \<rparr>"
  have other: "me_key en' \<noteq> h" if "k' \<noteq> k" "hm_get (entries s) k' = Some en'" for k' en'
    using hsd_invD1 [OF inv that(2)] h that(1) by auto
  have "hsd_inv items ?s'"
  proof (rule hsd_invI)
    show "hm_wf (entries ?s')" using hsd_inv_wf [OF inv] by simp
  next
    fix k' en' assume "hm_get (entries ?s') k' = Some en'"
    then show "\<exists>t. items (expirations ?s') (me_key en') = Some (k', t)"
      using other hsd_invD1 [OF inv] by (auto simp: q' split: if_splits)
  next
    fix h' k' t' assume "items (expirations ?s') h' = Some (k', t')"
    then show "\<exists>en'. hm_get (entries ?s') k' = Some en' \<and> me_key en' = h'"
      using en hsd_invD2 [OF inv] by (fastforce simp: q' split: if_splits)
  qed
  moreover have "hsd_abs items ?s' = (hsd_abs items s)(k := None)"
    using other by (auto simp: fun_eq_iff hsd_abs_def q' split: option.splits)
  moreover have "hsd_abs items s k = Some t" using en h by (simp add: hsd_abs_def)
  ultimately show ?thesis using p en t by (auto simp: hsd_poll_next_def)
qed

lemma poll_result:
  assumes inv: "hsd_inv items s" and r: "hsd_poll_next dq e s = (r, s')"
  shows "(case r of
            Ready (Some (Inr k)) \<Rightarrow>
              hsd_inv items s' \<and> default_entry_timeout s' = default_entry_timeout s \<and>
              (\<exists>t. hsd_abs items s k = Some t \<and> t \<le> now e) \<and> hsd_abs items s' = (hsd_abs items s)(k := None)
          | _ \<Rightarrow> (\<exists>q'. s' = s\<lparr> expirations := q' \<rparr> \<and> items q' = items (expirations s)) \<and>
                 r \<noteq> Ready (Some (Inl ''Value no longer exists in expirations'')))"
proof -
  obtain p q' where p: "dq_poll dq (now e) (expirations s) = (p, q')" by force
  show ?thesis
  proof (cases "\<exists>k. p = Ready (Some (Inr k))")
    case True
    then obtain k where "p = Ready (Some (Inr k))" ..
    with poll_expired_ok [OF inv] p r show ?thesis by fastforce
  next
    case False
    then have "items q' = items (expirations s)"
      using items_poll_other [OF p] by simp
    with False p r show ?thesis
      by (auto simp: hsd_poll_next_def split: poll.splits option.splits sum.splits)
  qed
qed

lemma retain_loop_ok:
  assumes "hm_wf es" and "\<And>k en. (k, en) \<in> set es \<Longrightarrow> \<exists>t. items q (me_key en) = Some (k, t)"
  shows "\<exists>q'. hsd_retain_loop dq f es q = Some (filter (\<lambda>(k, _). f k) es, q') \<and>
              items q' = (\<lambda>h. if \<exists>k en. (k, en) \<in> set es \<and> \<not> f k \<and> me_key en = h then None else items q h)"
  using assms
proof (induction es arbitrary: q)
  case (Cons x es)
  obtain k en where x: "x = (k, en)" by force
  from Cons.prems(2) [of k en] obtain t where t: "items q (me_key en) = Some (k, t)" by (auto simp: x)
  show ?case
  proof (cases "f k")
    case True
    then have "(\<exists>k' en'. (k', en') \<in> set (x # es) \<and> \<not> f k' \<and> me_key en' = h) \<longleftrightarrow>
               (\<exists>k' en'. (k', en') \<in> set es \<and> \<not> f k' \<and> me_key en' = h)" for h
      by (auto simp: x)
    moreover from Cons.IH [of q] Cons.prems obtain q'
      where "hsd_retain_loop dq f es q = Some (filter (\<lambda>(k, _). f k) es, q')"
        and "items q' = (\<lambda>h. if \<exists>k en. (k, en) \<in> set es \<and> \<not> f k \<and> me_key en = h then None else items q h)"
      by auto
    ultimately show ?thesis using True by (simp add: x)
  next
    case False
    from items_remove [OF t] obtain q1 where r: "dq_remove dq (me_key en) q = Some q1"
      and q1: "items q1 = (items q)(me_key en := None)" by blast
    have "\<exists>t'. items q1 (me_key en') = Some (k', t')" if "(k', en') \<in> set es" for k' en'
    proof -
      from that Cons.prems(1) have "k' \<noteq> k" by (force simp: x)
      moreover from that Cons.prems(2) obtain t' where "items q (me_key en') = Some (k', t')" by auto
      ultimately show ?thesis using t by (auto simp: q1)
    qed
    with Cons.IH [of q1] Cons.prems obtain q'
      where "hsd_retain_loop dq f es q1 = Some (filter (\<lambda>(k, _). f k) es, q')"
        and "items q' = (\<lambda>h. if \<exists>k en. (k, en) \<in> set es \<and> \<not> f k \<and> me_key en = h then None else items q1 h)"
      by auto
    with False r show ?thesis by (auto simp: x q1 fun_eq_iff)
  qed
qed simp

lemma map_of_filter_keys: "map_of (filter (\<lambda>(k, _). f k) es) k = (if f k then map_of es k else None)"
  by (induction es) auto

lemma retain_ok:
  assumes inv: "hsd_inv items s"
  shows "\<exists>s'. hsd_retain dq f s = Some s' \<and> hsd_inv items s' \<and>
              default_entry_timeout s' = default_entry_timeout s \<and>
              hsd_abs items s' = (\<lambda>k. if f k then hsd_abs items s k else None)"
proof -
  let ?es = "entries s" and ?q = "expirations s"
  have mem: "(k, en) \<in> set ?es \<longleftrightarrow> hm_get ?es k = Some en" for k en
    using hsd_inv_wf [OF inv] by simp
  from retain_loop_ok [OF hsd_inv_wf [OF inv], of ?q f] hsd_invD1 [OF inv]
  obtain q' where r: "hsd_retain_loop dq f ?es ?q = Some (filter (\<lambda>(k, _). f k) ?es, q')"
    and q': "items q' = (\<lambda>h. if \<exists>k en. hm_get ?es k = Some en \<and> \<not> f k \<and> me_key en = h then None else items ?q h)"
    by (auto simp: mem)
  let ?s' = "s\<lparr> entries := filter (\<lambda>(k, _). f k) ?es, expirations := q' \<rparr>"
  have uniq: "k' = k" if "hm_get ?es k = Some en" "hm_get ?es k' = Some en'" "me_key en' = me_key en" for k k' en en'
    using hsd_invD1 [OF inv that(1)] hsd_invD1 [OF inv that(2)] that(3) by auto
  have keep: "items q' (me_key en) = items ?q (me_key en)" if "hm_get ?es k = Some en" "f k" for k en
    using that uniq by (auto simp: q')
  have "hsd_inv items ?s'"
  proof (rule hsd_invI)
    show "hm_wf (entries ?s')" using hsd_inv_wf [OF inv] by (simp add: distinct_map_filter)
  next
    fix k en assume "hm_get (entries ?s') k = Some en"
    then show "\<exists>t. items (expirations ?s') (me_key en) = Some (k, t)"
      using hsd_invD1 [OF inv] keep by (auto simp: map_of_filter_keys split: if_splits)
  next
    fix h k t assume "items (expirations ?s') h = Some (k, t)"
    then show "\<exists>en. hm_get (entries ?s') k = Some en \<and> me_key en = h"
      using hsd_invD2 [OF inv, of h k t] by (auto simp: map_of_filter_keys q' split: if_splits)
  qed
  moreover have "hsd_abs items ?s' = (\<lambda>k. if f k then hsd_abs items s k else None)"
    using keep by (auto simp: fun_eq_iff hsd_abs_def map_of_filter_keys split: option.splits)
  ultimately show ?thesis using r by (simp add: hsd_retain_def)
qed

lemma clear_ok: "hsd_inv items (hsd_clear dq s) \<and> hsd_abs items (hsd_clear dq s) = Map.empty"
  by (auto simp: hsd_inv_def hsd_abs_def hsd_clear_def items_clear)

lemma abs_cong_queue:
  "items q' = items (expirations s) \<Longrightarrow>
   hsd_abs items (s\<lparr> expirations := q' \<rparr>) = hsd_abs items s \<and>
   hsd_inv items (s\<lparr> expirations := q' \<rparr>) = hsd_inv items s"
  by (auto simp: hsd_abs_def hsd_inv_def fun_eq_iff split: option.splits)

lemma abs_finite: "hsd_inv items s \<Longrightarrow> finite (dom (hsd_abs items s))"
  by (simp add: hsd_dom_abs)

lemma update_timeout_total:
  assumes inv: "hsd_inv items s" and d: "d \<le> dq_max dq"
  shows "\<exists>b s'. hsd_update_timeout dq e k d s = Some (b, s') \<and> hsd_inv items s' \<and>
                default_entry_timeout s' = default_entry_timeout s"
proof (cases "hm_get (entries s) k")
  case None
  with inv have "hsd_update_timeout dq e k d s = Some (False, s)" by (simp add: hsd_update_timeout_def)
  with inv show ?thesis by blast
next
  case (Some en)
  from update_timeout_ok [OF inv this d, of e] show ?thesis by auto
qed

lemma call_ok:
  assumes inv: "hsd_inv items s" and d: "default_entry_timeout s \<le> dq_max dq" and c: "call_fits (dq_max dq) c"
  shows "\<exists>s'. hsd_call dq e c s = Some s' \<and> hsd_inv items s' \<and>
              default_entry_timeout s' = default_entry_timeout s"
proof (cases c)
  case (CallInsert k)
  from insert_at_ok [OF inv d, of e k] show ?thesis
    by (auto simp: CallInsert hsd_insert_def)
next
  case (CallInsertAt k d)
  with c have "d \<le> dq_max dq" by (simp add: call_fits_def)
  from insert_at_ok [OF inv this, of e k] show ?thesis by (auto simp: CallInsertAt)
next
  case (CallUpdateTimeout k d)
  with c have "d \<le> dq_max dq" by (simp add: call_fits_def)
  from update_timeout_total [OF inv this, of e k] show ?thesis by (auto simp: CallUpdateTimeout)
next
  case (CallRemove k)
  from remove_ok [OF inv, of k] show ?thesis by (auto simp: CallRemove)
next
  case (CallRetain f)
  from retain_ok [OF inv, of f] show ?thesis by (auto simp: CallRetain)
next
  case CallClear
  with clear_ok [of s] show ?thesis by (simp add: hsd_clear_def)
next
  case CallPollNext
  obtain r s' where r: "hsd_poll_next dq e s = (r, s')" by force
  from poll_result [OF inv r] inv have "hsd_inv items s' \<and> default_entry_timeout s' = default_entry_timeout s"
    by (auto split: poll.splits option.splits sum.splits simp: abs_cong_queue)
  with r CallPollNext show ?thesis by simp
qed

lemma run_ok: "hsd_inv items s \<Longrightarrow> default_entry_timeout s \<le> dq_max dq \<Longrightarrow>
  list_all (call_fits (dq_max dq) \<circ> snd) cs \<Longrightarrow> \<exists>s'. hsd_run dq cs s = Some s' \<and> hsd_inv items s'"
proof (induction cs arbitrary: s)
  case (Cons x cs)
  obtain e c where x: "x = (e, c)" by force
  from Cons.prems(3) have c: "call_fits (dq_max dq) c" by (simp add: x)
  from call_ok [OF Cons.prems(1,2) c, of e] Cons.IH Cons.prems(2,3) show ?case by (auto simp: x)
qed simp

end

sublocale delay_queue \<subseteq> hsd: delay_set "hsd_insert dq" "hsd_remove dq" "hsd_poll_next dq"
    "hsd_inv items" "hsd_abs items" default_entry_timeout "dq_max dq"
proof (unfold_locales, goal_cases)
  case (1 s) then show ?case by (rule abs_finite)
next
  case (2 s e k) from insert_at_ok [OF this, of e k] show ?case
    by (simp add: hsd_insert_def)
next
  case (3 s k) then show ?case by (rule remove_ok)
next
  case (4 s e k s') from poll_result [OF this] show ?case by simp
next
  case (5 s e r s') from poll_result [OF 5(1,2)] 5(1,3) show ?case
    by (auto split: poll.splits option.splits sum.splits simp: abs_cong_queue)
qed

section \<open>A queue that satisfies the contract\<close>

type_synonym 'k list_queue = "(dq_key \<times> 'k \<times> instant) list"

definition lq_fresh :: "'k list_queue \<Rightarrow> dq_key" where
  "lq_fresh q = Suc (foldr max (map fst q) 0)"

definition lq_poll :: "instant \<Rightarrow> 'k list_queue \<Rightarrow> (string + 'k) option poll \<times> 'k list_queue" where
  "lq_poll t q =
     (case find (\<lambda>(_, _, d). d \<le> t) (AList.clearjunk q) of
        Some (h, k, _) \<Rightarrow> (Ready (Some (Inr k)), AList.delete h q)
      | None \<Rightarrow> (if q = [] then Ready None else Pending, q))"

definition LQ_MAX :: duration where
  "LQ_MAX = 2 ^ 36 - 1"

definition lq_ops :: "('k list_queue, 'k) delay_queue_ops" where
  "lq_ops = \<lparr> dq_new = [],
     dq_max = LQ_MAX,
     dq_insert = (\<lambda>t k d q. if d \<le> LQ_MAX then Some ((lq_fresh q, k, t + d) # q, lq_fresh q) else None),
     dq_reset = (\<lambda>t h d q. if d \<le> LQ_MAX then map_option (\<lambda>(k, _). AList.update h (k, t + d) q) (map_of q h)
                           else None),
     dq_remove = (\<lambda>h q. map_option (\<lambda>_. AList.delete h q) (map_of q h)),
     dq_clear = (\<lambda>_. []),
     dq_poll = lq_poll \<rparr>"

lemma lq_fresh_gt: "h \<in> fst ` set q \<Longrightarrow> h < lq_fresh q"
  by (induction q) (force simp: lq_fresh_def less_Suc_eq_le le_max_iff_disj)+

lemma lq_fresh: "map_of q (lq_fresh q) = None"
  using lq_fresh_gt [of "lq_fresh q" q] by (auto simp: map_of_eq_None_iff)

lemma lq_poll_expired:
  assumes "lq_poll t q = (Ready (Some (Inr k)), q')"
  shows "\<exists>h d. map_of q h = Some (k, d) \<and> d \<le> t \<and> map_of q' = (map_of q)(h := None)"
proof -
  from assms obtain h d where f: "find (\<lambda>(_, _, d). d \<le> t) (AList.clearjunk q) = Some (h, k, d)"
    and q': "q' = AList.delete h q"
    by (auto simp: lq_poll_def split: option.splits if_splits prod.splits)
  from f have "(h, k, d) \<in> set (AList.clearjunk q)" "d \<le> t"
    by (auto simp: find_Some_iff in_set_conv_nth)
  then have "map_of q h = Some (k, d)"
    by (metis distinct_clearjunk map_of_clearjunk map_of_is_SomeI)
  with \<open>d \<le> t\<close> q' show ?thesis by (auto simp: fun_eq_iff)
qed

interpretation lq: delay_queue lq_ops map_of
proof (unfold_locales, goal_cases)
  case (1 q) show ?case by (rule finite_dom_map_of)
next
  case (3) show ?case by (simp add: lq_ops_def LQ_MAX_def)
next
  case (5 t k d q q' h) then show ?case using lq_fresh [of q] by (auto simp: lq_ops_def split: if_splits)
next
  case (6 q h k t0 d t) then show ?case by (auto simp: lq_ops_def fun_eq_iff)
next
  case (7 q h x) then show ?case by (auto simp: lq_ops_def fun_eq_iff)
next
  case (9 t q k q') then show ?case by (simp add: lq_ops_def lq_poll_expired)
next
  case (10 t q r q') then show ?case
    by (auto simp: lq_ops_def lq_poll_def split: option.splits if_splits prod.splits)
qed (simp_all add: lq_ops_def)

text \<open>A delay queue is prompt when it has nothing to report only if nothing in it is due.\<close>

definition prompt_queue ::
  "('q, 'p) delay_queue_ops \<Rightarrow> ('q \<Rightarrow> dq_key \<Rightarrow> ('p \<times> instant) option) \<Rightarrow> bool" where
  "prompt_queue dq items \<longleftrightarrow>
     (\<forall>t q r q'. dq_poll dq t q = (r, q') \<longrightarrow> (\<forall>x. r \<noteq> Ready (Some x)) \<longrightarrow>
        (\<forall>h k d. items q h = Some (k, d) \<longrightarrow> t < d))"

lemma lq_prompt: "prompt_queue (lq_ops :: ('p list_queue, 'p) delay_queue_ops) map_of"
proof -
  have "t < d" if "dq_poll lq_ops t q = (r, q')" "\<forall>x. r \<noteq> Ready (Some x)" "map_of q h = Some (k, d)"
    for t d r h k and q q' :: "'p list_queue"
  proof -
    have "find (\<lambda>(_, _, d). d \<le> t) (AList.clearjunk q) = None"
      using that(1,2) by (auto simp: lq_ops_def lq_poll_def split: option.splits)
    moreover have "(h, k, d) \<in> set (AList.clearjunk q)"
      using that(3) by (metis map_of_clearjunk map_of_SomeD)
    ultimately have "\<not> (case (h, k, d) of (_, _, d) \<Rightarrow> d \<le> t)" unfolding find_None_iff by metis
    then show ?thesis by simp
  qed
  then show ?thesis unfolding prompt_queue_def by blast
qed

section \<open>Properties\<close>

text \<open>C25. Whatever sequence of calls is made on a fresh \<open>HashSetDelay\<close>, as long as neither the default
  timeout nor a timeout passed to \<open>insert_at\<close> or \<open>update_timeout\<close> is too far in the future for the
  queue, no call panics (the keys handed to \<open>DelayQueue::remove\<close> and \<open>DelayQueue::reset\<close> are always in
  the queue) and the entries and the queue stay in one-to-one correspondence. A timeout that is too far
  is the only panic, as the comment of \<open>update_timeout\<close> says.\<close>

theorem hash_set_delay_never_panics:
  assumes "delay_queue dq items" and "d \<le> dq_max dq" and "list_all (call_fits (dq_max dq) \<circ> snd) cs"
  shows "\<exists>s. hsd_run dq cs (hsd_new dq d) = Some s \<and> hsd_inv items s"
  using assms(2,3) by (intro delay_queue.run_ok [OF assms(1) delay_queue.new_inv [OF assms(1)]])
    (simp_all add: hsd_new_def)

theorem hash_set_delay_never_panics_witness:
  "\<exists>s. hsd_run lq_ops
         [(\<lparr>now = 0, overflow_checks = True\<rparr>, CallInsert (2 :: nat)),
          (\<lparr>now = 0, overflow_checks = True\<rparr>, CallUpdateTimeout 2 100000),
          (\<lparr>now = 200000, overflow_checks = True\<rparr>, CallPollNext),
          (\<lparr>now = 200000, overflow_checks = True\<rparr>, CallInsert 2),
          (\<lparr>now = 200000, overflow_checks = True\<rparr>, CallRemove 2)]
         (hsd_new lq_ops (from_secs DEFAULT_DELAY)) = Some s \<and> hsd_inv map_of s"
  by (rule hash_set_delay_never_panics [OF lq.delay_queue_axioms])
    (simp_all add: lq_ops_def LQ_MAX_def call_fits_def DEFAULT_DELAY_def)

text \<open>C24. A \<open>HashSetDelay\<close> is a map from keys to deadlines: inserting a key, whether it is new or
  already present, with a timeout that is not too far in the future for the queue, gives it the
  deadline \<open>now + duration\<close> and changes no other key; removing a key
  reports whether it was present and takes only that key out; \<open>retain\<close> keeps exactly the keys that
  satisfy the predicate, with their deadlines.\<close>

theorem hash_set_delay_is_deadline_map:
  assumes "delay_queue dq items" and "hsd_inv items s" and "d \<le> dq_max dq"
  shows "\<exists>s1 s2 s3.
           hsd_insert_at dq e k d s = Some s1 \<and> hsd_abs items s1 = (hsd_abs items s)(k \<mapsto> now e + d) \<and>
           hsd_remove dq k s = Some (hsd_contains k s, s2) \<and> hsd_abs items s2 = (hsd_abs items s)(k := None) \<and>
           hsd_retain dq f s = Some s3 \<and> hsd_abs items s3 = (\<lambda>x. if f x then hsd_abs items s x else None)"
  using delay_queue.insert_at_ok [OF assms, of e k] delay_queue.remove_ok [OF assms(1,2), of k]
    delay_queue.retain_ok [OF assms(1,2), of f] hsd_contains_abs [OF assms(2), of k]
  by fastforce

theorem hash_set_delay_is_deadline_map_witness:
  "\<exists>s1 s2 s3.
     hsd_insert_at lq_ops \<lparr>now = 5, overflow_checks = True\<rparr> (7 :: nat) 10 (hsd_new lq_ops 30) = Some s1 \<and>
     hsd_abs map_of s1 = (hsd_abs map_of (hsd_new lq_ops 30))(7 \<mapsto> 15) \<and>
     hsd_remove lq_ops (7 :: nat) (hsd_new lq_ops 30) = Some (False, s2) \<and>
     hsd_retain lq_ops (\<lambda>x :: nat. x < 3) (hsd_new lq_ops 30) = Some s3"
proof -
  have "\<not> hsd_contains (7 :: nat) (hsd_new lq_ops 30)" by (simp add: hsd_contains_def hsd_new_def)
  moreover have "10 \<le> dq_max (lq_ops :: (nat list_queue, nat) delay_queue_ops)"
    by (simp add: lq_ops_def LQ_MAX_def)
  ultimately show ?thesis
    using hash_set_delay_is_deadline_map
      [OF lq.delay_queue_axioms lq.new_inv [of 30], of 10 "\<lparr>now = 5, overflow_checks = True\<rparr>" "7 :: nat" "\<lambda>x. x < 3"]
    by auto
qed

text \<open>Polling yields a key only when its deadline has passed, takes exactly that key out of the
  set, and never reports that the value no longer exists; every other answer leaves the deadlines as
  they were.\<close>

theorem hash_set_delay_poll:
  assumes "delay_queue dq items" and "hsd_inv items s" and "hsd_poll_next dq e s = (r, s')"
  shows "hsd_inv items s' \<and> r \<noteq> Ready (Some (Inl ''Value no longer exists in expirations'')) \<and>
         (case r of
            Ready (Some (Inr k)) \<Rightarrow>
              (\<exists>t. hsd_abs items s k = Some t \<and> t \<le> now e) \<and> hsd_abs items s' = (hsd_abs items s)(k := None)
          | _ \<Rightarrow> hsd_abs items s' = hsd_abs items s)"
  using delay_queue.poll_result [OF assms] delay_queue.abs_cong_queue [OF assms(1)] assms(2)
  by (auto split: poll.splits option.splits sum.splits)

theorem hash_set_delay_poll_witness:
  "hsd_poll_next lq_ops \<lparr>now = 41, overflow_checks = True\<rparr>
     \<lparr> entries = [(9 :: nat, \<lparr> me_key = 1, me_value = 40 \<rparr>)], expirations = [(1, 9, 40)], default_entry_timeout = 30 \<rparr> =
     (Ready (Some (Inr 9)), \<lparr> entries = [], expirations = [], default_entry_timeout = 30 \<rparr>) \<and>
   hsd_inv map_of (\<lparr> entries = [], expirations = [], default_entry_timeout = 30 \<rparr> :: (nat list_queue, nat) hash_set_delay)"
proof -
  let ?s = "\<lparr> entries = [(9 :: nat, \<lparr> me_key = 1, me_value = 40 \<rparr>)], expirations = [(1, 9, 40)],
             default_entry_timeout = 30 \<rparr> :: (nat list_queue, nat) hash_set_delay"
  let ?e = "\<lparr>now = 41, overflow_checks = True\<rparr>"
  have inv: "hsd_inv map_of ?s" by (auto simp: hsd_inv_def)
  have poll: "hsd_poll_next lq_ops ?e ?s =
     (Ready (Some (Inr 9)), \<lparr> entries = [], expirations = [], default_entry_timeout = 30 \<rparr>)"
    by (simp add: hsd_poll_next_def lq_ops_def lq_poll_def)
  from hash_set_delay_poll [OF lq.delay_queue_axioms inv poll] poll show ?thesis
    by simp
qed

text \<open>\<open>insert\<close> on a key that is already present goes through \<open>update_timeout\<close>, which resets the
  queue but not the \<open>Instant\<close> stored in the entry: afterwards \<open>get\<close> still returns the old instant,
  which differs from the real deadline unless the two happen to agree.\<close>

theorem hash_set_delay_get_is_stale:
  assumes "delay_queue dq items" and "hsd_inv items s" and "hsd_contains k s" and "d \<le> dq_max dq"
  shows "\<exists>s'. hsd_insert_at dq e k d s = Some s' \<and> hsd_get k s' = hsd_get k s \<and>
              hsd_abs items s' k = Some (now e + d)"
proof -
  from assms(3) obtain en where en: "hm_get (entries s) k = Some en"
    by (auto simp: hsd_contains_def)
  from delay_queue.update_timeout_ok [OF assms(1,2) en assms(4), of e] assms(3) show ?thesis
    by (auto simp: hsd_insert_at_def hsd_get_def)
qed

theorem hash_set_delay_get_is_stale_witness:
  "\<exists>s'. hsd_insert_at lq_ops \<lparr>now = 35, overflow_checks = True\<rparr> 9 30
          \<lparr> entries = [(9 :: nat, \<lparr> me_key = 1, me_value = 40 \<rparr>)], expirations = [(1, 9, 40)],
             default_entry_timeout = 30 \<rparr> = Some s' \<and>
        hsd_get 9 s' = Some 40 \<and> hsd_abs map_of s' 9 = Some 65"
proof -
  let ?s = "\<lparr> entries = [(9 :: nat, \<lparr> me_key = 1, me_value = 40 \<rparr>)], expirations = [(1, 9, 40)],
             default_entry_timeout = 30 \<rparr> :: (nat list_queue, nat) hash_set_delay"
  have inv: "hsd_inv map_of ?s" by (auto simp: hsd_inv_def)
  have c: "hsd_contains 9 ?s" by (simp add: hsd_contains_def)
  have "30 \<le> dq_max (lq_ops :: (nat list_queue, nat) delay_queue_ops)" by (simp add: lq_ops_def LQ_MAX_def)
  from hash_set_delay_get_is_stale [OF lq.delay_queue_axioms inv c this, of "\<lparr>now = 35, overflow_checks = True\<rparr>"]
  show ?thesis by (simp add: hsd_get_def)
qed

end
