(* ===== verification/Rust_Strings.thy ===== *)
theory Rust_Strings
  imports Mothra_Prelude
begin

text \<open>
  What the sources use of Rust's strings. A \<open>String\<close> is a HOL \<open>string\<close> whose characters are the
  bytes of its UTF-8 encoding, so \<open>as_bytes\<close> and \<open>from_utf8_unchecked\<close> are the two bijections below.
  \<open>str::from_utf8\<close> succeeds on well-formed byte sequences only; \<open>String::from_utf8_lossy\<close>
  replaces each maximal ill-formed piece by the three bytes of U+FFFD. Debug texts of strings and
  durations follow the formatting of the current standard library.
\<close>

definition as_bytes :: "string \<Rightarrow> u8 list" where
  "as_bytes s = map (\<lambda>c. word_of_nat (of_char c)) s"

definition from_bytes :: "u8 list \<Rightarrow> string" where
  "from_bytes bs = map (\<lambda>b. char_of (unat b)) bs"

lemma of_char_less_256: "(of_char c :: nat) < 256"
  by (metis nat_of_char_less_256)

lemma from_bytes_as_bytes [simp]: "from_bytes (as_bytes s) = s"
  by (induction s) (simp_all add: from_bytes_def as_bytes_def unat_of_nat of_char_less_256)

lemma as_bytes_from_bytes [simp]: "as_bytes (from_bytes bs) = bs"
proof (induction bs)
  case (Cons b bs)
  have "unat b < 256" using unsigned_less [of b] by simp
  with Cons show ?case by (simp add: from_bytes_def as_bytes_def)
qed (simp_all add: from_bytes_def as_bytes_def)

lemma length_as_bytes [simp]: "length (as_bytes s) = length s"
  by (simp add: as_bytes_def)

section \<open>UTF-8\<close>

definition cont_byte :: "u8 \<Rightarrow> bool" where
  "cont_byte b \<longleftrightarrow> 0x80 \<le> b \<and> b \<le> 0xBF"

definition second_of_3 :: "u8 \<Rightarrow> u8 \<Rightarrow> bool" where
  "second_of_3 b c \<longleftrightarrow>
     (b = 0xE0 \<and> 0xA0 \<le> c \<and> c \<le> 0xBF) \<or> (0xE1 \<le> b \<and> b \<le> 0xEC \<and> cont_byte c) \<or>
     (b = 0xED \<and> 0x80 \<le> c \<and> c \<le> 0x9F) \<or> (0xEE \<le> b \<and> b \<le> 0xEF \<and> cont_byte c)"

definition second_of_4 :: "u8 \<Rightarrow> u8 \<Rightarrow> bool" where
  "second_of_4 b c \<longleftrightarrow>
     (b = 0xF0 \<and> 0x90 \<le> c \<and> c \<le> 0xBF) \<or> (0xF1 \<le> b \<and> b \<le> 0xF3 \<and> cont_byte c) \<or>
     (b = 0xF4 \<and> 0x80 \<le> c \<and> c \<le> 0x8F)"

text \<open>The length of the well-formed character at the front, or the length of the ill-formed piece.\<close>

fun utf8_front :: "u8 list \<Rightarrow> bool \<times> nat" where
  "utf8_front [] = (False, 0)"
| "utf8_front (b # bs) =
     (if b < 0x80 then (True, 1)
      else if 0xC2 \<le> b \<and> b \<le> 0xDF then
        (case bs of c # _ \<Rightarrow> if cont_byte c then (True, 2) else (False, 1) | [] \<Rightarrow> (False, 1))
      else if 0xE0 \<le> b \<and> b \<le> 0xEF then
        (case bs of
           c1 # c2 # _ \<Rightarrow> if second_of_3 b c1 then (if cont_byte c2 then (True, 3) else (False, 2)) else (False, 1)
         | [c1] \<Rightarrow> (False, if second_of_3 b c1 then 2 else 1)
         | [] \<Rightarrow> (False, 1))
      else if 0xF0 \<le> b \<and> b \<le> 0xF4 then
        (case bs of
           c1 # c2 # c3 # _ \<Rightarrow>
             if second_of_4 b c1
             then (if cont_byte c2 then (if cont_byte c3 then (True, 4) else (False, 3)) else (False, 2))
             else (False, 1)
         | [c1, c2] \<Rightarrow> (False, if second_of_4 b c1 then (if cont_byte c2 then 3 else 2) else 1)
         | [c1] \<Rightarrow> (False, if second_of_4 b c1 then 2 else 1)
         | [] \<Rightarrow> (False, 1))
      else (False, 1))"

lemma utf8_front_pos: "bs \<noteq> [] \<Longrightarrow> 0 < snd (utf8_front bs)"
  by (cases bs) (auto split: list.splits)

lemma utf8_front_shorter: "bs \<noteq> [] \<Longrightarrow> length bs - snd (utf8_front bs) < length bs"
  using utf8_front_pos [of bs] by (cases bs) auto

function utf8_valid :: "u8 list \<Rightarrow> bool" where
  "utf8_valid bs =
     (if bs = [] then True
      else if fst (utf8_front bs) then utf8_valid (drop (snd (utf8_front bs)) bs) else False)"
  by pat_completeness auto
termination
  by (relation "measure length") (auto intro: utf8_front_shorter)

function from_utf8_lossy :: "u8 list \<Rightarrow> u8 list" where
  "from_utf8_lossy bs =
     (if bs = [] then []
      else (let (ok, n) = utf8_front bs
            in (if ok then take n bs else [0xEF, 0xBF, 0xBD]) @ from_utf8_lossy (drop n bs)))"
  by pat_completeness auto
termination
  by (relation "measure length") (auto intro: utf8_front_shorter simp: prod_eq_iff)

declare utf8_valid.simps [simp del] from_utf8_lossy.simps [simp del]

lemma from_utf8_lossy_valid: "utf8_valid bs \<Longrightarrow> from_utf8_lossy bs = bs"
proof (induction bs rule: utf8_valid.induct)
  case (1 bs)
  show ?case
  proof (cases "bs = []")
    case False
    with 1 have "fst (utf8_front bs)" "from_utf8_lossy (drop (snd (utf8_front bs)) bs) = drop (snd (utf8_front bs)) bs"
      by (auto simp: utf8_valid.simps [of bs] split: if_splits)
    with False show ?thesis
      by (subst from_utf8_lossy.simps) (simp add: case_prod_beta Let_def)
  qed (simp add: from_utf8_lossy.simps)
qed

lemma utf8_valid_ascii: "\<forall>b \<in> set bs. b < 0x80 \<Longrightarrow> utf8_valid bs"
proof (induction bs)
  case (Cons b bs)
  then have "utf8_front (b # bs) = (True, 1)" by simp
  with Cons show ?case by (subst utf8_valid.simps) (simp del: utf8_front.simps)
qed (simp add: utf8_valid.simps)

section \<open>Formatting\<close>

fun show_nat :: "nat \<Rightarrow> string" where
  "show_nat n = (if n < 10 then [char_of (48 + n)] else show_nat (n div 10) @ [char_of (48 + n mod 10)])"

declare show_nat.simps [simp del]

text \<open>\<open>format!("{:?}", v)\<close> for a \<open>Vec<u8>\<close>: \<open>[1, 2, 3]\<close>.\<close>

fun debug_items :: "u8 list \<Rightarrow> string" where
  "debug_items [] = []"
| "debug_items [b] = show_nat (unat b)"
| "debug_items (b # bs) = show_nat (unat b) @ '', '' @ debug_items bs"

definition debug_bytes :: "u8 list \<Rightarrow> string" where
  "debug_bytes bs = ''['' @ debug_items bs @ '']''"

text \<open>The Debug text of a \<open>str\<close>: in double quotes, with the escapes of \<open>char::escape_debug\<close>. ASCII is decided
  here; which of the other code points are printed as they are (\<open>printable\<close>) is in the Unicode tables.\<close>

fun show_hex :: "nat \<Rightarrow> string" where
  "show_hex n = (if n < 16 then [''0123456789abcdef'' ! n] else show_hex (n div 16) @ [''0123456789abcdef'' ! (n mod 16)])"

declare show_hex.simps [simp del]

fun code_point :: "u8 list \<Rightarrow> nat" where
  "code_point [b] = unat b"
| "code_point [b, c] = (unat b mod 32) * 64 + unat c mod 64"
| "code_point [b, c, d] = (unat b mod 16) * 4096 + (unat c mod 64) * 64 + unat d mod 64"
| "code_point [b, c, d, f] = (unat b mod 8) * 262144 + (unat c mod 64) * 4096 + (unat d mod 64) * 64 + unat f mod 64"
| "code_point _ = 0"

definition escape_unicode :: "nat \<Rightarrow> string" where
  "escape_unicode n = [CHR 0x5C, CHR ''u'', CHR ''{''] @ show_hex n @ [CHR ''}'']"

definition escape_debug :: "(nat \<Rightarrow> bool) \<Rightarrow> u8 list \<Rightarrow> string" where
  "escape_debug printable ch =
     (let n = code_point ch
      in if n = 0 then [CHR 0x5C, CHR ''0'']
         else if n = 9 then [CHR 0x5C, CHR ''t'']
         else if n = 13 then [CHR 0x5C, CHR ''r'']
         else if n = 10 then [CHR 0x5C, CHR ''n'']
         else if n = 0x22 then [CHR 0x5C, CHR 0x22]
         else if n = 0x5C then [CHR 0x5C, CHR 0x5C]
         else if n < 32 \<or> n = 127 \<or> 127 < n \<and> \<not> printable n then escape_unicode n
         else from_bytes ch)"

function debug_chars :: "(nat \<Rightarrow> bool) \<Rightarrow> u8 list \<Rightarrow> string" where
  "debug_chars printable bs =
     (if bs = [] then []
      else (let n = snd (utf8_front bs) in escape_debug printable (take n bs) @ debug_chars printable (drop n bs)))"
  by pat_completeness auto
termination
  by (relation "measure (length \<circ> snd)") (auto intro: utf8_front_shorter)

declare debug_chars.simps [simp del]

definition debug_str :: "(nat \<Rightarrow> bool) \<Rightarrow> string \<Rightarrow> string" where
  "debug_str printable s = [CHR 0x22] @ debug_chars printable (as_bytes s) @ [CHR 0x22]"

text \<open>The Debug text of a \<open>Duration\<close>: the largest unit that is not zero, and the fraction without its trailing
  zeros.\<close>

fun fraction_digits :: "nat \<Rightarrow> nat \<Rightarrow> nat \<Rightarrow> string" where
  "fraction_digits 0 f d = []"
| "fraction_digits (Suc k) f d = (if f = 0 then [] else char_of (48 + f div d) # fraction_digits k (f mod d) (d div 10))"

definition fmt_decimal :: "nat \<Rightarrow> nat \<Rightarrow> nat \<Rightarrow> string" where
  "fmt_decimal n f d = show_nat n @ (if f = 0 then [] else ''.'' @ fraction_digits 9 f d)"

definition debug_duration :: "nat \<Rightarrow> string" where
  "debug_duration nanos =
     (if 1000000000 \<le> nanos then fmt_decimal (nanos div 1000000000) (nanos mod 1000000000) 100000000 @ ''s''
      else if 1000000 \<le> nanos then fmt_decimal (nanos div 1000000) (nanos mod 1000000) 100000 @ ''ms''
      else if 1000 \<le> nanos then fmt_decimal (nanos div 1000) (nanos mod 1000) 100 @ [CHR 0xC2, CHR 0xB5, CHR ''s'']
      else fmt_decimal nanos 0 1 @ ''ns'')"

section \<open>Debug texts stay on one line\<close>

text \<open>No ASCII control character, in particular no line break, gets into a Debug text.\<close>

definition no_control :: "string \<Rightarrow> bool" where
  "no_control s = list_all (\<lambda>c. 32 \<le> (of_char c :: nat) \<and> (of_char c :: nat) \<noteq> 127) s"

lemma no_control_append [simp]: "no_control (s @ t) \<longleftrightarrow> no_control s \<and> no_control t"
  by (simp add: no_control_def)

lemma no_control_Nil [simp]: "no_control []"
  by (simp add: no_control_def)

lemma no_control_Cons [simp]: "no_control (c # s) \<longleftrightarrow> 32 \<le> (of_char c :: nat) \<and> (of_char c :: nat) \<noteq> 127 \<and> no_control s"
  by (simp add: no_control_def)

lemma show_nat_no_control: "no_control (show_nat n)"
proof (induction n rule: show_nat.induct)
  case (1 n)
  show ?case by (subst show_nat.simps) (use 1 in auto)
qed

lemma hex_digit_no_control: "n < 16 \<Longrightarrow> no_control [''0123456789abcdef'' ! n]"
proof -
  have "list_all (\<lambda>k. no_control [''0123456789abcdef'' ! k]) [0..<16]" by code_simp
  then show "n < 16 \<Longrightarrow> no_control [''0123456789abcdef'' ! n]" by (simp add: list_all_iff)
qed

lemma show_hex_no_control: "no_control (show_hex n)"
proof (induction n rule: show_hex.induct)
  case (1 n)
  show ?case using 1 hex_digit_no_control [of n] hex_digit_no_control [of "n mod 16"]
    by (subst show_hex.simps) (auto simp del: no_control_Cons)
qed

lemma second_bytes_high: "cont_byte c \<or> second_of_3 b c \<or> second_of_4 b c \<Longrightarrow> 0x80 \<le> c"
proof -
  have "0xA0 \<le> c \<Longrightarrow> 0x80 \<le> c" "0x90 \<le> c \<Longrightarrow> 0x80 \<le> c" by (erule order_trans [rotated], simp)+
  then show "cont_byte c \<or> second_of_3 b c \<or> second_of_4 b c \<Longrightarrow> 0x80 \<le> c"
    by (auto simp: cont_byte_def second_of_3_def second_of_4_def)
qed

lemma utf8_front_multi:
  assumes "snd (utf8_front (b # cs)) \<noteq> 1"
  shows "0x80 \<le> b" and "\<forall>c \<in> set (take (snd (utf8_front (b # cs)) - 1) cs). 0x80 \<le> c"
proof -
  have "\<not> b < 0x80" using assms by auto
  then show "0x80 \<le> b" by (simp add: not_less)
  have pieces: "P (snd (if A then (True, 1) else if A2 then X else if A3 then Y else if A4 then Z else (False, 1)))"
    if "P 1" "P (snd X)" "P (snd Y)" "P (snd Z)" for P A A2 A3 A4 X Y Z using that by simp
  show "\<forall>c \<in> set (take (snd (utf8_front (b # cs)) - 1) cs). 0x80 \<le> c"
    unfolding utf8_front.simps
    by (rule pieces) (auto simp: second_bytes_high [of _ b] split: list.split)
qed

lemma utf8_front_high:
  assumes "bs \<noteq> []"
  shows "(\<exists>b. take (snd (utf8_front bs)) bs = [b]) \<or> (\<forall>b \<in> set (take (snd (utf8_front bs)) bs). 0x80 \<le> b)"
proof -
  from assms obtain b cs where bs: "bs = b # cs" by (cases bs) auto
  let ?n = "snd (utf8_front bs)"
  have "0 < ?n" using assms by (rule utf8_front_pos)
  then have take: "take ?n bs = b # take (?n - 1) cs" by (simp add: bs take_Cons' del: utf8_front.simps)
  show ?thesis
  proof (cases "?n = 1")
    case False
    with utf8_front_multi [of b cs] show ?thesis unfolding take by (simp add: bs del: utf8_front.simps)
  qed (simp add: bs)
qed

lemma from_bytes_high: "\<forall>b \<in> set bs. (0x80 :: u8) \<le> b \<Longrightarrow> no_control (from_bytes bs)"
proof (induction bs)
  case (Cons b bs)
  then have "128 \<le> unat b" "unat b < 256" using unsigned_less [of b] by (simp_all add: word_le_nat_alt)
  with Cons show ?case by (simp add: from_bytes_def)
qed (simp add: from_bytes_def)

lemma escape_debug_no_control:
  assumes "(\<exists>b. ch = [b]) \<or> (\<forall>b \<in> set ch. 0x80 \<le> b)"
  shows "no_control (escape_debug printable ch)"
proof (cases "escape_debug printable ch = from_bytes ch")
  case True
  from assms show ?thesis
  proof
    assume "\<exists>b. ch = [b]"
    then obtain b where b: "ch = [b]" by blast
    have "unat b < 256" using unsigned_less [of b] by simp
    then show ?thesis
      by (auto simp: escape_debug_def Let_def b from_bytes_def escape_unicode_def show_hex_no_control)
  qed (simp add: True from_bytes_high)
qed (auto simp: escape_debug_def Let_def escape_unicode_def show_hex_no_control split: if_splits)

lemma debug_chars_no_control: "no_control (debug_chars printable bs)"
proof (induction printable bs rule: debug_chars.induct)
  case (1 printable bs)
  show ?case
    by (subst debug_chars.simps) (use 1 escape_debug_no_control [OF utf8_front_high] in \<open>simp add: Let_def\<close>)
qed

lemma debug_str_no_control: "no_control (debug_str printable s)"
  by (simp add: debug_str_def debug_chars_no_control)

end
