(* ===== verification/Rpc_Methods.thy ===== *)
theory Rpc_Methods
  imports Rust_Strings
begin

text \<open>
  \<open>core/network/src/rpc/methods.rs\<close>: the request identifiers, the response types with their
  one-byte codes, the reasons of a goodbye, and their texts.
\<close>

definition MAX_REQUEST_BLOCKS :: u64 where
  "MAX_REQUEST_BLOCKS = 1024"

section \<open>Error messages\<close>

datatype error_type = ErrorType "u8 list"

primrec error_type_deref :: "error_type \<Rightarrow> u8 list" where
  "error_type_deref (ErrorType bs) = bs"

definition error_type_from_string :: "string \<Rightarrow> error_type" where
  "error_type_from_string s = ErrorType (as_bytes s)"

definition error_type_to_string :: "error_type \<Rightarrow> string" where
  "error_type_to_string err =
     (if utf8_valid (error_type_deref err) then from_bytes (error_type_deref err)
      else debug_bytes (error_type_deref err))"

section \<open>Identifiers and messages\<close>

datatype request_id = Router | Sync nat | Behaviour

record status_message =
  fork_digest :: "u8 list"
  finalized_root :: "u8 list"
  finalized_epoch :: u64
  head_root :: "u8 list"
  head_slot :: u64

record ping =
  ping_data_seq :: u64

record meta_data =
  seq_number :: u64
  attnets :: "u8 list"

datatype goodbye_reason = ClientShutdown | IrrelevantNetwork | Fault | UnknownReason

definition goodbye_from_u64 :: "u64 \<Rightarrow> goodbye_reason" where
  "goodbye_from_u64 i =
     (if i = 1 then ClientShutdown else if i = 2 then IrrelevantNetwork
      else if i = 3 then Fault else UnknownReason)"

fun goodbye_into_u64 :: "goodbye_reason \<Rightarrow> u64" where
  "goodbye_into_u64 ClientShutdown = 1"
| "goodbye_into_u64 IrrelevantNetwork = 2"
| "goodbye_into_u64 Fault = 3"
| "goodbye_into_u64 UnknownReason = 0"

section \<open>Responses\<close>

datatype rpc_response = StatusResponse "u8 list" | Pong "u8 list" | MetaDataResponse "u8 list"

datatype rpc_coded_response =
    Success rpc_response
  | InvalidRequest error_type
  | ServerError error_type
  | UnknownResponse error_type

datatype rpc_response_error_code = InvalidRequestCode | ServerErrorCode | UnknownCode

fun as_u8 :: "rpc_coded_response \<Rightarrow> u8 option" where
  "as_u8 (Success _) = Some 0"
| "as_u8 (InvalidRequest _) = Some 1"
| "as_u8 (ServerError _) = Some 2"
| "as_u8 (UnknownResponse _) = Some 255"

definition is_response :: "u8 \<Rightarrow> bool" where
  "is_response response_code = (response_code = 0)"

definition from_error :: "u8 \<Rightarrow> string \<Rightarrow> rpc_coded_response" where
  "from_error response_code err =
     (if response_code = 1 then InvalidRequest (error_type_from_string err)
      else if response_code = 2 then ServerError (error_type_from_string err)
      else UnknownResponse (error_type_from_string err))"

fun from_error_code :: "rpc_response_error_code \<Rightarrow> string \<Rightarrow> rpc_coded_response" where
  "from_error_code InvalidRequestCode err = InvalidRequest (error_type_from_string err)"
| "from_error_code ServerErrorCode err = ServerError (error_type_from_string err)"
| "from_error_code UnknownCode err = UnknownResponse (error_type_from_string err)"

fun multiple_responses :: "rpc_coded_response \<Rightarrow> bool" where
  "multiple_responses (Success resp) =
     (case resp of StatusResponse _ \<Rightarrow> False | Pong _ \<Rightarrow> False | MetaDataResponse _ \<Rightarrow> False)"
| "multiple_responses (InvalidRequest _) = True"
| "multiple_responses (ServerError _) = True"
| "multiple_responses (UnknownResponse _) = True"

fun is_error :: "rpc_coded_response \<Rightarrow> bool" where
  "is_error (Success _) = False"
| "is_error _ = True"

fun error_code :: "rpc_coded_response \<Rightarrow> rpc_response_error_code option" where
  "error_code (Success _) = None"
| "error_code (InvalidRequest _) = Some InvalidRequestCode"
| "error_code (ServerError _) = Some ServerErrorCode"
| "error_code (UnknownResponse _) = Some UnknownCode"

section \<open>Texts\<close>

fun show_error_code :: "rpc_response_error_code \<Rightarrow> string" where
  "show_error_code InvalidRequestCode = ''The request was invalid''"
| "show_error_code ServerErrorCode = ''Server error occurred''"
| "show_error_code UnknownCode = ''Unknown error occurred''"

definition show_status_message :: "status_message \<Rightarrow> string" where
  "show_status_message m =
     ''Status Message: Fork Digest: '' @ debug_bytes (fork_digest m) @
     '', Finalized Root: '' @ debug_bytes (finalized_root m) @
     '', Finalized Epoch: '' @ show_nat (unat (finalized_epoch m)) @
     '', Head Root: '' @ debug_bytes (head_root m) @
     '', Head Slot: '' @ show_nat (unat (head_slot m))"

fun show_response :: "rpc_response \<Rightarrow> string" where
  "show_response (StatusResponse status) = debug_bytes status"
| "show_response (Pong p) = ''Pong: '' @ debug_bytes p"
| "show_response (MetaDataResponse md) = ''Metadata: '' @ debug_bytes md"

text \<open>The derived \<open>Debug\<close> of the newtype \<open>ErrorType\<close> prints the constructor.\<close>

definition debug_error_type :: "error_type \<Rightarrow> string" where
  "debug_error_type err = ''ErrorType('' @ debug_bytes (error_type_deref err) @ '')''"

fun show_coded_response :: "rpc_coded_response \<Rightarrow> string" where
  "show_coded_response (Success res) = show_response res"
| "show_coded_response (InvalidRequest err) = ''Invalid Request: '' @ debug_error_type err"
| "show_coded_response (ServerError err) = ''Server Error: '' @ debug_error_type err"
| "show_coded_response (UnknownResponse err) = ''Unknown Error: '' @ debug_error_type err"

fun show_goodbye_reason :: "goodbye_reason \<Rightarrow> string" where
  "show_goodbye_reason ClientShutdown = ''Client Shutdown''"
| "show_goodbye_reason IrrelevantNetwork = ''Irrelevant Network''"
| "show_goodbye_reason Fault = ''Fault''"
| "show_goodbye_reason UnknownReason = ''Unknown Reason''"

section \<open>Lemmas\<close>

lemma error_type_roundtrip [simp]: "error_type_deref (error_type_from_string s) = as_bytes s"
  by (simp add: error_type_from_string_def)

lemma as_u8_total: "\<exists>c. as_u8 r = Some c"
  by (cases r) auto

lemma is_error_iff_error_code: "is_error r \<longleftrightarrow> error_code r \<noteq> None"
  by (cases r) auto

lemma multiple_responses_iff_error: "multiple_responses r \<longleftrightarrow> is_error r"
  by (cases r) (auto split: rpc_response.splits)

text \<open>The payload of a coded response, as the codec writes it.\<close>

fun coded_payload :: "rpc_coded_response \<Rightarrow> u8 list" where
  "coded_payload (Success (StatusResponse res)) = res"
| "coded_payload (Success (Pong res)) = res"
| "coded_payload (Success (MetaDataResponse res)) = res"
| "coded_payload (InvalidRequest err) = error_type_deref err"
| "coded_payload (ServerError err) = error_type_deref err"
| "coded_payload (UnknownResponse err) = error_type_deref err"

lemma response_code_roundtrip_aux:
  "\<exists>c. as_u8 r = Some c \<and> (is_response c \<longleftrightarrow> \<not> is_error r) \<and>
       (if is_error r then from_error c (from_bytes (coded_payload r)) = r \<and>
          (\<exists>ec. error_code r = Some ec \<and> from_error_code ec (from_bytes (coded_payload r)) = r)
        else error_code r = None)"
proof (cases r)
  case (InvalidRequest err)
  then show ?thesis by (cases err) (simp add: is_response_def from_error_def error_type_from_string_def)
next
  case (ServerError err)
  then show ?thesis by (cases err) (simp add: is_response_def from_error_def error_type_from_string_def)
next
  case (UnknownResponse err)
  then show ?thesis by (cases err) (simp add: is_response_def from_error_def error_type_from_string_def)
qed (simp add: is_response_def)

section \<open>Properties\<close>

text \<open>Response codes are a faithful encoding: the code of a response says whether it is an
  error, and for an error, rebuilding it from its code and its message (as the decoder does) gives the
  same response and the same error code.\<close>

theorem response_code_roundtrip:
  "\<exists>c. as_u8 r = Some c \<and> (is_response c \<longleftrightarrow> \<not> is_error r) \<and>
       (if is_error r then from_error c (from_bytes (coded_payload r)) = r \<and>
          (\<exists>ec. error_code r = Some ec \<and> from_error_code ec (from_bytes (coded_payload r)) = r)
        else error_code r = None)"
  by (rule response_code_roundtrip_aux)

text \<open>A goodbye reason survives its conversion to \<open>u64\<close> and back; the other way round, exactly
  the four known numbers survive, and every other number turns into 0.\<close>

theorem goodbye_reason_roundtrip:
  "goodbye_from_u64 (goodbye_into_u64 r) = r \<and>
   goodbye_into_u64 (goodbye_from_u64 n) = (if n \<le> 3 then n else 0)"
proof -
  have "n \<le> 3 \<longleftrightarrow> n = 0 \<or> n = 1 \<or> n = 2 \<or> n = (3 :: u64)"
    by unat_arith
  then show ?thesis by (cases r) (auto simp: goodbye_from_u64_def)
qed

end
