(* ===== verification/Rpc_Protocol.thy ===== *)
theory Rpc_Protocol
  imports Rpc_Methods
begin

text \<open>
  \<open>core/network/src/rpc/protocol.rs\<close>: the protocols of the RPC layer, their identifiers on the
  wire, the requests, and the errors. The two upgrades are modelled with their I/O outcome as an
  argument: what the timed read of the first frame gave (\<open>upgrade_inbound\<close>), and what sending and
  closing gave (\<open>upgrade_outbound\<close>). The codecs that they install are in \<open>Rpc_Codec\<close>.
\<close>

definition MAX_RPC_SIZE :: nat where
  "MAX_RPC_SIZE = 1048576"

definition PROTOCOL_PREFIX :: string where
  "PROTOCOL_PREFIX = ''/eth2/beacon_chain/req''"

definition TTFB_TIMEOUT :: nat where
  "TTFB_TIMEOUT = 5"

definition REQUEST_TIMEOUT :: nat where
  "REQUEST_TIMEOUT = 15"

section \<open>Protocol identifiers\<close>

datatype protocol = PStatus | PGoodbye | PPing | PMetaData

datatype version = V1

datatype encoding = Snappy

fun show_protocol :: "protocol \<Rightarrow> string" where
  "show_protocol PStatus = ''status''"
| "show_protocol PGoodbye = ''goodbye''"
| "show_protocol PPing = ''ping''"
| "show_protocol PMetaData = ''metadata''"

fun show_encoding :: "encoding \<Rightarrow> string" where
  "show_encoding Snappy = ''ssz_snappy''"

fun show_version :: "version \<Rightarrow> string" where
  "show_version V1 = ''1''"

record protocol_id =
  message_name :: protocol
  pid_version :: version
  pid_encoding :: encoding
  pid_string :: string

definition protocol_id_new :: "protocol \<Rightarrow> version \<Rightarrow> encoding \<Rightarrow> protocol_id" where
  "protocol_id_new name ver enc =
     \<lparr> message_name = name, pid_version = ver, pid_encoding = enc,
       pid_string = PROTOCOL_PREFIX @ ''/'' @ show_protocol name @ ''/'' @ show_version ver @ ''/'' @ show_encoding enc \<rparr>"

definition protocol_name :: "protocol_id \<Rightarrow> u8 list" where
  "protocol_name p = as_bytes (pid_string p)"

text \<open>\<open>RPCProtocol::protocol_info\<close>: what we accept on inbound substreams.\<close>

definition protocol_info :: "protocol_id list" where
  "protocol_info =
     [protocol_id_new PStatus V1 Snappy, protocol_id_new PGoodbye V1 Snappy,
      protocol_id_new PPing V1 Snappy, protocol_id_new PMetaData V1 Snappy]"

section \<open>Requests\<close>

datatype rpc_request =
    StatusRequest "u8 list"
  | GoodbyeRequest "u8 list"
  | PingRequest "u8 list"
  | MetaDataRequest

fun supported_protocols :: "rpc_request \<Rightarrow> protocol_id list" where
  "supported_protocols (StatusRequest _) = [protocol_id_new PStatus V1 Snappy]"
| "supported_protocols (GoodbyeRequest _) = [protocol_id_new PGoodbye V1 Snappy]"
| "supported_protocols (PingRequest _) = [protocol_id_new PPing V1 Snappy]"
| "supported_protocols MetaDataRequest = [protocol_id_new PMetaData V1 Snappy]"

fun expected_responses :: "rpc_request \<Rightarrow> nat" where
  "expected_responses (StatusRequest _) = 1"
| "expected_responses (GoodbyeRequest _) = 0"
| "expected_responses (PingRequest _) = 1"
| "expected_responses MetaDataRequest = 1"

fun req_protocol :: "rpc_request \<Rightarrow> protocol" where
  "req_protocol (StatusRequest _) = PStatus"
| "req_protocol (GoodbyeRequest _) = PGoodbye"
| "req_protocol (PingRequest _) = PPing"
| "req_protocol MetaDataRequest = PMetaData"

fun show_request :: "rpc_request \<Rightarrow> string" where
  "show_request (StatusRequest status) = ''Status Message: '' @ debug_bytes status"
| "show_request (GoodbyeRequest reason) = ''Goodbye: '' @ debug_bytes reason"
| "show_request (PingRequest p) = ''Ping: '' @ debug_bytes p"
| "show_request MetaDataRequest = ''MetaData request''"

section \<open>Errors\<close>

datatype rpc_error =
    DecodeError
  | IoError string
  | ErrorResponse rpc_response_error_code string
  | StreamTimeout
  | UnsupportedProtocol
  | IncompleteStream
  | InvalidData
  | InternalError string
  | NegotiationTimeout
  | HandlerRejected

fun show_rpc_error :: "rpc_error \<Rightarrow> string" where
  "show_rpc_error DecodeError = ''Error while decoding RPC''"
| "show_rpc_error InvalidData = ''Peer sent unexpected data''"
| "show_rpc_error (IoError err) = ''IO Error: '' @ err"
| "show_rpc_error (ErrorResponse code reason) =
     ''RPC response was an error: '' @ show_error_code code @ '' with reason: '' @ reason"
| "show_rpc_error StreamTimeout = ''Stream Timeout''"
| "show_rpc_error UnsupportedProtocol = ''Peer does not support the protocol''"
| "show_rpc_error IncompleteStream = ''Stream ended unexpectedly''"
| "show_rpc_error (InternalError err) = ''Internal error: '' @ err"
| "show_rpc_error NegotiationTimeout = ''Negotiation timeout''"
| "show_rpc_error HandlerRejected = ''Handler rejected the request''"

text \<open>\<open>impl From<tokio::time::Elapsed> for RPCError\<close>.\<close>

definition rpc_error_from_elapsed :: rpc_error where
  "rpc_error_from_elapsed = StreamTimeout"

text \<open>\<open>impl From<io::Error> for RPCError\<close>: the error comes with its text.\<close>

definition rpc_error_from_io :: "string \<Rightarrow> rpc_error" where
  "rpc_error_from_io err = IoError err"

section \<open>Upgrades\<close>

text \<open>The outcome of \<open>tokio::time::timeout(d, future)\<close>.\<close>

datatype 'a timed = Elapsed | InTime 'a

definition upgrade_inbound ::
  "protocol_id \<Rightarrow> (rpc_error + rpc_request) option timed \<Rightarrow> 's \<Rightarrow> rpc_error + (rpc_request \<times> 's)" where
  "upgrade_inbound protocol first_frame socket =
     (case message_name protocol of
        PMetaData \<Rightarrow> Inr (MetaDataRequest, socket)
      | _ \<Rightarrow> (case first_frame of
                Elapsed \<Rightarrow> Inl rpc_error_from_elapsed
              | InTime (Some (Inr request)) \<Rightarrow> Inr (request, socket)
              | InTime (Some (Inl _)) \<Rightarrow> Inl IncompleteStream
              | InTime None \<Rightarrow> Inl IncompleteStream))"

text \<open>\<open>send\<close> and \<open>close\<close> are the sink operations of the framed socket: the first error ends the upgrade.\<close>

definition upgrade_outbound ::
  "(rpc_request \<Rightarrow> 's \<Rightarrow> rpc_error + 's) \<Rightarrow> ('s \<Rightarrow> rpc_error + 's) \<Rightarrow> rpc_request \<Rightarrow> 's \<Rightarrow> rpc_error + 's" where
  "upgrade_outbound send close req socket =
     (case send req socket of Inl err \<Rightarrow> Inl err | Inr socket' \<Rightarrow> close socket')"

section \<open>Properties\<close>

lemma show_protocol_inject: "show_protocol p = show_protocol q \<longleftrightarrow> p = q"
  by (cases p; cases q) auto

lemma show_version_inject: "show_version v = show_version w"
  by (cases v; cases w) simp

lemma show_encoding_inject: "show_encoding v = show_encoding w"
  by (cases v; cases w) simp

lemma protocol_name_inject:
  "protocol_name (protocol_id_new p v en) = protocol_name (protocol_id_new q w en') \<longleftrightarrow> p = q"
proof -
  have "protocol_name x = protocol_name y \<longleftrightarrow> pid_string x = pid_string y" for x y :: protocol_id
    by (metis from_bytes_as_bytes protocol_name_def)
  moreover have "show_version w = show_version v" "show_encoding en' = show_encoding en"
    by (rule show_version_inject show_encoding_inject)+
  ultimately show ?thesis
    by (simp add: protocol_id_new_def show_protocol_inject)
qed

text \<open>Negotiation is unambiguous: a request is offered under exactly one protocol name, which is
  the name of its own protocol, we accept that name ourselves, and among the names we accept no two
  different protocols share one.\<close>

theorem request_negotiates_own_protocol:
  "\<exists>p. supported_protocols req = [p] \<and> message_name p = req_protocol req \<and> p \<in> set protocol_info \<and>
       (\<forall>q \<in> set protocol_info. protocol_name q = protocol_name p \<longrightarrow> message_name q = req_protocol req)"
  by (cases req)
    (auto simp: protocol_info_def protocol_name_inject, auto simp: protocol_id_new_def)

theorem request_negotiates_own_protocol_witness:
  "\<exists>p. supported_protocols (PingRequest [1]) = [p] \<and> message_name p = PPing \<and> p \<in> set protocol_info"
  using request_negotiates_own_protocol [of "PingRequest [1]"] by auto

end
