(* ===== verification/Rpc_Codec.thy ===== *)
theory Rpc_Codec
  imports Rpc_Protocol "HOL-Library.Sublist"
begin

text \<open>
  \<open>core/network/src/rpc/codec/\<close>: the Snappy codecs of the two directions (\<open>snappy.rs\<close>), the
  wrappers that add and strip the response code (\<open>base.rs\<close>), and the enums around them
  (\<open>codec/mod.rs\<close>).

  The varint codec (\<open>unsigned_varint\<close>) and the Snappy frame reader and writer (\<open>snap\<close>) are
  third-party code: the record \<open>codec_lib\<close>, with the locale \<open>frame_codec\<close> for what the codecs rely on.
  A decoder call takes the codec state and the receive buffer and returns its answer with the new state
  and buffer; \<open>Inr None\<close> asks for more bytes.
\<close>

section \<open>The libraries\<close>

datatype read_result = ReadOk "u8 list" nat | ReadEof | ReadErr string

record codec_lib =
  uvi_encode :: "nat \<Rightarrow> string + u8 list"
  uvi_decode :: "u8 list \<Rightarrow> string + (nat \<times> nat) option"
  snap_encode :: "u8 list \<Rightarrow> string + u8 list"
  snap_read_exact :: "nat \<Rightarrow> u8 list \<Rightarrow> read_result"

text \<open>
  \<open>uvi_decode\<close> gives a number and how many bytes it took, or \<open>None\<close> when there are too few;
  \<open>snap_read_exact n\<close> decompresses exactly \<open>n\<close> bytes and says how many compressed bytes it
  consumed, or \<open>ReadEof\<close> (\<open>ErrorKind::UnexpectedEof\<close>) on truncated input. A non-empty Snappy stream
  starts with a ten-byte identifier.
\<close>

locale frame_codec =
  fixes lib :: codec_lib
    and varint :: "nat \<Rightarrow> u8 list"
    and compressed :: "u8 list \<Rightarrow> u8 list"
  assumes uvi_encode_law: "n < 2 ^ 64 \<Longrightarrow> uvi_encode lib n = Inr (varint n)"
    and varint_nonempty: "varint n \<noteq> []"
    and uvi_decode_law: "n < 2 ^ 64 \<Longrightarrow> uvi_decode lib (varint n @ rest) = Inr (Some (n, length (varint n)))"
    and uvi_decode_short: "n < 2 ^ 64 \<Longrightarrow> strict_prefix p (varint n) \<Longrightarrow> uvi_decode lib p = Inr None"
    and snap_encode_law: "snap_encode lib xs = Inr (compressed xs)"
    and compressed_empty: "compressed [] = []"
    and compressed_header: "xs \<noteq> [] \<Longrightarrow> 10 \<le> length (compressed xs)"
    and snap_read_law: "snap_read_exact lib (length xs) (compressed xs @ rest) = ReadOk xs (length (compressed xs))"
    and snap_read_short: "strict_prefix p (compressed xs) \<Longrightarrow> snap_read_exact lib (length xs) p = ReadEof"

section \<open>Inbound codec: requests in, responses out\<close>

record snappy_inbound_codec =
  ic_protocol :: protocol_id
  ic_len :: "nat option"
  ic_max_packet_size :: nat

definition snappy_inbound_new :: "protocol_id \<Rightarrow> nat \<Rightarrow> snappy_inbound_codec" where
  "snappy_inbound_new protocol max_packet_size =
     \<lparr> ic_protocol = protocol, ic_len = None, ic_max_packet_size = max_packet_size \<rparr>"

text \<open>The part that both encoders share: the size check, the length prefix, the compressed bytes.\<close>

definition encode_payload :: "codec_lib \<Rightarrow> nat \<Rightarrow> u8 list \<Rightarrow> u8 list \<Rightarrow> (rpc_error + unit) \<times> u8 list" where
  "encode_payload lib max_size bytes dst =
     (if length bytes > max_size
      then (Inl (InternalError ''attempting to encode data > max_packet_size''), dst)
      else (case uvi_encode lib (length bytes) of
              Inl err \<Rightarrow> (Inl (rpc_error_from_io err), dst)
            | Inr len_prefix \<Rightarrow>
                (case snap_encode lib bytes of
                   Inl err \<Rightarrow> (Inl (rpc_error_from_io err), dst @ len_prefix)
                 | Inr cs \<Rightarrow> (Inr (), dst @ len_prefix @ cs))))"

definition snappy_inbound_encode ::
  "codec_lib \<Rightarrow> snappy_inbound_codec \<Rightarrow> rpc_coded_response \<Rightarrow> u8 list \<Rightarrow> (rpc_error + unit) \<times> u8 list" where
  "snappy_inbound_encode lib c item dst =
     encode_payload lib (ic_max_packet_size c)
       (case item of
          Success resp \<Rightarrow> (case resp of StatusResponse res \<Rightarrow> res | Pong res \<Rightarrow> res | MetaDataResponse res \<Rightarrow> res)
        | InvalidRequest err \<Rightarrow> error_type_deref err
        | ServerError err \<Rightarrow> error_type_deref err
        | UnknownResponse err \<Rightarrow> error_type_deref err) dst"

text \<open>The part that the three decoders share: the length prefix, the size check, one frame.\<close>

datatype chunk_result = ChunkErr rpc_error | ChunkMore | Chunk "u8 list"

definition read_chunk ::
  "codec_lib \<Rightarrow> nat \<Rightarrow> nat option \<Rightarrow> u8 list \<Rightarrow> chunk_result \<times> nat option \<times> u8 list" where
  "read_chunk lib max_size len src =
     (case (case len of Some n \<Rightarrow> Inr (Some (n, 0)) | None \<Rightarrow> uvi_decode lib src) of
        Inl err \<Rightarrow> (ChunkErr (rpc_error_from_io err), len, src)
      | Inr None \<Rightarrow> (ChunkMore, len, src)
      | Inr (Some (n, consumed)) \<Rightarrow>
          (let src' = drop consumed src in
           if n > max_size then (ChunkErr InvalidData, Some n, src')
           else (case snap_read_exact lib n src' of
                   ReadOk buffer position \<Rightarrow> (Chunk buffer, None, drop position src')
                 | ReadEof \<Rightarrow> (ChunkMore, Some n, src')
                 | ReadErr err \<Rightarrow> (ChunkErr (rpc_error_from_io err), Some n, src'))))"

definition request_of_buffer :: "protocol \<Rightarrow> u8 list \<Rightarrow> rpc_error + rpc_request option" where
  "request_of_buffer p buffer =
     (case p of
        PStatus \<Rightarrow> if length buffer > 0 then Inr (Some (StatusRequest buffer)) else Inl InvalidData
      | PGoodbye \<Rightarrow> if length buffer > 0 then Inr (Some (GoodbyeRequest buffer)) else Inl InvalidData
      | PPing \<Rightarrow> if length buffer > 0 then Inr (Some (PingRequest buffer)) else Inl InvalidData
      | PMetaData \<Rightarrow> if length buffer > 0 then Inl InvalidData else Inr (Some MetaDataRequest))"

definition snappy_inbound_decode ::
  "codec_lib \<Rightarrow> snappy_inbound_codec \<Rightarrow> u8 list \<Rightarrow>
   (rpc_error + rpc_request option) \<times> snappy_inbound_codec \<times> u8 list" where
  "snappy_inbound_decode lib c src =
     (case read_chunk lib (ic_max_packet_size c) (ic_len c) src of
        (res, len', src') \<Rightarrow>
          (case res of
             ChunkErr err \<Rightarrow> Inl err
           | ChunkMore \<Rightarrow> Inr None
           | Chunk buffer \<Rightarrow> request_of_buffer (message_name (ic_protocol c)) buffer,
           c\<lparr> ic_len := len' \<rparr>, src'))"

section \<open>Outbound codec: requests out, responses in\<close>

record snappy_outbound_codec =
  oc_protocol :: protocol_id
  oc_len :: "nat option"
  oc_max_packet_size :: nat

definition snappy_outbound_new :: "protocol_id \<Rightarrow> nat \<Rightarrow> snappy_outbound_codec" where
  "snappy_outbound_new protocol max_packet_size =
     \<lparr> oc_protocol = protocol, oc_len = None, oc_max_packet_size = max_packet_size \<rparr>"

definition snappy_outbound_encode ::
  "codec_lib \<Rightarrow> snappy_outbound_codec \<Rightarrow> rpc_request \<Rightarrow> u8 list \<Rightarrow> (rpc_error + unit) \<times> u8 list" where
  "snappy_outbound_encode lib c item dst =
     (case item of
        StatusRequest req \<Rightarrow> encode_payload lib (oc_max_packet_size c) req dst
      | GoodbyeRequest req \<Rightarrow> encode_payload lib (oc_max_packet_size c) req dst
      | PingRequest req \<Rightarrow> encode_payload lib (oc_max_packet_size c) req dst
      | MetaDataRequest \<Rightarrow> (Inr (), dst))"

definition response_of_buffer :: "protocol \<Rightarrow> u8 list \<Rightarrow> rpc_error + rpc_response option" where
  "response_of_buffer p buffer =
     (case p of
        PStatus \<Rightarrow> if length buffer > 0 then Inr (Some (StatusResponse buffer)) else Inl InvalidData
      | PGoodbye \<Rightarrow> Inl InvalidData
      | PPing \<Rightarrow> if length buffer > 0 then Inr (Some (Pong buffer)) else Inl InvalidData
      | PMetaData \<Rightarrow> if length buffer > 0 then Inr (Some (MetaDataResponse buffer)) else Inl InvalidData)"

definition snappy_outbound_decode ::
  "codec_lib \<Rightarrow> snappy_outbound_codec \<Rightarrow> u8 list \<Rightarrow>
   (rpc_error + rpc_response option) \<times> snappy_outbound_codec \<times> u8 list" where
  "snappy_outbound_decode lib c src =
     (case read_chunk lib (oc_max_packet_size c) (oc_len c) src of
        (res, len', src') \<Rightarrow>
          (case res of
             ChunkErr err \<Rightarrow> Inl err
           | ChunkMore \<Rightarrow> Inr None
           | Chunk buffer \<Rightarrow> response_of_buffer (message_name (oc_protocol c)) buffer,
           c\<lparr> oc_len := len' \<rparr>, src'))"

definition snappy_decode_error ::
  "codec_lib \<Rightarrow> snappy_outbound_codec \<Rightarrow> u8 list \<Rightarrow>
   (rpc_error + string option) \<times> snappy_outbound_codec \<times> u8 list" where
  "snappy_decode_error lib c src =
     (case read_chunk lib (oc_max_packet_size c) (oc_len c) src of
        (res, len', src') \<Rightarrow>
          (case res of
             ChunkErr err \<Rightarrow> Inl err
           | ChunkMore \<Rightarrow> Inr None
           | Chunk buffer \<Rightarrow> Inr (Some (from_bytes (from_utf8_lossy buffer))),
           c\<lparr> oc_len := len' \<rparr>, src'))"

section \<open>The base codecs\<close>

text \<open>\<open>BaseInboundCodec\<close> holds nothing but the inner codec. Its encoder clears the buffer and writes
  the response code first; \<open>expect\<close> panics when there is no code.\<close>

definition base_inbound_encode ::
  "codec_lib \<Rightarrow> snappy_inbound_codec \<Rightarrow> rpc_coded_response \<Rightarrow> u8 list \<Rightarrow> ((rpc_error + unit) \<times> u8 list) option" where
  "base_inbound_encode lib c item dst =
     (case as_u8 item of
        Some code \<Rightarrow> Some (snappy_inbound_encode lib c item [code])
      | None \<Rightarrow> None)"

definition base_inbound_decode ::
  "codec_lib \<Rightarrow> snappy_inbound_codec \<Rightarrow> u8 list \<Rightarrow>
   (rpc_error + rpc_request option) \<times> snappy_inbound_codec \<times> u8 list" where
  "base_inbound_decode lib c src = snappy_inbound_decode lib c src"

record base_outbound_codec =
  bo_inner :: snappy_outbound_codec
  current_response_code :: "u8 option"

definition base_outbound_new :: "snappy_outbound_codec \<Rightarrow> base_outbound_codec" where
  "base_outbound_new codec = \<lparr> bo_inner = codec, current_response_code = None \<rparr>"

definition base_outbound_encode ::
  "codec_lib \<Rightarrow> base_outbound_codec \<Rightarrow> rpc_request \<Rightarrow> u8 list \<Rightarrow> (rpc_error + unit) \<times> u8 list" where
  "base_outbound_encode lib c item dst = snappy_outbound_encode lib (bo_inner c) item dst"

definition base_outbound_decode ::
  "codec_lib \<Rightarrow> base_outbound_codec \<Rightarrow> u8 list \<Rightarrow>
   (rpc_error + rpc_coded_response option) \<times> base_outbound_codec \<times> u8 list" where
  "base_outbound_decode lib c src =
     (if length src \<le> 1 then (Inr None, c, src)
      else
        (let (response_code, src1) =
               (case current_response_code c of Some code \<Rightarrow> (code, src) | None \<Rightarrow> (hd src, tl src));
             (inner_result, inner', src2) =
               (if is_response response_code
                then (case snappy_outbound_decode lib (bo_inner c) src1 of
                        (r, inner', src2) \<Rightarrow> (map_sum id (map_option Success) r, inner', src2))
                else (case snappy_decode_error lib (bo_inner c) src1 of
                        (r, inner', src2) \<Rightarrow> (map_sum id (map_option (from_error response_code)) r, inner', src2)))
         in (inner_result,
             \<lparr> bo_inner = inner',
               current_response_code = (case inner_result of Inr (Some _) \<Rightarrow> None | _ \<Rightarrow> Some response_code) \<rparr>,
             src2)))"

section \<open>The codec enums\<close>

datatype inbound_codec = InboundSnappy snappy_inbound_codec
datatype outbound_codec = OutboundSnappy base_outbound_codec

fun inbound_encode ::
  "codec_lib \<Rightarrow> inbound_codec \<Rightarrow> rpc_coded_response \<Rightarrow> u8 list \<Rightarrow> ((rpc_error + unit) \<times> u8 list) option" where
  "inbound_encode lib (InboundSnappy c) item dst = base_inbound_encode lib c item dst"

fun inbound_decode ::
  "codec_lib \<Rightarrow> inbound_codec \<Rightarrow> u8 list \<Rightarrow> (rpc_error + rpc_request option) \<times> inbound_codec \<times> u8 list" where
  "inbound_decode lib (InboundSnappy c) src =
     (case base_inbound_decode lib c src of (r, c', src') \<Rightarrow> (r, InboundSnappy c', src'))"

fun outbound_encode ::
  "codec_lib \<Rightarrow> outbound_codec \<Rightarrow> rpc_request \<Rightarrow> u8 list \<Rightarrow> (rpc_error + unit) \<times> u8 list" where
  "outbound_encode lib (OutboundSnappy c) item dst = base_outbound_encode lib c item dst"

fun outbound_decode ::
  "codec_lib \<Rightarrow> outbound_codec \<Rightarrow> u8 list \<Rightarrow>
   (rpc_error + rpc_coded_response option) \<times> outbound_codec \<times> u8 list" where
  "outbound_decode lib (OutboundSnappy c) src =
     (case base_outbound_decode lib c src of (r, c', src') \<Rightarrow> (r, OutboundSnappy c', src'))"

text \<open>The codecs that the upgrades of \<open>protocol.rs\<close> install.\<close>

definition inbound_codec_for :: "protocol_id \<Rightarrow> inbound_codec" where
  "inbound_codec_for p = (case pid_encoding p of Snappy \<Rightarrow> InboundSnappy (snappy_inbound_new p MAX_RPC_SIZE))"

definition outbound_codec_for :: "protocol_id \<Rightarrow> outbound_codec" where
  "outbound_codec_for p =
     (case pid_encoding p of Snappy \<Rightarrow> OutboundSnappy (base_outbound_new (snappy_outbound_new p MAX_RPC_SIZE)))"

section \<open>Framing\<close>

text \<open>The payload of a request and the protocol it is decoded under.\<close>

fun request_payload :: "rpc_request \<Rightarrow> u8 list" where
  "request_payload (StatusRequest req) = req"
| "request_payload (GoodbyeRequest req) = req"
| "request_payload (PingRequest req) = req"
| "request_payload MetaDataRequest = []"

fun response_protocol :: "rpc_response \<Rightarrow> protocol" where
  "response_protocol (StatusResponse _) = PStatus"
| "response_protocol (Pong _) = PPing"
| "response_protocol (MetaDataResponse _) = PMetaData"

lemma request_of_sent_buffer:
  "req \<noteq> MetaDataRequest \<Longrightarrow>
   request_of_buffer (req_protocol req) (request_payload req) = (if request_payload req = [] then Inl InvalidData else Inr (Some req))"
  by (cases req) (simp_all add: request_of_buffer_def)

lemma response_of_own_buffer:
  "coded_payload (Success resp) \<noteq> [] \<Longrightarrow>
   response_of_buffer (response_protocol resp) (coded_payload (Success resp)) = Inr (Some resp)"
  by (cases resp) (auto simp: response_of_buffer_def)

lemma snappy_inbound_encode_payload:
  "snappy_inbound_encode lib c item dst = encode_payload lib (ic_max_packet_size c) (coded_payload item) dst"
  by (cases item rule: coded_payload.cases) (auto simp: snappy_inbound_encode_def)

lemma snappy_outbound_encode_payload:
  "item \<noteq> MetaDataRequest \<Longrightarrow>
   snappy_outbound_encode lib c item dst = encode_payload lib (oc_max_packet_size c) (request_payload item) dst"
  by (cases item) (auto simp: snappy_outbound_encode_def)

context frame_codec
begin

text \<open>One frame on the wire: the length of the payload, then the compressed payload.\<close>

definition frame :: "u8 list \<Rightarrow> u8 list" where
  "frame xs = varint (length xs) @ compressed xs"

lemma encode_payload_ok:
  "length xs \<le> m \<Longrightarrow> length xs < 2 ^ 64 \<Longrightarrow> encode_payload lib m xs dst = (Inr (), dst @ frame xs)"
  by (simp add: encode_payload_def uvi_encode_law snap_encode_law frame_def)

lemma read_chunk_frame:
  "length xs \<le> m \<Longrightarrow> length xs < 2 ^ 64 \<Longrightarrow>
   read_chunk lib m None (frame xs @ rest) = (Chunk xs, None, rest)"
  by (simp add: read_chunk_def frame_def uvi_decode_law snap_read_law)

lemma read_chunk_body:
  "length xs \<le> m \<Longrightarrow> read_chunk lib m (Some (length xs)) (compressed xs @ rest) = (Chunk xs, None, rest)"
  by (simp add: read_chunk_def snap_read_law)

text \<open>A frame that arrives in two pieces: the first call asks for more, the second, with the rest of
  the frame appended to the buffer, gives the payload.\<close>

lemma read_chunk_split:
  assumes len: "length xs \<le> m" "length xs < 2 ^ 64" and pq: "p @ q = frame xs" "q \<noteq> []"
  shows "\<exists>l b. read_chunk lib m None p = (ChunkMore, l, b) \<and>
               read_chunk lib m l (b @ q @ rest) = (Chunk xs, None, rest) \<and>
               (p \<noteq> [] \<longrightarrow> 2 \<le> length (b @ q))"
proof (cases "strict_prefix p (varint (length xs))")
  case True
  then obtain r where r: "varint (length xs) = p @ r" "r \<noteq> []"
    by (auto simp: strict_prefix_def prefix_def)
  then have "length p < length (varint (length xs))" by simp
  then have "p \<noteq> [] \<longrightarrow> 2 \<le> length (frame xs)"
    by (cases p) (auto simp: frame_def)
  with True pq show ?thesis
    using read_chunk_frame [OF len, of rest]
    by (auto simp: read_chunk_def [of lib m None p] uvi_decode_short [OF len(2)] simp flip: pq(1))
next
  case False
  from pq(1) obtain p' where p': "p = varint (length xs) @ p'" "compressed xs = p' @ q"
    using False by (auto simp: frame_def append_eq_append_conv2 strict_prefix_def prefix_def)
      (metis append_self_conv append_Nil)
  with pq(2) have sp: "strict_prefix p' (compressed xs)" by (auto simp: strict_prefix_def)
  moreover from p'(2) pq(2) have "xs \<noteq> []" using compressed_empty by auto
  ultimately have "2 \<le> length (p' @ q)" using compressed_header [of xs] p'(2) by simp
  moreover have "read_chunk lib m None p = (ChunkMore, Some (length xs), p')"
    using len by (simp add: read_chunk_def p'(1) uvi_decode_law snap_read_short [OF sp])
  moreover have "read_chunk lib m (Some (length xs)) (p' @ q @ rest) = (Chunk xs, None, rest)"
    using read_chunk_body [OF len(1), of rest] by (simp add: p'(2))
  ultimately show ?thesis by blast
qed

lemma frame_length: "xs \<noteq> [] \<Longrightarrow> 2 \<le> length (frame xs)"
  using compressed_header [of xs] by (simp add: frame_def)

text \<open>What the outbound codec makes of a complete payload, by response code.\<close>

definition decoded :: "protocol \<Rightarrow> u8 \<Rightarrow> u8 list \<Rightarrow> rpc_error + rpc_coded_response option" where
  "decoded p code xs =
     (if is_response code then map_sum id (map_option Success) (response_of_buffer p xs)
      else Inr (Some (from_error code (from_bytes (from_utf8_lossy xs)))))"

lemma base_decode_chunk:
  assumes "read_chunk lib (oc_max_packet_size inner) (oc_len inner) src = (Chunk xs, None, rest)"
    and "decoded (message_name (oc_protocol inner)) code xs = Inr (Some r)"
    and "2 \<le> length src"
  shows "base_outbound_decode lib \<lparr> bo_inner = inner, current_response_code = Some code \<rparr> src =
           (Inr (Some r), \<lparr> bo_inner = inner\<lparr> oc_len := None \<rparr>, current_response_code = None \<rparr>, rest)"
  using assms
  by (auto simp: base_outbound_decode_def snappy_outbound_decode_def snappy_decode_error_def decoded_def)

lemma base_decode_code:
  assumes "src \<noteq> []"
  shows "base_outbound_decode lib \<lparr> bo_inner = inner, current_response_code = None \<rparr> (code # src) =
     (let (res, len', src') = read_chunk lib (oc_max_packet_size inner) (oc_len inner) src;
          r = (case res of ChunkErr err \<Rightarrow> Inl err | ChunkMore \<Rightarrow> Inr None
               | Chunk xs \<Rightarrow> decoded (message_name (oc_protocol inner)) code xs)
      in (r, \<lparr> bo_inner = inner\<lparr> oc_len := len' \<rparr>,
               current_response_code = (case r of Inr (Some _) \<Rightarrow> None | _ \<Rightarrow> Some code) \<rparr>, src'))"
  using assms
  by (cases src)
    (auto simp: base_outbound_decode_def snappy_outbound_decode_def snappy_decode_error_def decoded_def Let_def
      split: prod.splits chunk_result.splits)

end

section \<open>Libraries that satisfy the contract\<close>

text \<open>The varint format (seven bits to a byte, least significant first), and a Snappy stream of
  uncompressed data behind the stream identifier.\<close>

fun leb_encode :: "nat \<Rightarrow> u8 list" where
  "leb_encode n = (if n < 128 then [word_of_nat n] else word_of_nat (n mod 128 + 128) # leb_encode (n div 128))"

declare leb_encode.simps [simp del]

fun leb_decode :: "u8 list \<Rightarrow> (nat \<times> nat) option" where
  "leb_decode [] = None"
| "leb_decode (b # bs) =
     (if unat b < 128 then Some (unat b, 1)
      else map_option (\<lambda>(n, c). (unat b - 128 + 128 * n, Suc c)) (leb_decode bs))"

definition snappy_identifier :: "u8 list" where
  "snappy_identifier = [0xff, 0x06, 0x00, 0x00, 0x73, 0x4e, 0x61, 0x50, 0x70, 0x59]"

definition stored_stream :: "u8 list \<Rightarrow> u8 list" where
  "stored_stream xs = (if xs = [] then [] else snappy_identifier @ xs)"

definition stored_read :: "nat \<Rightarrow> u8 list \<Rightarrow> read_result" where
  "stored_read n src =
     (if n = 0 then ReadOk [] 0
      else if length src < 10 + n then ReadEof
      else if take 10 src \<noteq> snappy_identifier then ReadErr ''stream identifier''
      else ReadOk (take n (drop 10 src)) (10 + n))"

definition ref_lib :: codec_lib where
  "ref_lib = \<lparr> uvi_encode = (\<lambda>n. Inr (leb_encode n)), uvi_decode = (\<lambda>src. Inr (leb_decode src)),
               snap_encode = (\<lambda>xs. Inr (stored_stream xs)), snap_read_exact = stored_read \<rparr>"

lemma unat_leb_byte: "unat (word_of_nat (n mod 128 + 128) :: u8) = n mod 128 + 128"
proof -
  have "n mod 128 < 128" by simp
  then show ?thesis by (simp add: unat_of_nat del: of_nat_add)
qed

lemma leb_decode_encode: "leb_decode (leb_encode n @ rest) = Some (n, length (leb_encode n))"
proof (induction n rule: leb_encode.induct)
  case (1 n)
  show ?case
  proof (cases "n < 128")
    case True
    then show ?thesis by (simp add: leb_encode.simps [of n] unat_of_nat)
  next
    case False
    with 1 show ?thesis
      by (simp add: leb_encode.simps [of n] unat_leb_byte del: of_nat_add)
  qed
qed

lemma leb_decode_short: "strict_prefix p (leb_encode n) \<Longrightarrow> leb_decode p = None"
proof (induction n arbitrary: p rule: leb_encode.induct)
  case (1 n)
  show ?case
  proof (cases p)
    case (Cons b p')
    with 1(2) have "\<not> n < 128" by (auto simp: leb_encode.simps [of n])
    with 1 Cons show ?thesis
      by (auto simp: leb_encode.simps [of n] unat_leb_byte simp del: of_nat_add)
  qed simp
qed

lemma stored_read_ok: "stored_read (length xs) (stored_stream xs @ rest) = ReadOk xs (length (stored_stream xs))"
  by (simp add: stored_read_def stored_stream_def snappy_identifier_def)

lemma stored_read_short: "strict_prefix p (stored_stream xs) \<Longrightarrow> stored_read (length xs) p = ReadEof"
  by (drule prefix_length_less) (auto simp: stored_read_def stored_stream_def snappy_identifier_def split: if_splits)

lemma stored_stream_empty: "stored_stream [] = []"
  by (simp add: stored_stream_def)

lemma stored_stream_header: "xs \<noteq> [] \<Longrightarrow> 10 \<le> length (stored_stream xs)"
  by (simp add: stored_stream_def snappy_identifier_def)

lemma leb_encode_nonempty: "leb_encode n \<noteq> []"
  by (subst leb_encode.simps) simp

interpretation ref: frame_codec ref_lib leb_encode stored_stream
  by unfold_locales
    (auto simp: ref_lib_def leb_decode_encode leb_decode_short stored_read_ok stored_read_short
      leb_encode_nonempty stored_stream_empty stored_stream_header)

section \<open>Properties\<close>

lemma MAX_RPC_SIZE_usize: "n \<le> MAX_RPC_SIZE \<Longrightarrow> n < 2 ^ 64"
  by (simp add: MAX_RPC_SIZE_def)

context frame_codec
begin

lemma base_decode_frame:
  assumes "length xs \<le> oc_max_packet_size inner" "length xs < 2 ^ 64" "oc_len inner = None"
    and "decoded (message_name (oc_protocol inner)) code xs = Inr (Some r)"
  shows "base_outbound_decode lib \<lparr> bo_inner = inner, current_response_code = None \<rparr> (code # frame xs @ rest) =
           (Inr (Some r), \<lparr> bo_inner = inner, current_response_code = None \<rparr>, rest)"
proof -
  have "frame xs @ rest \<noteq> []" using varint_nonempty by (simp add: frame_def)
  moreover have "inner\<lparr> oc_len := None \<rparr> = inner" using assms(3) by simp
  ultimately show ?thesis
    using assms read_chunk_frame [OF assms(1,2), of rest]
    by (simp add: base_decode_code)
qed

text \<open>A coded response that arrives in two pieces.\<close>

lemma base_decode_split:
  assumes len: "length xs \<le> oc_max_packet_size inner" "length xs < 2 ^ 64" "oc_len inner = None"
    and dec: "decoded (message_name (oc_protocol inner)) code xs = Inr (Some r)"
    and pq: "p @ q = code # frame xs" "q \<noteq> []"
  defines "c0 \<equiv> \<lparr> bo_inner = inner, current_response_code = None \<rparr>"
  shows "\<exists>c b. base_outbound_decode lib c0 p = (Inr None, c, b) \<and>
               base_outbound_decode lib c (b @ q @ rest) = (Inr (Some r), c0, rest)"
proof (cases "length p \<le> 1")
  case True
  then have "base_outbound_decode lib c0 p = (Inr None, c0, p)" by (simp add: base_outbound_decode_def)
  moreover have "base_outbound_decode lib c0 (p @ q @ rest) = (Inr (Some r), c0, rest)"
    using base_decode_frame [OF len dec, of rest] pq(1) by (simp add: c0_def flip: append_assoc)
  ultimately show ?thesis by blast
next
  case False
  then obtain p' where p: "p = code # p'" "p' \<noteq> []" using pq(1) by (cases p) (auto split: if_splits)
  with pq(1) have "p' @ q = frame xs" by simp
  from read_chunk_split [OF len(1,2) this pq(2), of rest] p(2)
  obtain l b where rc: "read_chunk lib (oc_max_packet_size inner) None p' = (ChunkMore, l, b)"
    and rest: "read_chunk lib (oc_max_packet_size inner) l (b @ q @ rest) = (Chunk xs, None, rest)"
    and len2: "2 \<le> length (b @ q)" by blast
  let ?inner = "inner\<lparr> oc_len := l \<rparr>"
  let ?c = "\<lparr> bo_inner = ?inner, current_response_code = Some code \<rparr>"
  have "base_outbound_decode lib c0 p = (Inr None, ?c, b)"
    using p len(3) rc by (simp add: c0_def base_decode_code)
  moreover have "base_outbound_decode lib ?c (b @ q @ rest) = (Inr (Some r), c0, rest)"
    using base_decode_chunk [of ?inner "b @ q @ rest" xs rest code r] rest dec len2 len(3)
    by (simp add: c0_def)
  ultimately show ?thesis by blast
qed

lemma decoded_success:
  "coded_payload (Success resp) \<noteq> [] \<Longrightarrow>
   decoded (response_protocol resp) 0 (coded_payload (Success resp)) = Inr (Some (Success resp))"
  by (simp add: decoded_def is_response_def response_of_own_buffer)

lemma decoded_error:
  "is_error r \<Longrightarrow> utf8_valid (coded_payload r) \<Longrightarrow> as_u8 r = Some code \<Longrightarrow>
   decoded p code (coded_payload r) = Inr (Some r)"
  using response_code_roundtrip_aux [of r] by (auto simp: decoded_def from_utf8_lossy_valid)

end

text \<open>C6. A request within the size limit on the wire. With a non-empty payload, encoded by the sender's
  codec, it is decoded by the receiver's codec for that protocol to the same request; with an empty one
  (a goodbye of the behaviour is such a request) it is sent, and refused as invalid data by the receiver. In both
  cases exactly the bytes of the message are consumed and the receiver's codec is ready for the next
  message. A request for meta data has no payload: nothing is written for it.\<close>

theorem request_wire_roundtrip:
  assumes "frame_codec lib varint compressed" and "length (request_payload req) \<le> MAX_RPC_SIZE"
    and "pid = protocol_id_new (req_protocol req) V1 Snappy"
  shows "if req = MetaDataRequest then outbound_encode lib (outbound_codec_for pid) req dst = (Inr (), dst)
         else \<exists>w. outbound_encode lib (outbound_codec_for pid) req [] = (Inr (), w) \<and>
                inbound_decode lib (inbound_codec_for pid) (w @ rest) =
                  (if request_payload req = [] then Inl InvalidData else Inr (Some req), inbound_codec_for pid, rest)"
proof (cases "req = MetaDataRequest")
  case True
  then show ?thesis
    by (simp add: outbound_codec_for_def assms(3) protocol_id_new_def base_outbound_encode_def base_outbound_new_def
        snappy_outbound_new_def snappy_outbound_encode_def)
next
  case False
  note len = assms(2) MAX_RPC_SIZE_usize [OF assms(2)]
  from False show ?thesis
    using frame_codec.encode_payload_ok [OF assms(1) len, of "[]"]
      frame_codec.read_chunk_frame [OF assms(1) len, of rest] request_of_sent_buffer [OF False]
    by (simp add: outbound_codec_for_def inbound_codec_for_def assms(3) protocol_id_new_def
        base_outbound_encode_def base_outbound_new_def snappy_outbound_new_def snappy_outbound_encode_payload
        base_inbound_decode_def snappy_inbound_decode_def snappy_inbound_new_def)
qed

theorem request_wire_roundtrip_witness:
  "\<exists>w. outbound_encode ref_lib (outbound_codec_for (protocol_id_new PPing V1 Snappy)) (PingRequest [7, 8]) [] = (Inr (), w) \<and>
       inbound_decode ref_lib (inbound_codec_for (protocol_id_new PPing V1 Snappy)) (w @ [1]) =
         (Inr (Some (PingRequest [7, 8])), inbound_codec_for (protocol_id_new PPing V1 Snappy), [1])"
  using request_wire_roundtrip [OF ref.frame_codec_axioms, of "PingRequest [7, 8]" _ _ "[1]"]
  by (simp add: MAX_RPC_SIZE_def)

text \<open>C7. A response survives any fragmentation: a success response of the protocol with a
  non-empty payload, or an error response with a UTF-8 message, within the size limit, cut at any point into two pieces,
  first makes the receiver ask for more bytes, without an error, and then decodes to the same
  response, with nothing left over of it and the codec ready for the next one.\<close>

theorem response_wire_fragmentation:
  assumes "frame_codec lib varint compressed"
    and "length (coded_payload r) \<le> MAX_RPC_SIZE"
    and "(\<exists>resp. r = Success resp \<and> response_protocol resp = p \<and> coded_payload r \<noteq> []) \<or>
         (is_error r \<and> utf8_valid (coded_payload r))"
    and "pid = protocol_id_new p V1 Snappy"
  shows "\<exists>w. inbound_encode lib (inbound_codec_for pid) r dst = Some (Inr (), w) \<and>
             (\<forall>a b. a @ b = w \<and> b \<noteq> [] \<longrightarrow>
                (\<exists>c buf. outbound_decode lib (outbound_codec_for pid) a = (Inr None, c, buf) \<and>
                   outbound_decode lib c (buf @ b @ rest) = (Inr (Some r), outbound_codec_for pid, rest)))"
proof -
  let ?xs = "coded_payload r" and ?inner = "snappy_outbound_new pid MAX_RPC_SIZE"
  note len = assms(2) MAX_RPC_SIZE_usize [OF assms(2)]
  obtain code where code: "as_u8 r = Some code" using as_u8_total by blast
  have dec: "frame_codec.decoded p code ?xs = Inr (Some r)"
    using assms(3) code frame_codec.decoded_success [OF assms(1)] frame_codec.decoded_error [OF assms(1)] by auto
  let ?w = "code # frame_codec.frame varint compressed ?xs"
  have "inbound_encode lib (inbound_codec_for pid) r dst = Some (Inr (), ?w)"
    using frame_codec.encode_payload_ok [OF assms(1) len] code
    by (simp add: inbound_codec_for_def assms(4) protocol_id_new_def base_inbound_encode_def
        snappy_inbound_encode_payload snappy_inbound_new_def)
  moreover have "\<exists>c buf. outbound_decode lib (outbound_codec_for pid) a = (Inr None, c, buf) \<and>
        outbound_decode lib c (buf @ b @ rest) = (Inr (Some r), outbound_codec_for pid, rest)"
    if "a @ b = ?w" "b \<noteq> []" for a b
  proof -
    from frame_codec.base_decode_split [OF assms(1), of ?xs ?inner code r a b rest] len dec that
    obtain c buf where "base_outbound_decode lib (base_outbound_new ?inner) a = (Inr None, c, buf)"
      "base_outbound_decode lib c (buf @ b @ rest) = (Inr (Some r), base_outbound_new ?inner, rest)"
      by (auto simp: snappy_outbound_new_def base_outbound_new_def assms(4) protocol_id_new_def)
    then show ?thesis
      by (auto simp: outbound_codec_for_def assms(4) protocol_id_new_def intro!: exI [of _ "OutboundSnappy c"])
  qed
  ultimately show ?thesis by blast
qed

theorem response_wire_fragmentation_witness:
  "\<exists>w. inbound_encode ref_lib (inbound_codec_for (protocol_id_new PPing V1 Snappy)) (Success (Pong [9])) [] = Some (Inr (), w) \<and>
       (\<forall>a b. a @ b = w \<and> b \<noteq> [] \<longrightarrow>
          (\<exists>c buf. outbound_decode ref_lib (outbound_codec_for (protocol_id_new PPing V1 Snappy)) a = (Inr None, c, buf) \<and>
             outbound_decode ref_lib c (buf @ b @ [0]) =
               (Inr (Some (Success (Pong [9]))), outbound_codec_for (protocol_id_new PPing V1 Snappy), [0])))"
  by (rule response_wire_fragmentation [OF ref.frame_codec_axioms]) (auto simp: MAX_RPC_SIZE_def)

text \<open>C33. Messages over the size limit are refused at both ends. The sender's codec refuses to
  encode such a request and writes nothing. A receiver that reads a length prefix over the limit
  answers \<open>InvalidData\<close> before it allocates or decompresses anything, and the codec never decodes
  anything again: whatever arrives later is answered with \<open>InvalidData\<close>.\<close>

theorem oversize_message_refused:
  assumes "frame_codec lib varint compressed"
    and "n > MAX_RPC_SIZE" and "n < 2 ^ 64" and "pid = protocol_id_new p V1 Snappy"
  shows "(\<exists>c. inbound_decode lib (inbound_codec_for pid) (varint n @ rest) = (Inl InvalidData, c, rest) \<and>
             (\<forall>src. inbound_decode lib c src = (Inl InvalidData, c, src))) \<and>
         (\<exists>c. outbound_decode lib (outbound_codec_for pid) (code # varint n @ rest) = (Inl InvalidData, c, rest) \<and>
             (\<forall>src. 1 < length src \<longrightarrow> outbound_decode lib c src = (Inl InvalidData, c, src))) \<and>
         (\<forall>req dst. length (request_payload req) = n \<longrightarrow>
             outbound_encode lib (outbound_codec_for pid) req dst =
               (Inl (InternalError ''attempting to encode data > max_packet_size''), dst))"
proof (intro conjI allI impI)
  have dec: "uvi_decode lib (varint n @ rest) = Inr (Some (n, length (varint n)))"
    by (rule frame_codec.uvi_decode_law [OF assms(1,3)])
  then show "\<exists>c. inbound_decode lib (inbound_codec_for pid) (varint n @ rest) = (Inl InvalidData, c, rest) \<and>
             (\<forall>src. inbound_decode lib c src = (Inl InvalidData, c, src))"
    using assms(2,4)
    by (auto simp: inbound_codec_for_def protocol_id_new_def base_inbound_decode_def snappy_inbound_decode_def
        snappy_inbound_new_def read_chunk_def)
  have "varint n @ rest \<noteq> []" using frame_codec.varint_nonempty [OF assms(1)] by simp
  with dec show "\<exists>c. outbound_decode lib (outbound_codec_for pid) (code # varint n @ rest) = (Inl InvalidData, c, rest) \<and>
             (\<forall>src. 1 < length src \<longrightarrow> outbound_decode lib c src = (Inl InvalidData, c, src))"
    using assms(2,4)
    by (auto simp: outbound_codec_for_def protocol_id_new_def base_outbound_new_def base_outbound_decode_def
        snappy_outbound_decode_def snappy_decode_error_def snappy_outbound_new_def read_chunk_def)
  fix req dst
  assume req: "length (request_payload req) = n"
  with assms(2) have "req \<noteq> MetaDataRequest" by auto
  with req assms(2,4) show "outbound_encode lib (outbound_codec_for pid) req dst =
             (Inl (InternalError ''attempting to encode data > max_packet_size''), dst)"
    by (simp add: outbound_codec_for_def protocol_id_new_def base_outbound_new_def base_outbound_encode_def
        snappy_outbound_encode_payload snappy_outbound_new_def encode_payload_def)
qed

theorem oversize_message_refused_witness:
  "\<exists>c. inbound_decode ref_lib (inbound_codec_for (protocol_id_new PStatus V1 Snappy)) (leb_encode 1048577 @ [1]) =
         (Inl InvalidData, c, [1]) \<and>
       (\<forall>src. inbound_decode ref_lib c src = (Inl InvalidData, c, src))"
  using oversize_message_refused [OF ref.frame_codec_axioms, of 1048577 _ PStatus "[1]"]
  by (simp add: MAX_RPC_SIZE_def)

text \<open>A goodbye without a reason cannot be received. The sender's codec accepts
  \<open>RPCRequest::Goodbye(vec![])\<close> and writes a single length prefix, and the receiver's codec answers
  these bytes with \<open>InvalidData\<close>.\<close>

theorem empty_goodbye_undecodable:
  assumes "frame_codec lib varint compressed"
    and "pid = protocol_id_new PGoodbye V1 Snappy"
  shows "outbound_encode lib (outbound_codec_for pid) (GoodbyeRequest []) [] = (Inr (), varint 0) \<and>
         inbound_decode lib (inbound_codec_for pid) (varint 0 @ rest) = (Inl InvalidData, inbound_codec_for pid, rest)"
  using frame_codec.encode_payload_ok [OF assms(1), of "[]" MAX_RPC_SIZE "[]"]
    frame_codec.read_chunk_frame [OF assms(1), of "[]" MAX_RPC_SIZE rest] frame_codec.compressed_empty [OF assms(1)]
  by (simp add: outbound_codec_for_def inbound_codec_for_def assms(2) protocol_id_new_def
      base_outbound_encode_def base_outbound_new_def snappy_outbound_new_def snappy_outbound_encode_payload
      base_inbound_decode_def snappy_inbound_decode_def snappy_inbound_new_def request_of_buffer_def
      frame_codec.frame_def [OF assms(1)])

theorem empty_goodbye_undecodable_witness:
  "inbound_decode ref_lib (inbound_codec_for (protocol_id_new PGoodbye V1 Snappy)) (leb_encode 0 @ []) =
     (Inl InvalidData, inbound_codec_for (protocol_id_new PGoodbye V1 Snappy), [])"
  using empty_goodbye_undecodable [OF ref.frame_codec_axioms refl, of "[]"] by simp

section \<open>Decoded messages have the type of their protocol\<close>

text \<open>The framed stream calls the decoder again and again on whatever is in its buffer.\<close>

definition inbound_read :: "codec_lib \<Rightarrow> u8 list \<Rightarrow> inbound_codec \<Rightarrow> ((rpc_error + rpc_request option) \<times> inbound_codec) option" where
  "inbound_read lib src c = (case inbound_decode lib c src of (r, c', _) \<Rightarrow> Some (r, c'))"

definition outbound_read :: "codec_lib \<Rightarrow> u8 list \<Rightarrow> outbound_codec \<Rightarrow> ((rpc_error + rpc_coded_response option) \<times> outbound_codec) option" where
  "outbound_read lib src c = (case outbound_decode lib c src of (r, c', _) \<Rightarrow> Some (r, c'))"

fun typed_request :: "protocol \<Rightarrow> rpc_error + rpc_request option \<Rightarrow> bool" where
  "typed_request p (Inr (Some req)) \<longleftrightarrow> req_protocol req = p \<and> (p = PMetaData \<longleftrightarrow> request_payload req = [])"
| "typed_request p _ = True"

fun typed_response :: "protocol \<Rightarrow> rpc_error + rpc_coded_response option \<Rightarrow> bool" where
  "typed_response p (Inr (Some (Success res))) \<longleftrightarrow> response_protocol res = p"
| "typed_response p _ = True"

definition inbound_codec_protocol :: "inbound_codec \<Rightarrow> protocol" where
  "inbound_codec_protocol c = (case c of InboundSnappy c' \<Rightarrow> message_name (ic_protocol c'))"

definition outbound_codec_protocol :: "outbound_codec \<Rightarrow> protocol" where
  "outbound_codec_protocol c = (case c of OutboundSnappy c' \<Rightarrow> message_name (oc_protocol (bo_inner c')))"

lemma request_of_buffer_typed: "typed_request p (request_of_buffer p buffer)"
  by (cases p) (simp_all add: request_of_buffer_def)

lemma response_of_buffer_typed: "typed_response p (map_sum id (map_option Success) (response_of_buffer p buffer))"
  by (cases p) (simp_all add: response_of_buffer_def)

lemma from_error_typed: "typed_response p (Inr (Some (from_error code err)))"
  by (simp add: from_error_def)

lemma inbound_read_typed:
  "inbound_read lib src c = Some (r, c') \<Longrightarrow> typed_request (inbound_codec_protocol c) r \<and> inbound_codec_protocol c' = inbound_codec_protocol c"
  by (cases c) (auto simp: inbound_read_def inbound_codec_protocol_def base_inbound_decode_def snappy_inbound_decode_def request_of_buffer_typed
      split: prod.splits chunk_result.splits)

lemma outbound_read_typed:
  "outbound_read lib src c = Some (r, c') \<Longrightarrow> typed_response (outbound_codec_protocol c) r \<and> outbound_codec_protocol c' = outbound_codec_protocol c"
  by (cases c) (auto simp: outbound_read_def outbound_codec_protocol_def base_outbound_decode_def snappy_outbound_decode_def snappy_decode_error_def
      response_of_buffer_typed from_error_typed Let_def split: prod.splits chunk_result.splits if_splits option.splits)

lemma inbound_reads_typed:
  "run_calls (inbound_read lib) srcs c = Some (rs, c') \<Longrightarrow> list_all (typed_request (inbound_codec_protocol c)) rs"
  by (induction srcs arbitrary: c rs) (auto split: option.splits, (metis inbound_read_typed)+)

lemma outbound_reads_typed:
  "run_calls (outbound_read lib) srcs c = Some (rs, c') \<Longrightarrow> list_all (typed_response (outbound_codec_protocol c)) rs"
  by (induction srcs arbitrary: c rs) (auto split: option.splits, (metis outbound_read_typed)+)

text \<open>C12. Decoded messages have the type that was negotiated: whatever bytes arrive, in however many pieces,
  a codec for a protocol decodes only requests of this protocol, with a payload exactly when it is not
  the meta data protocol, and only responses of this protocol, so none for the goodbye protocol.\<close>

theorem decoded_messages_typed:
  assumes "run_calls (inbound_read lib) srcs1 (inbound_codec_for pid) = Some (rs1, c1)"
    and "run_calls (outbound_read lib) srcs2 (outbound_codec_for pid) = Some (rs2, c2)"
  shows "list_all (typed_request (message_name pid)) rs1 \<and> list_all (typed_response (message_name pid)) rs2"
proof -
  have "inbound_codec_protocol (inbound_codec_for pid) = message_name pid" "outbound_codec_protocol (outbound_codec_for pid) = message_name pid"
    by (simp_all add: inbound_codec_protocol_def outbound_codec_protocol_def inbound_codec_for_def outbound_codec_for_def
        snappy_inbound_new_def snappy_outbound_new_def base_outbound_new_def split: encoding.splits)
  with inbound_reads_typed [OF assms(1)] outbound_reads_typed [OF assms(2)] show ?thesis by simp
qed

theorem decoded_messages_typed_witness:
  "\<exists>rs1 c1. run_calls (inbound_read ref_lib) [[], leb_encode 0, [1]] (inbound_codec_for (protocol_id_new PMetaData V1 Snappy)) = Some (rs1, c1) \<and>
     list_all (typed_request PMetaData) rs1"
proof -
  let ?pid = "protocol_id_new PMetaData V1 Snappy"
  obtain rs1 c1 where 1: "run_calls (inbound_read ref_lib) [[], leb_encode 0, [1]] (inbound_codec_for ?pid) = Some (rs1, c1)"
    by (force simp: inbound_read_def split: prod.splits)
  have 2: "run_calls (outbound_read ref_lib) [] (outbound_codec_for ?pid) = Some ([], outbound_codec_for ?pid)" by simp
  from decoded_messages_typed [OF 1 2] 1 show ?thesis by (simp add: protocol_id_new_def)
qed

end
