(* ===== verification/Peer_Info.thy ===== *)
theory Peer_Info
  imports Rpc_Methods
begin

text \<open>
  What is known about one peer: \<open>core/network/src/peer_manager/client.rs\<close> (the client behind an
  agent string) and \<open>peer_info.rs\<close> (\<open>PeerInfo\<close> and its connection status). Addresses and the
  identify message are data of libp2p: lists of protocol components, and a record with the fields
  that the code reads.
\<close>

section \<open>Addresses\<close>

datatype addr_part =
    Ip4 u32 | Ip6 "128 word" | Tcp u16 | Udp u16 | P2p peer_id | OtherPart string

type_synonym multiaddr = "addr_part list"

record identify_info =
  agent_version :: string
  identify_protocol_version :: string
  listen_addrs :: "multiaddr list"

section \<open>client.rs\<close>

datatype client_kind = KnownClient string | UnknownClient

record client =
  kind :: client_kind
  client_version :: string
  os_version :: string
  client_protocol_version :: string
  agent_string :: "string option"

definition client_default :: client where
  "client_default =
     \<lparr> kind = UnknownClient, client_version = ''unknown'', os_version = ''unknown'',
       client_protocol_version = ''unknown'', agent_string = None \<rparr>"

text \<open>The iterator \<open>agent_version.split('/')\<close>, read with \<open>next\<close> up to three times.\<close>

definition client_from_agent_version :: "string \<Rightarrow> client_kind \<times> string \<times> string" where
  "client_from_agent_version agent =
     (case split_on CHR ''/'' agent of
        k # agent_split \<Rightarrow>
          if k = ''github.com'' then (KnownClient k, ''unknown'', ''unknown'')
          else (case agent_split of
                  [] \<Rightarrow> (KnownClient k, ''unknown'', ''unknown'')
                | [v] \<Rightarrow> (KnownClient k, v, ''unknown'')
                | v # os # _ \<Rightarrow> (KnownClient k, v, os))
      | [] \<Rightarrow> (UnknownClient, ''unknown'', ''unknown''))"

definition client_from_identify_info :: "identify_info \<Rightarrow> client" where
  "client_from_identify_info info =
     (let (k, v, os) = client_from_agent_version (agent_version info) in
      \<lparr> kind = k, client_version = v, os_version = os,
        client_protocol_version = identify_protocol_version info,
        agent_string = Some (agent_version info) \<rparr>)"

section \<open>peer\_info.rs\<close>

datatype peer_status = Healthy | Clogged

datatype peer_connection_status =
    Connected (n_in: u8) (n_out: u8)
  | Disconnected (since: instant)
  | Banned (since: instant)
  | Dialing (since: instant)
  | UnknownStatus

definition status_default :: peer_connection_status where
  "status_default = UnknownStatus"

fun status_is_connected :: "peer_connection_status \<Rightarrow> bool" where
  "status_is_connected (Connected _ _) = True"
| "status_is_connected _ = False"

fun status_is_dialing :: "peer_connection_status \<Rightarrow> bool" where
  "status_is_dialing (Dialing _) = True"
| "status_is_dialing _ = False"

fun status_is_banned :: "peer_connection_status \<Rightarrow> bool" where
  "status_is_banned (Banned _) = True"
| "status_is_banned _ = False"

fun status_is_disconnected :: "peer_connection_status \<Rightarrow> bool" where
  "status_is_disconnected (Disconnected _) = True"
| "status_is_disconnected _ = False"

text \<open>The counters are \<open>u8\<close> and are incremented with \<open>+= 1\<close>.\<close>

fun status_connect_ingoing :: "env \<Rightarrow> peer_connection_status \<Rightarrow> peer_connection_status option" where
  "status_connect_ingoing e (Connected i out) = map_option (\<lambda>i'. Connected i' out) (rust_add e i 1)"
| "status_connect_ingoing e _ = Some (Connected 1 0)"

fun status_connect_outgoing :: "env \<Rightarrow> peer_connection_status \<Rightarrow> peer_connection_status option" where
  "status_connect_outgoing e (Connected i out) = map_option (\<lambda>out'. Connected i out') (rust_add e out 1)"
| "status_connect_outgoing e _ = Some (Connected 0 1)"

definition status_disconnect :: "env \<Rightarrow> peer_connection_status \<Rightarrow> peer_connection_status" where
  "status_disconnect e s = Disconnected (now e)"

definition status_ban :: "env \<Rightarrow> peer_connection_status \<Rightarrow> peer_connection_status" where
  "status_ban e s = Banned (now e)"

fun connections :: "peer_connection_status \<Rightarrow> u8 \<times> u8" where
  "connections (Connected i out) = (i, out)"
| "connections _ = (0, 0)"

text \<open>The serialization for the HTTP API: the index and name of the variant and its fields, with the
  time elapsed in whole seconds (\<open>since.elapsed()\<close>, which panics on a clock that went backwards).\<close>

definition elapsed_secs :: "env \<Rightarrow> instant \<Rightarrow> nat option" where
  "elapsed_secs e t = (if t \<le> now e then Some ((now e - t) div 1000) else None)"

fun serialize_status :: "env \<Rightarrow> peer_connection_status \<Rightarrow> (nat \<times> string \<times> (string \<times> nat) list) option" where
  "serialize_status e (Connected i out) =
     Some (0, ''Connected'', [(''in'', unat i), (''out'', unat out)])"
| "serialize_status e (Disconnected t) =
     map_option (\<lambda>s. (1, ''Disconnected'', [(''since'', s)])) (elapsed_secs e t)"
| "serialize_status e (Banned t) =
     map_option (\<lambda>s. (2, ''Banned'', [(''since'', s)])) (elapsed_secs e t)"
| "serialize_status e (Dialing t) =
     map_option (\<lambda>s. (3, ''Dialing'', [(''since'', s)])) (elapsed_secs e t)"
| "serialize_status e UnknownStatus = Some (4, ''Unknown'', [])"

type_synonym rep = u8

definition DEFAULT_REPUTATION :: rep where
  "DEFAULT_REPUTATION = 50"

record peer_info =
  status :: peer_status
  reputation :: rep
  peer_client :: client
  connection_status :: peer_connection_status
  listening_addresses :: "multiaddr list"
  peer_meta_data :: "meta_data option"
  min_ttl :: "instant option"

definition peer_info_default :: peer_info where
  "peer_info_default =
     \<lparr> status = Healthy, reputation = DEFAULT_REPUTATION, peer_client = client_default,
       connection_status = status_default, listening_addresses = [], peer_meta_data = None, min_ttl = None \<rparr>"

text \<open>The subnet test is a stub in the source: it answers \<open>false\<close> with and without meta data.\<close>

definition on_subnet :: "peer_info \<Rightarrow> subnet_id \<Rightarrow> bool" where
  "on_subnet info subnet_id = (case peer_meta_data info of Some _ \<Rightarrow> False | None \<Rightarrow> False)"

section \<open>Lemmas\<close>

lemma on_subnet_False [simp]: "\<not> on_subnet info s"
  by (simp add: on_subnet_def split: option.splits)

lemma status_exclusive [peerdb_simps]:
  "status_is_disconnected s \<Longrightarrow> \<not> status_is_connected s"
  "status_is_disconnected s \<Longrightarrow> \<not> status_is_banned s"
  "status_is_banned s \<Longrightarrow> \<not> status_is_disconnected s"
  by (cases s; simp)+

lemma status_connect_connected:
  "status_connect_ingoing e s = Some s' \<Longrightarrow> status_is_connected s'"
  "status_connect_outgoing e s = Some s' \<Longrightarrow> status_is_connected s'"
  by (cases s; auto simp: rust_add_def split: if_splits)+

lemma status_is_connected_not_disconnected [simp]:
  "status_is_connected s \<Longrightarrow> \<not> status_is_disconnected s"
  by (cases s) auto

lemma rust_add_unchecked: "\<not> overflow_checks e \<Longrightarrow> rust_add e a b = Some (a + b)"
  by (simp add: rust_add_def)

lemma status_connect_unchecked:
  "\<not> overflow_checks e \<Longrightarrow> \<exists>s'. status_connect_ingoing e s = Some s'"
  "\<not> overflow_checks e \<Longrightarrow> \<exists>s'. status_connect_outgoing e s = Some s'"
  by (cases s; simp add: rust_add_unchecked)+

lemma rust_add_1_bound: "unat (a :: u8) < 255 \<Longrightarrow> \<exists>b. rust_add e a 1 = Some b \<and> unat b = Suc (unat a)"
  by (simp add: rust_add_def unat_word_ariths)

section \<open>Properties\<close>

lemma client_from_pieces_aux:
  assumes "CHR ''/'' \<notin> set k" "CHR ''/'' \<notin> set v" "CHR ''/'' \<notin> set os" "k \<noteq> ''github.com''"
  shows "client_from_agent_version (k @ ''/'' @ v @ ''/'' @ os @ rest) =
           (KnownClient k, v, os @ takeWhile (\<lambda>c. c \<noteq> CHR ''/'') rest)"
proof -
  have "split_on CHR ''/'' (xs @ ys) =
          (xs @ hd (split_on CHR ''/'' ys)) # tl (split_on CHR ''/'' ys)"
    if "CHR ''/'' \<notin> set xs" for xs ys
    using that by (induction xs) (auto split: list.splits)
  moreover have "hd (split_on CHR ''/'' ys) = takeWhile (\<lambda>c. c \<noteq> CHR ''/'') ys" for ys
    by (induction ys) (auto split: list.splits)
  ultimately show ?thesis
    using assms by (simp add: client_from_agent_version_def split_on_append)
qed

text \<open>The client behind an agent string: for a string of the form kind/version/os, possibly
  followed by more, the three pieces are recognised, each up to the next slash and none losing a
  character; \<open>github.com\<close> agents are known by name only; and no agent string, the empty one
  included, ever gives an unknown kind.\<close>

theorem client_from_agent_version_correct:
  assumes "CHR ''/'' \<notin> set k" "CHR ''/'' \<notin> set v" "CHR ''/'' \<notin> set os" "k \<noteq> ''github.com''"
    and "rest = [] \<or> hd rest = CHR ''/''"
  shows "client_from_agent_version (k @ ''/'' @ v @ ''/'' @ os @ rest) = (KnownClient k, v, os) \<and>
         client_from_agent_version (k @ ''/'' @ v) = (KnownClient k, v, ''unknown'') \<and>
         client_from_agent_version k = (KnownClient k, ''unknown'', ''unknown'') \<and>
         client_from_agent_version (''github.com'' @ rest) = (KnownClient ''github.com'', ''unknown'', ''unknown'') \<and>
         (\<forall>s. fst (client_from_agent_version s) \<noteq> UnknownClient)"
proof (intro conjI allI)
  show "client_from_agent_version (k @ ''/'' @ v @ ''/'' @ os @ rest) = (KnownClient k, v, os)"
    using client_from_pieces_aux [OF assms(1-4), of rest] assms(5) by (cases rest) auto
  show "client_from_agent_version (k @ ''/'' @ v) = (KnownClient k, v, ''unknown'')"
    and "client_from_agent_version k = (KnownClient k, ''unknown'', ''unknown'')"
    using assms by (simp_all add: client_from_agent_version_def split_on_append split_on_no_sep)
  show "client_from_agent_version (''github.com'' @ rest) = (KnownClient ''github.com'', ''unknown'', ''unknown'')"
    using assms(5) by (cases rest) (auto simp: client_from_agent_version_def)
  show "fst (client_from_agent_version s) \<noteq> UnknownClient" for s
    by (cases "split_on CHR ''/'' s")
      (auto simp: client_from_agent_version_def dest!: arg_cong [where f = "\<lambda>x. x = []"] split: list.splits)
qed

theorem client_from_agent_version_correct_witness:
  "client_from_agent_version (''mothra'' @ ''/'' @ ''v0.1'' @ ''/'' @ ''x86_64'' @ ''/rust'') =
     (KnownClient ''mothra'', ''v0.1'', ''x86_64'')"
  using client_from_agent_version_correct [of "''mothra''" "''v0.1''" "''x86_64''" "''/rust''"] by simp

end
