(* ===== verification/Peer_DB.thy ===== *)
theory Peer_DB
  imports Peer_Info "HOL-Library.Multiset"
begin

text \<open>
  \<open>core/network/src/peer_manager/peerdb.rs\<close>: the database of known peers, with one definition per
  method. The counter \<open>n_dc\<close> is kept beside the map by hand in the source; the invariant
  \<open>peerdb_inv\<close> says that it is exactly the number of disconnected entries and that it never exceeds
  \<open>MAX_DC_PEERS\<close>. Methods that can panic (the \<open>u8\<close> connection counters, the \<open>unwrap\<close> in
  \<open>shrink_to_fit\<close>) return an \<open>option\<close>.
\<close>

section \<open>State\<close>

record rep_change =
  is_good :: bool
  diff :: rep

definition rep_good :: "rep \<Rightarrow> rep_change" where
  "rep_good d = \<lparr> is_good = True, diff = d \<rparr>"

definition rep_bad :: "rep \<Rightarrow> rep_change" where
  "rep_bad d = \<lparr> is_good = False, diff = d \<rparr>"

definition rep_worst :: rep_change where
  "rep_worst = \<lparr> is_good = False, diff = - 1 \<rparr>"

definition MAX_DC_PEERS :: nat where
  "MAX_DC_PEERS = 30"

record peerdb =
  peers :: "(peer_id \<times> peer_info) list"
  n_dc :: nat

definition peerdb_new :: peerdb where
  "peerdb_new = \<lparr> peers = [], n_dc = 0 \<rparr>"

section \<open>Getters\<close>

definition peerdb_reputation :: "peerdb \<Rightarrow> peer_id \<Rightarrow> rep" where
  "peerdb_reputation db p = (case hm_get (peers db) p of None \<Rightarrow> DEFAULT_REPUTATION | Some info \<Rightarrow> reputation info)"

definition peer_ids :: "peerdb \<Rightarrow> peer_id list" where
  "peer_ids db = map fst (peers db)"

definition peerdb_info :: "peerdb \<Rightarrow> peer_id \<Rightarrow> peer_info option" where
  "peerdb_info db p = hm_get (peers db) p"

text \<open>\<open>peer_info_mut\<close> hands out a mutable reference to the entry: the caller's assignments are \<open>f\<close>.\<close>

definition peer_info_mut :: "(peer_info \<Rightarrow> peer_info) \<Rightarrow> peer_id \<Rightarrow> peerdb \<Rightarrow> peerdb" where
  "peer_info_mut f p db =
     (case hm_get (peers db) p of
        None \<Rightarrow> db
      | Some info \<Rightarrow> db\<lparr> peers := hm_insert p (f info) (peers db) \<rparr>)"

definition peer_banned :: "peerdb \<Rightarrow> peer_id \<Rightarrow> bool" where
  "peer_banned db p =
     (case map_option connection_status (hm_get (peers db) p) of
        Some st \<Rightarrow> status_is_banned st
      | None \<Rightarrow> False)"

definition connected_peers :: "peerdb \<Rightarrow> (peer_id \<times> peer_info) list" where
  "connected_peers db = filter (\<lambda>(_, info). status_is_connected (connection_status info)) (peers db)"

definition connected_peer_ids :: "peerdb \<Rightarrow> peer_id list" where
  "connected_peer_ids db =
     map fst (filter (\<lambda>(_, info). status_is_connected (connection_status info)) (peers db))"

definition connected_or_dialing_peers :: "peerdb \<Rightarrow> peer_id list" where
  "connected_or_dialing_peers db =
     map fst (filter (\<lambda>(_, info). status_is_connected (connection_status info) \<or>
                                  status_is_dialing (connection_status info)) (peers db))"

definition peers_on_subnet :: "peerdb \<Rightarrow> subnet_id \<Rightarrow> peer_id list" where
  "peers_on_subnet db subnet_id =
     map fst (filter (\<lambda>(_, info). status_is_connected (connection_status info) \<and> on_subnet info subnet_id) (peers db))"

definition disconnected_peers :: "peerdb \<Rightarrow> peer_id list" where
  "disconnected_peers db =
     map fst (filter (\<lambda>(_, info). status_is_disconnected (connection_status info)) (peers db))"

definition banned_peers :: "peerdb \<Rightarrow> peer_id list" where
  "banned_peers db =
     map fst (filter (\<lambda>(_, info). status_is_banned (connection_status info)) (peers db))"

text \<open>\<open>sort_by_key\<close> is a stable sort; the key \<open>Rep::max_value() - reputation\<close> cannot underflow.\<close>

definition best_peers_by_status ::
  "peerdb \<Rightarrow> (peer_connection_status \<Rightarrow> bool) \<Rightarrow> (peer_id \<times> peer_info) list" where
  "best_peers_by_status db is_status =
     sort_key (\<lambda>(_, info). (- 1 :: rep) - reputation info)
       (filter (\<lambda>(_, info). is_status (connection_status info)) (peers db))"

definition best_by_status :: "peerdb \<Rightarrow> (peer_connection_status \<Rightarrow> bool) \<Rightarrow> peer_id option" where
  "best_by_status db is_status =
     map_option fst (max_by_key (\<lambda>(_, info). reputation info)
       (filter (\<lambda>(_, info). is_status (connection_status info)) (peers db)))"

definition peerdb_connection_status :: "peerdb \<Rightarrow> peer_id \<Rightarrow> peer_connection_status option" where
  "peerdb_connection_status db p = map_option connection_status (peerdb_info db p)"

definition peerdb_is_connected :: "peerdb \<Rightarrow> peer_id \<Rightarrow> bool" where
  "peerdb_is_connected db p =
     (case peerdb_connection_status db p of Some (Connected _ _) \<Rightarrow> True | _ \<Rightarrow> False)"

definition is_connected_or_dialing :: "peerdb \<Rightarrow> peer_id \<Rightarrow> bool" where
  "is_connected_or_dialing db p =
     (case peerdb_connection_status db p of
        Some (Connected _ _) \<Rightarrow> True | Some (Dialing _) \<Rightarrow> True | _ \<Rightarrow> False)"

section \<open>Setters\<close>

text \<open>\<open>self.peers.entry(peer_id).or_default()\<close>: the entry, inserted with the default if missing. The
  setters then write the entry back.\<close>

definition entry_or_default :: "peerdb \<Rightarrow> peer_id \<Rightarrow> peer_info" where
  "entry_or_default db p = (case hm_get (peers db) p of None \<Rightarrow> peer_info_default | Some info \<Rightarrow> info)"

definition dialing_peer :: "env \<Rightarrow> peer_id \<Rightarrow> peerdb \<Rightarrow> peerdb" where
  "dialing_peer e p db =
     (let info = entry_or_default db p in
      db\<lparr> n_dc := if status_is_disconnected (connection_status info) then n_dc db - 1 else n_dc db,
          peers := hm_insert p (info\<lparr> connection_status := Dialing (now e) \<rparr>) (peers db) \<rparr>)"

text \<open>\<open>Some(min_ttl) > info.min_ttl\<close> compares options, \<open>None\<close> being the least.\<close>

definition longer_ttl :: "instant \<Rightarrow> peer_info \<Rightarrow> peer_info" where
  "longer_ttl ttl info =
     (if (case min_ttl info of None \<Rightarrow> True | Some t \<Rightarrow> ttl > t)
      then info\<lparr> min_ttl := Some ttl \<rparr> else info)"

definition update_min_ttl :: "peer_id \<Rightarrow> instant \<Rightarrow> peerdb \<Rightarrow> peerdb" where
  "update_min_ttl p ttl db =
     db\<lparr> peers := hm_insert p (longer_ttl ttl (entry_or_default db p)) (peers db) \<rparr>"

definition extend_peers_on_subnet :: "subnet_id \<Rightarrow> instant \<Rightarrow> peerdb \<Rightarrow> peerdb" where
  "extend_peers_on_subnet subnet_id ttl db =
     db\<lparr> peers := map (\<lambda>(p, info).
           if status_is_connected (connection_status info) \<and> on_subnet info subnet_id
           then (p, longer_ttl ttl info) else (p, info)) (peers db) \<rparr>"

definition connect_ingoing :: "env \<Rightarrow> peer_id \<Rightarrow> peerdb \<Rightarrow> peerdb option" where
  "connect_ingoing e p db =
     (let info = entry_or_default db p in
      case status_connect_ingoing e (connection_status info) of
        None \<Rightarrow> None
      | Some st \<Rightarrow>
          Some (db\<lparr> n_dc := if status_is_disconnected (connection_status info) then n_dc db - 1 else n_dc db,
                    peers := hm_insert p (info\<lparr> connection_status := st \<rparr>) (peers db) \<rparr>))"

definition connect_outgoing :: "env \<Rightarrow> peer_id \<Rightarrow> peerdb \<Rightarrow> peerdb option" where
  "connect_outgoing e p db =
     (let info = entry_or_default db p in
      case status_connect_outgoing e (connection_status info) of
        None \<Rightarrow> None
      | Some st \<Rightarrow>
          Some (db\<lparr> n_dc := if status_is_disconnected (connection_status info) then n_dc db - 1 else n_dc db,
                    peers := hm_insert p (info\<lparr> connection_status := st \<rparr>) (peers db) \<rparr>))"

text \<open>The loop drops one peer per round and ends when the counter is within the limit.\<close>

function shrink_to_fit :: "peerdb \<Rightarrow> peerdb option" where
  "shrink_to_fit db =
     (if n_dc db > MAX_DC_PEERS
      then (case min_by_key (\<lambda>(_, info). reputation info)
                   (filter (\<lambda>(_, info). status_is_disconnected (connection_status info)) (peers db)) of
              None \<Rightarrow> None
            | Some (to_drop, _) \<Rightarrow>
                shrink_to_fit (db\<lparr> peers := hm_remove to_drop (peers db), n_dc := n_dc db - 1 \<rparr>))
      else Some db)"
  by pat_completeness auto
termination by (relation "measure n_dc") auto

declare shrink_to_fit.simps [simp del]

definition disconnect :: "env \<Rightarrow> peer_id \<Rightarrow> peerdb \<Rightarrow> peerdb option" where
  "disconnect e p db =
     (let info = entry_or_default db p in
      shrink_to_fit
        (if \<not> status_is_disconnected (connection_status info) \<and> \<not> status_is_banned (connection_status info)
         then db\<lparr> peers := hm_insert p (info\<lparr> connection_status := status_disconnect e (connection_status info) \<rparr>) (peers db),
                  n_dc := n_dc db + 1 \<rparr>
         else db\<lparr> peers := hm_insert p info (peers db) \<rparr>))"

definition ban :: "env \<Rightarrow> peer_id \<Rightarrow> peerdb \<Rightarrow> peerdb" where
  "ban e p db =
     (let info = entry_or_default db p in
      db\<lparr> n_dc := if status_is_disconnected (connection_status info) then n_dc db - 1 else n_dc db,
          peers := hm_insert p (info\<lparr> connection_status := status_ban e (connection_status info) \<rparr>) (peers db) \<rparr>)"

definition add_metadata :: "peer_id \<Rightarrow> meta_data \<Rightarrow> peerdb \<Rightarrow> peerdb" where
  "add_metadata p md db =
     (case hm_get (peers db) p of
        Some info \<Rightarrow> db\<lparr> peers := hm_insert p (info\<lparr> peer_meta_data := Some md \<rparr>) (peers db) \<rparr>
      | None \<Rightarrow> db)"

definition set_reputation :: "peer_id \<Rightarrow> rep \<Rightarrow> peerdb \<Rightarrow> peerdb" where
  "set_reputation p r db =
     (case hm_get (peers db) p of
        Some info \<Rightarrow> db\<lparr> peers := hm_insert p (info\<lparr> reputation := r \<rparr>) (peers db) \<rparr>
      | None \<Rightarrow> db)"

definition add_reputation :: "peer_id \<Rightarrow> rep_change \<Rightarrow> peerdb \<Rightarrow> peerdb" where
  "add_reputation p change db =
     (case hm_get (peers db) p of
        None \<Rightarrow> db
      | Some info \<Rightarrow>
          db\<lparr> peers := hm_insert p
                (info\<lparr> reputation := if is_good change then saturating_add (reputation info) (diff change)
                                     else saturating_sub (reputation info) (diff change) \<rparr>) (peers db) \<rparr>)"

section \<open>The calls of a client\<close>

datatype peerdb_call =
    DialingPeer peer_id
  | UpdateMinTtl peer_id instant
  | ExtendPeersOnSubnet subnet_id instant
  | ConnectIngoing peer_id
  | ConnectOutgoing peer_id
  | Disconnect peer_id
  | Ban peer_id
  | AddMetadata peer_id meta_data
  | SetReputation peer_id rep
  | AddReputation peer_id rep_change

fun peerdb_step :: "env \<times> peerdb_call \<Rightarrow> peerdb \<Rightarrow> (unit \<times> peerdb) option" where
  "peerdb_step (e, DialingPeer p) db = Some ((), dialing_peer e p db)"
| "peerdb_step (e, UpdateMinTtl p t) db = Some ((), update_min_ttl p t db)"
| "peerdb_step (e, ExtendPeersOnSubnet s t) db = Some ((), extend_peers_on_subnet s t db)"
| "peerdb_step (e, ConnectIngoing p) db = map_option (Pair ()) (connect_ingoing e p db)"
| "peerdb_step (e, ConnectOutgoing p) db = map_option (Pair ()) (connect_outgoing e p db)"
| "peerdb_step (e, Disconnect p) db = map_option (Pair ()) (disconnect e p db)"
| "peerdb_step (e, Ban p) db = Some ((), ban e p db)"
| "peerdb_step (e, AddMetadata p md) db = Some ((), add_metadata p md db)"
| "peerdb_step (e, SetReputation p r) db = Some ((), set_reputation p r db)"
| "peerdb_step (e, AddReputation p c) db = Some ((), add_reputation p c db)"

section \<open>The invariant\<close>

abbreviation is_dc :: "peer_info \<Rightarrow> bool" where
  "is_dc info \<equiv> status_is_disconnected (connection_status info)"

definition peerdb_inv :: "peerdb \<Rightarrow> bool" where
  "peerdb_inv db \<longleftrightarrow> hm_wf (peers db) \<and> n_dc db = count_if is_dc (peers db) \<and> n_dc db \<le> MAX_DC_PEERS"

text \<open>The counter rule that all the setters follow.\<close>

lemma count_dc_insert:
  assumes "n = count_if is_dc m"
  shows "count_if is_dc (AList.update p info m) =
           n - (case map_of m p of Some i \<Rightarrow> if is_dc i then 1 else 0 | None \<Rightarrow> 0) + (if is_dc info then 1 else 0)"
  using count_if_insert [of is_dc p info m] count_if_pos [of m p _ is_dc] assms
  by (auto split: option.splits if_splits)

lemma peer_info_default_status [simp]: "connection_status peer_info_default = UnknownStatus"
  by (simp add: peer_info_default_def status_default_def)

lemma entry_dc:
  "is_dc (entry_or_default db p) \<longleftrightarrow> (\<exists>info. map_of (peers db) p = Some info \<and> is_dc info)"
  by (auto simp: entry_or_default_def split: option.splits)

lemma entry_count:
  "(case map_of (peers db) p of Some i \<Rightarrow> if is_dc i then 1 else 0 | None \<Rightarrow> 0) =
   (if is_dc (entry_or_default db p) then 1 else (0::nat))"
  by (simp add: entry_or_default_def split: option.splits)

text \<open>An update of one entry and the counter: to a state that is not disconnected, or without a
  change of the connection status.\<close>

lemma peerdb_inv_insert:
  assumes "peerdb_inv db" and "\<not> is_dc info"
  shows "peerdb_inv (db\<lparr> n_dc := if is_dc (entry_or_default db p) then n_dc db - 1 else n_dc db,
                         peers := hm_insert p info (peers db) \<rparr>)"
  using assms
  by (auto simp: peerdb_inv_def entry_count count_dc_insert [of "count_if is_dc (peers db)" "peers db"])

lemma peerdb_inv_modify:
  assumes "peerdb_inv db" and "is_dc info \<longleftrightarrow> is_dc (entry_or_default db p)"
  shows "peerdb_inv (db\<lparr> peers := hm_insert p info (peers db) \<rparr>)"
proof -
  have "is_dc (entry_or_default db p) \<Longrightarrow> 0 < count_if is_dc (peers db)"
    using count_if_pos by (fastforce simp: entry_dc)
  with assms show ?thesis
    by (auto simp: peerdb_inv_def entry_count count_dc_insert [of "count_if is_dc (peers db)" "peers db"])
qed

lemma longer_ttl_status [simp]: "connection_status (longer_ttl t info) = connection_status info"
  by (simp add: longer_ttl_def)

lemma peer_info_mut_inv:
  "peerdb_inv db \<Longrightarrow> (\<And>info. is_dc (f info) \<longleftrightarrow> is_dc info) \<Longrightarrow> peerdb_inv (peer_info_mut f p db)"
  by (cases "map_of (peers db) p")
    (simp_all add: peer_info_mut_def peerdb_inv_modify entry_or_default_def)

lemma dialing_peer_inv: "peerdb_inv db \<Longrightarrow> peerdb_inv (dialing_peer e p db)"
  unfolding dialing_peer_def Let_def by (rule peerdb_inv_insert) auto

lemma update_min_ttl_inv: "peerdb_inv db \<Longrightarrow> peerdb_inv (update_min_ttl p t db)"
  unfolding update_min_ttl_def by (rule peerdb_inv_modify) auto

lemma extend_peers_on_subnet_id [simp]: "extend_peers_on_subnet s t db = db"
  by (simp add: extend_peers_on_subnet_def case_prod_beta cong: if_cong)

lemma connect_ingoing_inv:
  assumes "peerdb_inv db" and "connect_ingoing e p db = Some db'"
  shows "peerdb_inv db'"
proof -
  from assms(2) obtain st where st: "status_connect_ingoing e (connection_status (entry_or_default db p)) = Some st"
    by (auto simp: connect_ingoing_def Let_def split: option.splits)
  have "\<not> is_dc (entry_or_default db p\<lparr> connection_status := st \<rparr>)"
    using status_connect_connected(1) [OF st] by simp
  from peerdb_inv_insert [OF assms(1) this, of p] assms(2) st show ?thesis
    by (simp add: connect_ingoing_def Let_def)
qed

lemma connect_outgoing_inv:
  assumes "peerdb_inv db" and "connect_outgoing e p db = Some db'"
  shows "peerdb_inv db'"
proof -
  from assms(2) obtain st where st: "status_connect_outgoing e (connection_status (entry_or_default db p)) = Some st"
    by (auto simp: connect_outgoing_def Let_def split: option.splits)
  have "\<not> is_dc (entry_or_default db p\<lparr> connection_status := st \<rparr>)"
    using status_connect_connected(2) [OF st] by simp
  from peerdb_inv_insert [OF assms(1) this, of p] assms(2) st show ?thesis
    by (simp add: connect_outgoing_def Let_def)
qed

lemma ban_inv: "peerdb_inv db \<Longrightarrow> peerdb_inv (ban e p db)"
  unfolding ban_def Let_def by (rule peerdb_inv_insert) (auto simp: status_ban_def)

text \<open>The three setters that only touch an existing entry are instances of \<open>peer_info_mut\<close>.\<close>

lemma setters_mut [peerdb_simps]:
  "add_metadata p md db = peer_info_mut (\<lambda>info. info\<lparr> peer_meta_data := Some md \<rparr>) p db"
  "set_reputation p r db = peer_info_mut (\<lambda>info. info\<lparr> reputation := r \<rparr>) p db"
  "add_reputation p c db =
     peer_info_mut (\<lambda>info. info\<lparr> reputation := if is_good c then saturating_add (reputation info) (diff c)
                                               else saturating_sub (reputation info) (diff c) \<rparr>) p db"
  by (simp_all add: add_metadata_def set_reputation_def add_reputation_def peer_info_mut_def split: option.splits)

lemma setters_inv:
  assumes "peerdb_inv db"
  shows "peerdb_inv (add_metadata p md db)" "peerdb_inv (set_reputation p r db)" "peerdb_inv (add_reputation p c db)"
  unfolding setters_mut by (rule peer_info_mut_inv [OF assms], simp)+

section \<open>The eviction loop\<close>

lemma shrink_within: "n_dc db \<le> MAX_DC_PEERS \<Longrightarrow> shrink_to_fit db = Some db"
  by (subst shrink_to_fit.simps) simp

text \<open>One round, while the counter agrees with the map: there is a peer to drop, and it has the
  lowest reputation of the disconnected ones.\<close>

lemma shrink_round:
  assumes "hm_wf (peers db)" "n_dc db = count_if is_dc (peers db)" "n_dc db > MAX_DC_PEERS"
  obtains d info where "map_of (peers db) d = Some info" "is_dc info"
    "\<And>q j. map_of (peers db) q = Some j \<Longrightarrow> is_dc j \<Longrightarrow> reputation info \<le> reputation j"
    "shrink_to_fit db = shrink_to_fit (db\<lparr> peers := hm_remove d (peers db), n_dc := n_dc db - 1 \<rparr>)"
    "n_dc db - 1 = count_if is_dc (hm_remove d (peers db))"
proof -
  let ?dc = "filter (\<lambda>(_, info). is_dc info) (peers db)"
  have "?dc \<noteq> []" using assms(2,3) by (auto simp: count_if_def)
  then obtain d info where m: "min_by_key (\<lambda>(_, info). reputation info) ?dc = Some (d, info)"
    by (cases "min_by_key (\<lambda>(_, info). reputation info) ?dc") auto
  from min_by_key_Some(1) [OF m] assms(1) have di: "map_of (peers db) d = Some info" "is_dc info"
    by auto
  show thesis
  proof (rule that [OF di])
    show "reputation info \<le> reputation j" if "map_of (peers db) q = Some j" "is_dc j" for q j
      using min_by_key_Some(2) [OF m, of "(q, j)"] that by (auto dest: map_of_SomeD)
    show "shrink_to_fit db = shrink_to_fit (db\<lparr> peers := hm_remove d (peers db), n_dc := n_dc db - 1 \<rparr>)"
      using assms(3) m by (subst shrink_to_fit.simps) simp
    show "n_dc db - 1 = count_if is_dc (hm_remove d (peers db))"
      using count_if_remove [OF assms(1), of is_dc d] di assms(2) by simp
  qed
qed

text \<open>What the whole loop promises: it returns, the counter is cut to the limit, only disconnected
  peers are dropped, and none of them had a better reputation than a disconnected peer that is kept.\<close>

definition shrunk :: "peerdb \<Rightarrow> peerdb \<Rightarrow> bool" where
  "shrunk db db' \<longleftrightarrow>
     hm_wf (peers db') \<and> n_dc db' = count_if is_dc (peers db') \<and> n_dc db' = min (n_dc db) MAX_DC_PEERS \<and>
     (n_dc db \<le> MAX_DC_PEERS \<longrightarrow> db' = db) \<and> map_of (peers db') \<subseteq>\<^sub>m map_of (peers db) \<and>
     (\<forall>p i. map_of (peers db) p = Some i \<longrightarrow> map_of (peers db') p = None \<longrightarrow>
        is_dc i \<and> (\<forall>q j. map_of (peers db') q = Some j \<longrightarrow> is_dc j \<longrightarrow> reputation i \<le> reputation j))"

lemma shrink_shrunk:
  "hm_wf (peers db) \<Longrightarrow> n_dc db = count_if is_dc (peers db) \<Longrightarrow>
   \<exists>db'. shrink_to_fit db = Some db' \<and> shrunk db db'"
proof (induction "n_dc db" arbitrary: db)
  case 0
  then show ?case by (auto simp: shrink_within shrunk_def)
next
  case (Suc n)
  show ?case
  proof (cases "n_dc db > MAX_DC_PEERS")
    case True
    from shrink_round [OF Suc.prems True]
    obtain d info where d: "map_of (peers db) d = Some info" "is_dc info"
      and least: "\<And>q j. map_of (peers db) q = Some j \<Longrightarrow> is_dc j \<Longrightarrow> reputation info \<le> reputation j"
      and round: "shrink_to_fit db = shrink_to_fit (db\<lparr> peers := hm_remove d (peers db), n_dc := n_dc db - 1 \<rparr>)"
      and cnt: "n_dc db - 1 = count_if is_dc (hm_remove d (peers db))" by blast
    let ?db1 = "db\<lparr> peers := hm_remove d (peers db), n_dc := n_dc db - 1 \<rparr>"
    have "n = n_dc ?db1" "hm_wf (peers ?db1)" "n_dc ?db1 = count_if is_dc (peers ?db1)"
      using Suc.hyps(2) Suc.prems(1) cnt by simp_all
    from Suc.hyps(1) [OF this]
    obtain db' where db': "shrink_to_fit ?db1 = Some db'" "shrunk ?db1 db'" by blast
    then have sub: "map_of (peers db') \<subseteq>\<^sub>m (map_of (peers db))(d := None)"
      by (simp add: shrunk_def hm_remove_map)
    have old: "map_of (peers db) q = Some j" if "map_of (peers db') q = Some j" for q j
      using map_leD [OF sub that] by (simp split: if_splits)
    have keep: "is_dc i \<and> (\<forall>q j. map_of (peers db') q = Some j \<longrightarrow> is_dc j \<longrightarrow> reputation i \<le> reputation j)"
      if "map_of (peers db) p = Some i" "map_of (peers db') p = None" for p i
    proof (cases "p = d")
      case True
      with that d have "i = info" by simp
      with d least old show ?thesis by blast
    next
      case False
      with that(1) have "map_of (peers ?db1) p = Some i" by simp
      with that(2) db'(2) show ?thesis unfolding shrunk_def by blast
    qed
    moreover have "map_of (peers db') \<subseteq>\<^sub>m map_of (peers db)"
      using old by (auto simp: map_le_def)
    moreover have "hm_wf (peers db')" "n_dc db' = count_if is_dc (peers db')" "n_dc db' = min (n_dc db) MAX_DC_PEERS"
      using db'(2) True by (auto simp: shrunk_def)
    ultimately have "shrunk db db'" using True unfolding shrunk_def not_less [symmetric] by blast
    with round db'(1) show ?thesis by simp
  qed (use Suc.prems in \<open>auto simp: shrink_within shrunk_def\<close>)
qed

lemma disconnect_shrunk:
  fixes p :: peer_id and e :: env
  assumes "peerdb_inv db"
  defines "info \<equiv> entry_or_default db p"
  defines "m \<equiv> hm_insert p (if is_dc info \<or> status_is_banned (connection_status info) then info
                           else info\<lparr> connection_status := Disconnected (now e) \<rparr>) (peers db)"
  shows "\<exists>db'. disconnect e p db = Some db' \<and> peerdb_inv db' \<and>
               shrunk \<lparr> peers = m, n_dc = count_if is_dc m \<rparr> db'"
proof -
  have "hm_wf m" using assms(1) by (simp add: m_def peerdb_inv_def)
  moreover have "disconnect e p db = shrink_to_fit \<lparr> peers = m, n_dc = count_if is_dc m \<rparr>"
  proof (cases "is_dc info \<or> status_is_banned (connection_status info)")
    case True
    have "peerdb_inv (db\<lparr> peers := hm_insert p info (peers db) \<rparr>)"
      using assms(1) by (rule peerdb_inv_modify) (simp add: info_def)
    with True show ?thesis
      by (auto simp: disconnect_def m_def peerdb_inv_def simp flip: info_def intro!: arg_cong [of _ _ shrink_to_fit])
  next
    case False
    have "count_if is_dc m = count_if is_dc (peers db) + 1"
      using False by (simp add: m_def count_dc_insert [OF refl] entry_count flip: info_def)
    with False assms(1) show ?thesis
      by (auto simp: disconnect_def Let_def m_def peerdb_inv_def status_disconnect_def simp flip: info_def
          intro!: arg_cong [of _ _ shrink_to_fit])
  qed
  ultimately show ?thesis
    using shrink_shrunk [of "\<lparr> peers = m, n_dc = count_if is_dc m \<rparr>"]
    by (auto simp: peerdb_inv_def shrunk_def)
qed

lemma disconnect_inv: "peerdb_inv db \<Longrightarrow> disconnect e p db = Some db' \<Longrightarrow> peerdb_inv db'"
  using disconnect_shrunk [of db e p] by auto

lemma disconnect_total: "peerdb_inv db \<Longrightarrow> \<exists>db'. disconnect e p db = Some db'"
  using disconnect_shrunk [of db e p] by auto

lemma disconnect_le:
  assumes "peerdb_inv db" and "disconnect e p db = Some db'"
  shows "map_of (peers db') \<subseteq>\<^sub>m map_of (hm_insert p
    (if is_dc (entry_or_default db p) \<or> status_is_banned (connection_status (entry_or_default db p))
     then entry_or_default db p
     else (entry_or_default db p)\<lparr> connection_status := Disconnected (now e) \<rparr>) (peers db))"
proof -
  from disconnect_shrunk [OF assms(1), of e p] obtain db''
    where "disconnect e p db = Some db''" "map_of (peers db'') \<subseteq>\<^sub>m map_of (hm_insert p
    (if is_dc (entry_or_default db p) \<or> status_is_banned (connection_status (entry_or_default db p))
     then entry_or_default db p
     else (entry_or_default db p)\<lparr> connection_status := Disconnected (now e) \<rparr>) (peers db))"
    unfolding shrunk_def peerdb.select_convs by blast
  with assms(2) show ?thesis by simp
qed

section \<open>Runs\<close>

lemma peerdb_step_inv:
  assumes "peerdb_inv db" and "peerdb_step c db = Some (u, db')"
  shows "peerdb_inv db'"
  using assms
  by (cases "(c, db)" rule: peerdb_step.cases)
    (auto intro: disconnect_inv dialing_peer_inv update_min_ttl_inv connect_ingoing_inv connect_outgoing_inv ban_inv setters_inv)

lemma peerdb_step_unchecked:
  assumes "peerdb_inv db" and "\<not> overflow_checks (fst c)"
  shows "\<exists>out db'. peerdb_step c db = Some (out, db') \<and> peerdb_inv db'"
proof -
  have "\<exists>out db'. peerdb_step c db = Some (out, db')"
    using disconnect_total [OF assms(1)] status_connect_unchecked [OF assms(2)]
    by (cases "(c, db)" rule: peerdb_step.cases)
      (fastforce simp: connect_ingoing_def connect_outgoing_def Let_def split: option.splits)+
  then show ?thesis using peerdb_step_inv [OF assms(1)] by blast
qed

interpretation pdb: op_machine peerdb_step peerdb_inv "\<lambda>c. \<not> overflow_checks (fst c)"
  by unfold_locales (rule peerdb_step_unchecked)

text \<open>The connection counters of a peer, zero when it is unknown or not connected.\<close>

definition peer_connections :: "peerdb \<Rightarrow> peer_id \<Rightarrow> u8 \<times> u8" where
  "peer_connections db p =
     (case peerdb_connection_status db p of None \<Rightarrow> (0, 0) | Some st \<Rightarrow> connections st)"

lemma peer_connections_entry:
  "peer_connections db p = connections (connection_status (entry_or_default db p))"
  by (simp add: peer_connections_def peerdb_connection_status_def peerdb_info_def entry_or_default_def split: option.splits)

lemma entry_insert [simp]:
  "entry_or_default (db\<lparr> peers := hm_insert p info m \<rparr>) q =
     (if q = p then info else entry_or_default (db\<lparr> peers := m \<rparr>) q)"
  "entry_or_default (db\<lparr> n_dc := n \<rparr>) q = entry_or_default db q"
  by (simp_all add: entry_or_default_def)

lemma connect_ingoing_connections:
  assumes "unat (fst (peer_connections db p)) < 255"
  shows "\<exists>db'. connect_ingoing e p db = Some db' \<and>
    unat (fst (peer_connections db' p)) = Suc (unat (fst (peer_connections db p))) \<and>
    snd (peer_connections db' p) = snd (peer_connections db p) \<and>
    (\<forall>q. q \<noteq> p \<longrightarrow> peer_connections db' q = peer_connections db q)"
  using assms
  by (cases "connection_status (entry_or_default db p)")
    (auto simp: peer_connections_entry connect_ingoing_def Let_def dest!: rust_add_1_bound [of _ e])

lemma connect_outgoing_connections:
  assumes "unat (snd (peer_connections db p)) < 255"
  shows "\<exists>db'. connect_outgoing e p db = Some db' \<and>
    unat (snd (peer_connections db' p)) = Suc (unat (snd (peer_connections db p))) \<and>
    fst (peer_connections db' p) = fst (peer_connections db p) \<and>
    (\<forall>q. q \<noteq> p \<longrightarrow> peer_connections db' q = peer_connections db q)"
  using assms
  by (cases "connection_status (entry_or_default db p)")
    (auto simp: peer_connections_entry connect_outgoing_def Let_def dest!: rust_add_1_bound [of _ e])

lemma disconnect_connections:
  assumes "shrunk \<lparr> peers = hm_insert p info (peers db), n_dc = n \<rparr> db'"
    and "\<not> status_is_connected (connection_status info)"
  shows "peer_connections db' q = peer_connections db q \<or> peer_connections db' q = (0, 0)"
proof (cases "map_of (peers db') q")
  case None
  then show ?thesis by (simp add: peer_connections_entry entry_or_default_def)
next
  case (Some j)
  have "map_of (peers db') \<subseteq>\<^sub>m map_of (hm_insert p info (peers db))" using assms(1) by (simp add: shrunk_def)
  from map_leD [OF this Some] have "(if q = p then Some info else map_of (peers db) q) = Some j"
    by (simp only: hm_get_insert)
  with Some assms(2) show ?thesis
    by (cases "connection_status info") (auto simp: peer_connections_entry entry_or_default_def split: if_splits)
qed

text \<open>How often a run records an incoming or outgoing connection of a peer, and the effect of one
  call on the counters.\<close>

definition n_ingoing :: "(env \<times> peerdb_call) list \<Rightarrow> peer_id \<Rightarrow> nat" where
  "n_ingoing cs p = length (filter (\<lambda>c. snd c = ConnectIngoing p) cs)"

definition n_outgoing :: "(env \<times> peerdb_call) list \<Rightarrow> peer_id \<Rightarrow> nat" where
  "n_outgoing cs p = length (filter (\<lambda>c. snd c = ConnectOutgoing p) cs)"

lemma n_going_snoc [simp]:
  "n_ingoing (cs @ [c]) p = n_ingoing cs p + (if snd c = ConnectIngoing p then 1 else 0)"
  "n_outgoing (cs @ [c]) p = n_outgoing cs p + (if snd c = ConnectOutgoing p then 1 else 0)"
  by (simp_all add: n_ingoing_def n_outgoing_def)

lemma n_going_mono:
  "n_ingoing cs p \<le> n_ingoing (cs @ [c]) p" "n_outgoing cs p \<le> n_outgoing (cs @ [c]) p"
  by simp_all

lemma peer_info_mut_connections:
  "(\<And>info. connection_status (f info) = connection_status info) \<Longrightarrow>
   connection_status (entry_or_default (peer_info_mut f p db) q) = connection_status (entry_or_default db q)"
  by (simp add: peer_info_mut_def entry_or_default_def split: option.splits)

lemma quiet_step_connections:
  assumes "peerdb_inv db" and "\<forall>p. call \<noteq> ConnectIngoing p \<and> call \<noteq> ConnectOutgoing p"
  shows "\<exists>db'. peerdb_step (e, call) db = Some ((), db') \<and>
               (\<forall>q. peer_connections db' q = peer_connections db q \<or> peer_connections db' q = (0, 0))"
proof (cases call)
  case (Disconnect p)
  let ?info = "entry_or_default db p"
  let ?new = "if is_dc ?info \<or> status_is_banned (connection_status ?info) then ?info
              else ?info\<lparr> connection_status := Disconnected (now e) \<rparr>"
  have "\<not> status_is_connected (connection_status ?new)" by (cases "connection_status ?info") auto
  with disconnect_shrunk [OF assms(1), of e p] show ?thesis
    using disconnect_connections [of p ?new db] by (auto simp: Disconnect)
qed (use assms(2) in \<open>auto simp: setters_mut peer_info_mut_connections peer_connections_entry dialing_peer_def
      update_min_ttl_def ban_def status_ban_def Let_def\<close>)

lemma connections_bounded_step:
  assumes inv: "peerdb_inv db"
    and le: "\<forall>p. unat (fst (peer_connections db p)) \<le> n_ingoing cs p \<and> unat (snd (peer_connections db p)) \<le> n_outgoing cs p"
    and few: "\<forall>p. n_ingoing (cs @ [c]) p \<le> 255 \<and> n_outgoing (cs @ [c]) p \<le> 255"
  shows "\<exists>db'. peerdb_step c db = Some ((), db') \<and> peerdb_inv db' \<and>
    (\<forall>p. unat (fst (peer_connections db' p)) \<le> n_ingoing (cs @ [c]) p \<and>
         unat (snd (peer_connections db' p)) \<le> n_outgoing (cs @ [c]) p)"
proof -
  obtain e call where c: "c = (e, call)" by (cases c)
  have "\<exists>db'. peerdb_step c db = Some ((), db') \<and>
    (\<forall>p. unat (fst (peer_connections db' p)) \<le> n_ingoing (cs @ [c]) p \<and>
         unat (snd (peer_connections db' p)) \<le> n_outgoing (cs @ [c]) p)"
  proof (cases "\<exists>p. call = ConnectIngoing p \<or> call = ConnectOutgoing p")
    case True
    then consider p where "call = ConnectIngoing p" | p where "call = ConnectOutgoing p" by blast
    then show ?thesis
    proof cases
      case 1
      with few have "n_ingoing cs p < 255" by (force simp: c dest: spec [of _ p])
      with le have "unat (fst (peer_connections db p)) < 255" using le_less_trans by blast
      from connect_ingoing_connections [OF this, of e] obtain db' where
        "connect_ingoing e p db = Some db'"
        "unat (fst (peer_connections db' p)) = Suc (unat (fst (peer_connections db p)))"
        "snd (peer_connections db' p) = snd (peer_connections db p)"
        "\<forall>q. q \<noteq> p \<longrightarrow> peer_connections db' q = peer_connections db q" by blast
      with le 1 show ?thesis by (auto simp: c)
    next
      case 2
      with few have "n_outgoing cs p < 255" by (force simp: c dest: spec [of _ p])
      with le have "unat (snd (peer_connections db p)) < 255" using le_less_trans by blast
      from connect_outgoing_connections [OF this, of e] obtain db' where
        "connect_outgoing e p db = Some db'"
        "unat (snd (peer_connections db' p)) = Suc (unat (snd (peer_connections db p)))"
        "fst (peer_connections db' p) = fst (peer_connections db p)"
        "\<forall>q. q \<noteq> p \<longrightarrow> peer_connections db' q = peer_connections db q" by blast
      with le 2 show ?thesis by (auto simp: c)
    qed
  next
    case False
    with quiet_step_connections [OF inv, of call e] obtain db' where db': "peerdb_step c db = Some ((), db')"
      and "\<forall>q. peer_connections db' q = peer_connections db q \<or> peer_connections db' q = (0, 0)" by (auto simp: c)
    then have "unat (fst (peer_connections db' p)) \<le> n_ingoing cs p \<and>
               unat (snd (peer_connections db' p)) \<le> n_outgoing cs p" for p
      using le by (metis fst_conv snd_conv unsigned_0 le0)
    with db' show ?thesis using n_going_mono le_trans by meson
  qed
  then show ?thesis using peerdb_step_inv [OF inv] by blast
qed

lemma peerdb_new_inv: "peerdb_inv peerdb_new"
  by (simp add: peerdb_inv_def peerdb_new_def)

lemma connections_bounded_run:
  "\<forall>p. n_ingoing cs p \<le> 255 \<and> n_outgoing cs p \<le> 255 \<Longrightarrow>
   \<exists>outs db. run_calls peerdb_step cs peerdb_new = Some (outs, db) \<and> peerdb_inv db \<and>
     (\<forall>p. unat (fst (peer_connections db p)) \<le> n_ingoing cs p \<and> unat (snd (peer_connections db p)) \<le> n_outgoing cs p)"
proof (induction cs rule: rev_induct)
  case Nil
  show ?case
    by (auto simp: peerdb_new_inv) (simp_all add: peerdb_new_def peer_connections_entry entry_or_default_def)
next
  case (snoc c cs)
  from snoc.prems have "\<forall>p. n_ingoing cs p \<le> 255 \<and> n_outgoing cs p \<le> 255"
    using n_going_mono le_trans by meson
  from snoc.IH [OF this] obtain outs db where
    run: "run_calls peerdb_step cs peerdb_new = Some (outs, db)" and inv: "peerdb_inv db" and
    le: "\<forall>p. unat (fst (peer_connections db p)) \<le> n_ingoing cs p \<and> unat (snd (peer_connections db p)) \<le> n_outgoing cs p"
    by blast
  from connections_bounded_step [OF inv le snoc.prems] run show ?case
    by (auto simp: run_calls_append simp del: n_going_snoc)
qed

section \<open>Properties\<close>

text \<open>C22. In every run of calls on a fresh database (in a build without overflow checks), no call
  panics, and afterwards \<open>n_dc\<close> is exactly the number of disconnected peers, at most
  \<open>MAX_DC_PEERS\<close>; in particular the \<open>unwrap\<close> in \<open>shrink_to_fit\<close> never fails.\<close>

theorem peerdb_counts_disconnected:
  assumes "list_all (\<lambda>c. \<not> overflow_checks (fst c)) cs"
  shows "\<exists>outs db. run_calls peerdb_step cs peerdb_new = Some (outs, db) \<and>
                   n_dc db = length (disconnected_peers db) \<and> n_dc db \<le> 30 \<and> distinct (peer_ids db)"
  using pdb.run_ok [OF peerdb_new_inv assms]
  by (auto simp: peerdb_inv_def disconnected_peers_def peer_ids_def count_if_def MAX_DC_PEERS_def)

theorem peerdb_counts_disconnected_witness:
  "\<exists>outs db. run_calls peerdb_step
       [(\<lparr> now = 1, overflow_checks = False \<rparr>, ConnectIngoing [1]), (\<lparr> now = 2, overflow_checks = False \<rparr>, Disconnect [1])]
       peerdb_new = Some (outs, db) \<and>
     n_dc db = length (disconnected_peers db) \<and> n_dc db \<le> 30 \<and> distinct (peer_ids db)"
  by (rule peerdb_counts_disconnected) simp

text \<open>C36. The connection counters never overflow in a run in which no peer gets more than 255
  incoming and 255 outgoing connections, with or without overflow checks: no call panics, and a
  peer's counters never exceed the number of connections that were recorded for it.\<close>

theorem peerdb_connection_counters:
  assumes "\<forall>p. n_ingoing cs p \<le> 255 \<and> n_outgoing cs p \<le> 255"
  shows "\<exists>outs db. run_calls peerdb_step cs peerdb_new = Some (outs, db) \<and>
           (\<forall>p i out. peerdb_connection_status db p = Some (Connected i out) \<longrightarrow>
              unat i \<le> n_ingoing cs p \<and> unat out \<le> n_outgoing cs p)"
proof -
  from connections_bounded_run [OF assms] obtain outs db where run: "run_calls peerdb_step cs peerdb_new = Some (outs, db)"
    and le: "\<And>p. unat (fst (peer_connections db p)) \<le> n_ingoing cs p \<and> unat (snd (peer_connections db p)) \<le> n_outgoing cs p"
    by blast
  have "unat i \<le> n_ingoing cs p \<and> unat out \<le> n_outgoing cs p"
    if "peerdb_connection_status db p = Some (Connected i out)" for p i out
    using le [of p] that by (simp add: peer_connections_def)
  with run show ?thesis by blast
qed

theorem peerdb_connection_counters_witness:
  "\<exists>outs db. run_calls peerdb_step [(\<lparr> now = 1, overflow_checks = True \<rparr>, ConnectOutgoing [7])] peerdb_new = Some (outs, db) \<and>
     (\<forall>p i out. peerdb_connection_status db p = Some (Connected i out) \<longrightarrow>
        unat i \<le> n_ingoing [(\<lparr> now = 1, overflow_checks = True \<rparr>, ConnectOutgoing [7])] p \<and>
        unat out \<le> n_outgoing [(\<lparr> now = 1, overflow_checks = True \<rparr>, ConnectOutgoing [7])] p)"
  by (rule peerdb_connection_counters) (simp add: n_ingoing_def n_outgoing_def)

text \<open>C26. The eviction loop, from any state whose counter agrees with the map, however far over the
  limit: it returns; the counter is cut to the limit and still agrees (so \<open>MAX_DC_PEERS\<close> disconnected
  peers may stay, where the comment of the function promises fewer than that); every entry that is left is
  unchanged; and only disconnected peers are dropped, none of them with a better reputation than a
  disconnected peer that stays.\<close>

theorem shrink_to_fit_correct:
  assumes "distinct (peer_ids db)" and "n_dc db = length (disconnected_peers db)"
  shows "\<exists>db'. shrink_to_fit db = Some db' \<and>
           n_dc db' = min (n_dc db) MAX_DC_PEERS \<and> n_dc db' = length (disconnected_peers db') \<and>
           (\<forall>p i. peerdb_info db' p = Some i \<longrightarrow> peerdb_info db p = Some i) \<and>
           (\<forall>p i. peerdb_info db p = Some i \<and> peerdb_info db' p = None \<longrightarrow>
              status_is_disconnected (connection_status i) \<and>
              (\<forall>q j. peerdb_info db' q = Some j \<and> status_is_disconnected (connection_status j) \<longrightarrow>
                 reputation i \<le> reputation j))"
proof -
  have "hm_wf (peers db)" "n_dc db = count_if is_dc (peers db)"
    using assms by (simp_all add: peer_ids_def disconnected_peers_def count_if_def)
  from shrink_shrunk [OF this] obtain db' where "shrink_to_fit db = Some db'" "shrunk db db'" by blast
  then show ?thesis
    using map_leD
    by (intro exI [of _ db'])
      (fastforce simp: shrunk_def peerdb_info_def disconnected_peers_def count_if_def)
qed

text \<open>A database one over the limit.\<close>

definition full_db :: peerdb where
  "full_db = \<lparr> peers = map (\<lambda>k. ([word_of_nat k], peer_info_default\<lparr> reputation := word_of_nat (100 - k),
                                connection_status := Disconnected k \<rparr>)) [0..<31], n_dc = 31 \<rparr>"

theorem shrink_to_fit_correct_witness:
  "\<exists>db'. shrink_to_fit full_db = Some db' \<and> n_dc db' = 30"
proof -
  have "distinct (peer_ids full_db)" by code_simp
  moreover have "n_dc full_db = length (disconnected_peers full_db)" by code_simp
  ultimately show ?thesis
    using shrink_to_fit_correct [of full_db] by (auto simp: full_db_def MAX_DC_PEERS_def)
qed

text \<open>Disconnecting a peer: the call returns; a peer that is banned or already disconnected
  keeps its entry as it was; any other, even an unknown one, becomes disconnected at this moment.
  Nothing else changes, unless the limit is reached: then peers of the lowest reputation among the
  disconnected ones are forgotten, possibly the peer itself, and everything that is left is as
  described.\<close>

theorem disconnect_correct:
  fixes p :: peer_id and e :: env
  assumes "peerdb_inv db"
  defines "info \<equiv> entry_or_default db p"
  defines "expected \<equiv> (map_of (peers db))(p \<mapsto>
     if status_is_disconnected (connection_status info) \<or> status_is_banned (connection_status info) then info
     else info\<lparr> connection_status := Disconnected (now e) \<rparr>)"
  shows "\<exists>db'. disconnect e p db = Some db' \<and> peerdb_inv db' \<and>
           (n_dc db < MAX_DC_PEERS \<longrightarrow> map_of (peers db') = expected) \<and>
           map_of (peers db') \<subseteq>\<^sub>m expected \<and>
           (\<forall>q i. expected q = Some i \<and> peerdb_info db' q = None \<longrightarrow>
              status_is_disconnected (connection_status i) \<and>
              (\<forall>r j. peerdb_info db' r = Some j \<and> status_is_disconnected (connection_status j) \<longrightarrow>
                 reputation i \<le> reputation j))"
proof -
  let ?m = "hm_insert p (if is_dc info \<or> status_is_banned (connection_status info) then info
                           else info\<lparr> connection_status := Disconnected (now e) \<rparr>) (peers db)"
  have m: "map_of ?m = expected" by (simp add: expected_def hm_insert_map)
  have le: "count_if is_dc ?m \<le> n_dc db + 1"
    using assms(1) by (auto simp: count_dc_insert [OF refl] peerdb_inv_def split: option.splits)
  from disconnect_shrunk [OF assms(1), of e p] obtain db' where db': "disconnect e p db = Some db'" "peerdb_inv db'"
    "shrunk \<lparr> peers = ?m, n_dc = count_if is_dc ?m \<rparr> db'" unfolding info_def by blast
  moreover have "map_of (peers db') = expected" if "n_dc db < MAX_DC_PEERS"
    using that le db'(3) by (simp add: shrunk_def m)
  ultimately show ?thesis
    unfolding shrunk_def peerdb_info_def peerdb.select_convs m by blast
qed

theorem disconnect_correct_witness:
  "\<exists>db'. disconnect \<lparr> now = 5, overflow_checks = True \<rparr> [1] peerdb_new = Some db' \<and> peerdb_inv db'"
  using disconnect_correct [OF peerdb_new_inv, of "\<lparr> now = 5, overflow_checks = True \<rparr>" "[1]"] by blast

lemma rep_key_le: "(- 1 :: rep) - a \<le> - 1 - b \<longleftrightarrow> b \<le> a"
proof -
  have "unat ((- 1 :: rep) - c) = 255 - unat c" for c
    by (subst unat_sub) (simp_all add: unsigned_minus_1_eq_mask mask_eq_exp_minus_1)
  then show ?thesis using u8_le [of a] u8_le [of b] by (simp add: word_le_nat_alt) linarith
qed

text \<open>Ranking by reputation: \<open>best_peers_by_status\<close> returns exactly the peers that satisfy the
  predicate, each as often as it occurs, in an order in which reputations never increase; and
  \<open>best_by_status\<close> names one of them with the highest reputation, the reputation of the first one of
  the ranking, and nobody only when there is none.\<close>

theorem best_peers_ranking:
  shows "mset (best_peers_by_status db is_status) =
           filter_mset (\<lambda>(_, info). is_status (connection_status info)) (mset (peers db)) \<and>
         sorted_wrt (\<lambda>(_, i) (_, j). reputation j \<le> reputation i) (best_peers_by_status db is_status) \<and>
         (case best_by_status db is_status of
            None \<Rightarrow> best_peers_by_status db is_status = []
          | Some p \<Rightarrow> \<exists>info. (p, info) \<in> set (peers db) \<and> is_status (connection_status info) \<and>
                       reputation info = reputation (snd (hd (best_peers_by_status db is_status))))"
proof (intro conjI)
  let ?f = "filter (\<lambda>(_, info). is_status (connection_status info)) (peers db)"
  let ?key = "\<lambda>(_, info). (- 1 :: rep) - reputation info"
  have best: "best_peers_by_status db is_status = sort_key ?key ?f" by (simp add: best_peers_by_status_def)
  show "mset (best_peers_by_status db is_status) =
           filter_mset (\<lambda>(_, info). is_status (connection_status info)) (mset (peers db))"
    by (simp add: best)
  have "sorted (map ?key (sort_key ?key ?f))" by simp
  then show srt: "sorted_wrt (\<lambda>(_, i) (_, j). reputation j \<le> reputation i) (best_peers_by_status db is_status)"
    by (simp add: best sorted_wrt_map case_prod_unfold rep_key_le)
  show "case best_by_status db is_status of
            None \<Rightarrow> best_peers_by_status db is_status = []
          | Some p \<Rightarrow> \<exists>info. (p, info) \<in> set (peers db) \<and> is_status (connection_status info) \<and>
                       reputation info = reputation (snd (hd (best_peers_by_status db is_status)))"
  proof (cases "max_by_key (\<lambda>(_, info). reputation info) ?f")
    case None
    then have "?f = []" by (simp only: max_by_key_None)
    with None show ?thesis by (simp add: best best_by_status_def)
  next
    case (Some x)
    obtain p info where x: "x = (p, info)" by (cases x)
    from max_by_key_Some(1) [OF Some] have mem: "(p, info) \<in> set ?f" by (simp add: x)
    then obtain h t where ht: "sort_key ?key ?f = h # t" by (cases "sort_key ?key ?f") (auto dest: arg_cong [where f = set])
    have "h \<in> set ?f" using ht by (metis set_sort list.set_intros(1))
    with max_by_key_Some(2) [OF Some, of h] have "reputation (snd h) \<le> reputation info" by (simp add: x case_prod_unfold)
    moreover have "(p, info) \<in> set (h # t)" using mem ht by (metis set_sort)
    then have "reputation info \<le> reputation (snd h)"
      using srt unfolding best ht by (auto simp: case_prod_unfold)
    ultimately show ?thesis using mem Some by (auto simp: best best_by_status_def ht x)
  qed
qed

text \<open>A reputation change moves the reputation of a known peer by exactly its amount, stopping
  at 0 and 255 instead of wrapping; the worst change always leads to 0. No other field, no other
  peer and no counter changes, and for an unknown peer nothing is done at all.\<close>

theorem add_reputation_saturates:
  shows "(case peerdb_info db p of
            None \<Rightarrow> add_reputation p c db = db
          | Some info \<Rightarrow>
              (\<exists>info'. peerdb_info (add_reputation p c db) p = Some info' \<and>
                 unat (reputation info') =
                   (if is_good c then min (unat (reputation info) + unat (diff c)) 255
                    else unat (reputation info) - unat (diff c)) \<and>
                 info' = info\<lparr> reputation := reputation info' \<rparr>) \<and>
              peerdb_reputation (add_reputation p rep_worst db) p = 0) \<and>
         n_dc (add_reputation p c db) = n_dc db \<and>
         (\<forall>q. q \<noteq> p \<longrightarrow> peerdb_info (add_reputation p c db) q = peerdb_info db q)"
  by (auto simp: add_reputation_def peerdb_info_def peerdb_reputation_def rep_worst_def unat_saturating_add
      unat_saturating_sub split: option.splits)

theorem add_reputation_saturates_witness:
  "peerdb_info (add_reputation [1] (rep_good 20) \<lparr> peers = [([2], peer_info_default)], n_dc = 0 \<rparr>) [2] =
   peerdb_info \<lparr> peers = [([2], peer_info_default)], n_dc = 0 \<rparr> [2]"
  using add_reputation_saturates [where db = "\<lparr> peers = [([2], peer_info_default)], n_dc = 0 \<rparr>" and p = "[1]"]
  by simp

end
