(* ===== verification/Network_Config.thy ===== *)
theory Network_Config
  imports Peer_Info
begin

text \<open>
  \<open>core/network/src/config.rs\<close>: the network configuration and its default. What the default takes from
  the build and the machine (package version, target, home directory) is an argument. Gossipsub
  and discv5 configurations are third-party builders: the records hold what the source passes to
  them (\<open>None\<close> in \<open>enr_update\<close> leaves the library's default), and the message id function that it installs is built from the third-party hash and base64.
\<close>

datatype ip_addr = V4 u32 | V6 "128 word"

definition DEFAULT_CLIENT_NAME :: string where
  "DEFAULT_CLIENT_NAME = ''mothra''"

definition GOSSIP_MAX_SIZE :: nat where
  "GOSSIP_MAX_SIZE = 1048576"

record gossipsub_config =
  max_transmit_size :: nat
  heartbeat_interval :: duration
  manual_propagation :: bool
  no_source_id :: bool

record discv5_config =
  packet_filter :: bool
  session_cache_capacity :: nat
  d5_request_timeout :: duration
  request_retries :: nat
  enr_peer_update_min :: nat
  query_parallelism :: nat
  query_timeout :: duration
  query_peer_timeout :: duration
  ip_limit :: bool
  ping_interval :: duration
  enr_update :: "bool option"

record 'enr network_config =
  cfg_agent_version :: string
  cfg_protocol_version :: string
  network_dir :: string
  listen_address :: ip_addr
  libp2p_port :: u16
  discovery_port :: u16
  enr_address :: "ip_addr option"
  enr_udp_port :: "u16 option"
  enr_tcp_port :: "u16 option"
  max_peers :: nat
  secret_key_hex :: "string option"
  gs_config :: gossipsub_config
  discv5_config :: discv5_config
  boot_nodes :: "'enr list"
  libp2p_nodes :: "multiaddr list"
  disable_discovery :: bool
  cfg_topics :: "string list"
  propagation_percentage :: "u8 option"

definition gs_config_default :: gossipsub_config where
  "gs_config_default = \<lparr> max_transmit_size = GOSSIP_MAX_SIZE, heartbeat_interval = from_secs 1,
                         manual_propagation = True, no_source_id = True \<rparr>"

text \<open>base64(SHA256(data)), the content address of a gossip message.\<close>

definition gossip_message_id :: "(u8 list \<Rightarrow> u8 list) \<Rightarrow> (u8 list \<Rightarrow> string) \<Rightarrow> u8 list \<Rightarrow> string" where
  "gossip_message_id sha256 base64_url_safe message_data = base64_url_safe (sha256 message_data)"

definition discv5_config_default :: discv5_config where
  "discv5_config_default =
     \<lparr> packet_filter = True, session_cache_capacity = 1000, d5_request_timeout = from_secs 4,
       request_retries = 2, enr_peer_update_min = 2, query_parallelism = 5, query_timeout = from_secs 30,
       query_peer_timeout = from_secs 2, ip_limit = True, ping_interval = from_secs 300,
       enr_update = None \<rparr>"

text \<open>\<open>version\<close> is \<open>CARGO_PKG_VERSION\<close>, \<open>home\<close> the result of \<open>dirs::home_dir()\<close>; a path is a string
  with its components separated by slashes, and pushing a relative name adds a slash where one is
  needed.\<close>

definition path_push :: "string \<Rightarrow> string \<Rightarrow> string" where
  "path_push dir name = (if dir = [] \<or> last dir = CHR ''/'' then dir @ name else dir @ ''/'' @ name)"

definition config_default :: "string \<Rightarrow> string \<Rightarrow> string \<Rightarrow> string option \<Rightarrow> 'enr network_config" where
  "config_default version arch os home =
     \<lparr> cfg_agent_version = DEFAULT_CLIENT_NAME @ ''/'' @ (''v'' @ version) @ ''/'' @ (arch @ ''-'' @ os),
       cfg_protocol_version = DEFAULT_CLIENT_NAME @ ''/libp2p'',
       network_dir = path_push (path_push (case home of Some h \<Rightarrow> h | None \<Rightarrow> ''.'') (''.'' @ DEFAULT_CLIENT_NAME)) ''network'',
       listen_address = V4 0x7f000001,
       libp2p_port = 9000, discovery_port = 9000,
       enr_address = None, enr_udp_port = None, enr_tcp_port = None,
       max_peers = 50, secret_key_hex = None,
       gs_config = gs_config_default, discv5_config = discv5_config_default,
       boot_nodes = [], libp2p_nodes = [], disable_discovery = False, cfg_topics = [],
       propagation_percentage = None \<rparr>"

text \<open>\<open>unused_port\<close>: the results of binding a socket to port 0 and of reading its address back come
  from the operating system.\<close>

definition unused_port ::
  "string + (string + u16) \<Rightarrow> string + (string + u16) \<Rightarrow> string \<Rightarrow> string + u16" where
  "unused_port tcp_bind udp_bind transport =
     (if transport = ''tcp'' then
        (case tcp_bind of
           Inl err \<Rightarrow> Inl (''Failed to create TCP listener to find unused port: '' @ err)
         | Inr (Inl err) \<Rightarrow> Inl (''Failed to read TCP listener local_addr to find unused port: '' @ err)
         | Inr (Inr port) \<Rightarrow> Inr port)
      else if transport = ''udp'' then
        (case udp_bind of
           Inl err \<Rightarrow> Inl (''Failed to create UDP socket to find unused port: '' @ err)
         | Inr (Inl err) \<Rightarrow> Inl (''Failed to read UDP socket local_addr to find unused port: '' @ err)
         | Inr (Inr port) \<Rightarrow> Inr port)
      else Inl ''Invalid transport to find unused port'')"

section \<open>Properties\<close>

text \<open>A node with the default configuration is recognised by its peers: its agent string, read
  by \<open>client_from_agent_version\<close> on the other side, gives the client name, the version and the
  platform it was made from.\<close>

theorem default_agent_recognised:
  assumes "CHR ''/'' \<notin> set version" "CHR ''/'' \<notin> set arch" "CHR ''/'' \<notin> set os"
  shows "client_from_agent_version (cfg_agent_version (config_default version arch os home :: 'enr network_config)) =
           (KnownClient ''mothra'', ''v'' @ version, arch @ ''-'' @ os)"
  using assms client_from_pieces_aux [of "''mothra''" "''v'' @ version" "arch @ ''-'' @ os" "[]"]
  by (simp add: config_default_def DEFAULT_CLIENT_NAME_def)

theorem default_agent_recognised_witness:
  "client_from_agent_version (cfg_agent_version (config_default ''0.1.0'' ''x86_64'' ''linux'' None :: unit network_config)) =
     (KnownClient ''mothra'', ''v0.1.0'', ''x86_64-linux'')"
  using default_agent_recognised [of "''0.1.0''" "''x86_64''" "''linux''", where ?'enr = unit] by simp

end
