(* ===== verification/Enr_Records.thy ===== *)
theory Enr_Records
  imports Network_Config
begin

text \<open>
  \<open>core/network/src/discovery/enr.rs\<close> (building, comparing, loading and saving the node record) and
  \<open>enr_ext.rs\<close> (addresses of a record, conversions between keys, peer ids and node ids).

  Node records, their builder and the key types are third-party code (\<open>enr\<close>, \<open>libp2p\<close>,
  \<open>tiny_keccak\<close>): the records \<open>enr_lib\<close> and \<open>key_lib\<close> hold the operations that the source calls, and
  the locales \<open>enr_api\<close> and \<open>key_api\<close> what it relies on. The record file is the state \<open>disk_file\<close>.
\<close>

section \<open>The libraries\<close>

datatype keypair = Secp256k1Pair "u8 list" | Ed25519Pair "u8 list" | RsaPair "u8 list"
datatype libp2p_key = Secp256k1Key "u8 list" | Ed25519Key "u8 list" | RsaKey "u8 list"
datatype enr_public_key = Secp256k1Pub "u8 list" | Ed25519Pub "u8 list"

type_synonym node_id = "u8 list"

record 'k key_lib =
  secp_secret_parse :: "u8 list \<Rightarrow> 'k option"
  ed_secret_from_bytes :: "u8 list \<Rightarrow> 'k option"
  secp_decode :: "u8 list \<Rightarrow> u8 list option"
  ed_decode :: "u8 list \<Rightarrow> u8 list option"
  peer_id_from_public_key :: "libp2p_key \<Rightarrow> peer_id"
  from_protobuf_encoding :: "u8 list \<Rightarrow> string + libp2p_key"
  encode_uncompressed :: "u8 list \<Rightarrow> u8 list"
  keccak256 :: "u8 list \<Rightarrow> u8 list"

record ('b, 'e, 'k) enr_lib =
  builder_new :: "string \<Rightarrow> 'b"
  builder_ip :: "ip_addr \<Rightarrow> 'b \<Rightarrow> 'b"
  builder_udp :: "u16 \<Rightarrow> 'b \<Rightarrow> 'b"
  builder_tcp :: "u16 \<Rightarrow> 'b \<Rightarrow> 'b"
  builder_add_value :: "string \<Rightarrow> u8 list \<Rightarrow> 'b \<Rightarrow> 'b"
  builder_build :: "'k \<Rightarrow> 'b \<Rightarrow> string + 'e"
  enr_ip :: "'e \<Rightarrow> u32 option"
  enr_ip6 :: "'e \<Rightarrow> 128 word option"
  enr_udp :: "'e \<Rightarrow> u16 option"
  enr_tcp :: "'e \<Rightarrow> u16 option"
  enr_udp6 :: "'e \<Rightarrow> u16 option"
  enr_tcp6 :: "'e \<Rightarrow> u16 option"
  enr_get :: "'e \<Rightarrow> string \<Rightarrow> u8 list option"
  enr_seq :: "'e \<Rightarrow> u64"
  enr_set_seq :: "u64 \<Rightarrow> 'k \<Rightarrow> 'e \<Rightarrow> string + 'e"
  enr_node_id :: "'e \<Rightarrow> node_id"
  enr_public_key :: "'e \<Rightarrow> enr_public_key"
  enr_to_base64 :: "'e \<Rightarrow> string"
  enr_from_str :: "string \<Rightarrow> string + 'e"

section \<open>enr\_ext.rs\<close>

text \<open>The \<open>expect\<close>s on third-party parsers panic when the parser refuses.\<close>

fun into_peer_id :: "'k key_lib \<Rightarrow> enr_public_key \<Rightarrow> peer_id option" where
  "into_peer_id kl (Secp256k1Pub pk_bytes) =
     map_option (\<lambda>pk. peer_id_from_public_key kl (Secp256k1Key pk)) (secp_decode kl pk_bytes)"
| "into_peer_id kl (Ed25519Pub pk_bytes) =
     map_option (\<lambda>pk. peer_id_from_public_key kl (Ed25519Key pk)) (ed_decode kl pk_bytes)"

definition enr_peer_id :: "('b, 'e, 'k) enr_lib \<Rightarrow> 'k key_lib \<Rightarrow> 'e \<Rightarrow> peer_id option" where
  "enr_peer_id el kl enr = into_peer_id kl (enr_public_key el enr)"

definition enr_multiaddr :: "('b, 'e, 'k) enr_lib \<Rightarrow> 'e \<Rightarrow> multiaddr list" where
  "enr_multiaddr el enr =
     (case enr_ip el enr of
        None \<Rightarrow> []
      | Some ip \<Rightarrow>
          (case enr_udp el enr of None \<Rightarrow> [] | Some udp \<Rightarrow> [[Ip4 ip, Udp udp]]) @
          (case enr_tcp el enr of None \<Rightarrow> [] | Some tcp \<Rightarrow> [[Ip4 ip, Tcp tcp]])) @
     (case enr_ip6 el enr of
        None \<Rightarrow> []
      | Some ip6 \<Rightarrow>
          (case enr_udp6 el enr of None \<Rightarrow> [] | Some udp6 \<Rightarrow> [[Ip6 ip6, Udp udp6]]) @
          (case enr_tcp6 el enr of None \<Rightarrow> [] | Some tcp6 \<Rightarrow> [[Ip6 ip6, Tcp tcp6]]))"

definition enr_multiaddr_p2p :: "('b, 'e, 'k) enr_lib \<Rightarrow> 'k key_lib \<Rightarrow> 'e \<Rightarrow> multiaddr list option" where
  "enr_multiaddr_p2p el kl enr =
     (case enr_peer_id el kl enr of
        None \<Rightarrow> None
      | Some peer_id \<Rightarrow> Some (
          (case enr_ip el enr of
             None \<Rightarrow> []
           | Some ip \<Rightarrow>
               (case enr_udp el enr of None \<Rightarrow> [] | Some udp \<Rightarrow> [[Ip4 ip, Udp udp, P2p peer_id]]) @
               (case enr_tcp el enr of None \<Rightarrow> [] | Some tcp \<Rightarrow> [[Ip4 ip, Tcp tcp, P2p peer_id]])) @
          (case enr_ip6 el enr of
             None \<Rightarrow> []
           | Some ip6 \<Rightarrow>
               (case enr_udp6 el enr of None \<Rightarrow> [] | Some udp6 \<Rightarrow> [[Ip6 ip6, Udp udp6, P2p peer_id]]) @
               (case enr_tcp6 el enr of None \<Rightarrow> [] | Some tcp6 \<Rightarrow> [[Ip6 ip6, Tcp tcp6, P2p peer_id]]))))"

definition enr_multiaddr_tcp :: "('b, 'e, 'k) enr_lib \<Rightarrow> 'e \<Rightarrow> multiaddr list" where
  "enr_multiaddr_tcp el enr =
     (case enr_ip el enr of
        None \<Rightarrow> []
      | Some ip \<Rightarrow> (case enr_tcp el enr of None \<Rightarrow> [] | Some tcp \<Rightarrow> [[Ip4 ip, Tcp tcp]])) @
     (case enr_ip6 el enr of
        None \<Rightarrow> []
      | Some ip6 \<Rightarrow> (case enr_tcp6 el enr of None \<Rightarrow> [] | Some tcp6 \<Rightarrow> [[Ip6 ip6, Tcp tcp6]]))"

fun combined_key_from_libp2p :: "'k key_lib \<Rightarrow> keypair \<Rightarrow> (string + 'k) option" where
  "combined_key_from_libp2p kl (Secp256k1Pair secret) = map_option Inr (secp_secret_parse kl secret)"
| "combined_key_from_libp2p kl (Ed25519Pair encoded) =
     (if length encoded < 32 then None
      else map_option Inr (ed_secret_from_bytes kl (take 32 encoded)))"
| "combined_key_from_libp2p kl (RsaPair _) = Some (Inl ''ENR: Unsupported libp2p key type'')"

definition node_id_parse :: "u8 list \<Rightarrow> node_id option" where
  "node_id_parse bytes = (if length bytes = 32 then Some bytes else None)"

definition peer_id_to_node_id :: "'k key_lib \<Rightarrow> peer_id \<Rightarrow> (string + node_id) option" where
  "peer_id_to_node_id kl peer_id =
     (if length peer_id < 2 then None
      else (case from_protobuf_encoding kl (drop 2 peer_id) of
              Inl err \<Rightarrow> Some (Inl ('' Cannot parse libp2p public key public key from peer id: '' @ err))
            | Inr (Secp256k1Key pk) \<Rightarrow>
                map_option Inr (node_id_parse (keccak256 kl (drop 1 (encode_uncompressed kl pk))))
            | Inr (Ed25519Key pk) \<Rightarrow> map_option Inr (node_id_parse (keccak256 kl pk))
            | Inr (RsaKey _) \<Rightarrow> Some (Inl ''Unsupported public key'')))"

section \<open>enr.rs\<close>

definition ETH2_ENR_KEY :: string where "ETH2_ENR_KEY = ''eth2''"
definition BITFIELD_ENR_KEY :: string where "BITFIELD_ENR_KEY = ''attnets''"
definition ENR_FILENAME :: string where "ENR_FILENAME = ''enr.dat''"

type_synonym enr_fork_id = "u8 list"

definition build_enr ::
  "('b, 'e, 'k) enr_lib \<Rightarrow> 'k \<Rightarrow> 'e network_config \<Rightarrow> enr_fork_id \<Rightarrow> string + 'e" where
  "build_enr el enr_key config enr_fork_id =
     (let b = builder_new el ''v4'';
          b = (case enr_address config of Some a \<Rightarrow> builder_ip el a b | None \<Rightarrow> b);
          b = (case enr_udp_port config of Some p \<Rightarrow> builder_udp el p b | None \<Rightarrow> b);
          tcp_port = (case enr_tcp_port config of Some p \<Rightarrow> p | None \<Rightarrow> libp2p_port config);
          b = builder_tcp el tcp_port b;
          b = builder_add_value el ETH2_ENR_KEY enr_fork_id b;
          b = builder_add_value el BITFIELD_ENR_KEY (replicate 8 0) b
      in (case builder_build el enr_key (builder_tcp el (libp2p_port config) b) of
            Inl err \<Rightarrow> Inl (''Could not build Local ENR: '' @ err)
          | Inr enr \<Rightarrow> Inr enr))"

definition compare_enr :: "('b, 'e, 'k) enr_lib \<Rightarrow> 'e \<Rightarrow> 'e \<Rightarrow> bool" where
  "compare_enr el local_enr disk_enr \<longleftrightarrow>
     (enr_ip el local_enr = None \<or> enr_ip el local_enr = enr_ip el disk_enr) \<and>
     enr_tcp el local_enr = enr_tcp el disk_enr \<and>
     enr_get el local_enr ETH2_ENR_KEY = enr_get el disk_enr ETH2_ENR_KEY \<and>
     (enr_udp el local_enr = None \<or> enr_udp el local_enr = enr_udp el disk_enr) \<and>
     enr_get el local_enr BITFIELD_ENR_KEY = enr_get el disk_enr BITFIELD_ENR_KEY"

text \<open>The file \<open>enr.dat\<close> of the network directory. \<open>write_file\<close> is what the file system makes of
  creating the file and writing a string, errors included.\<close>

datatype disk_file = NoFile | Unreadable | FileContent string

definition save_enr_to_disk ::
  "('b, 'e, 'k) enr_lib \<Rightarrow> (disk_file \<Rightarrow> string \<Rightarrow> disk_file) \<Rightarrow> 'e \<Rightarrow> disk_file \<Rightarrow> disk_file" where
  "save_enr_to_disk el write_file enr disk = write_file disk (enr_to_base64 el enr)"

text \<open>The file part of \<open>build_or_load_enr\<close>: an error of \<open>?\<close>, a record to return at once, or the local
  record to go on with.\<close>

datatype 'e load_result = LoadErr string | UseDisk 'e | UseLocal 'e

definition load_enr ::
  "('b, 'e, 'k) enr_lib \<Rightarrow> 'k \<Rightarrow> 'e \<Rightarrow> disk_file \<Rightarrow> 'e load_result" where
  "load_enr el enr_key local_enr disk =
     (case disk of
        NoFile \<Rightarrow> UseLocal local_enr
      | Unreadable \<Rightarrow> UseLocal local_enr
      | FileContent enr_string \<Rightarrow>
          (case enr_from_str el enr_string of
             Inl _ \<Rightarrow> UseLocal local_enr
           | Inr disk_enr \<Rightarrow>
               if enr_node_id el local_enr = enr_node_id el disk_enr then
                 if compare_enr el local_enr disk_enr then UseDisk disk_enr
                 else (case checked_add (enr_seq el disk_enr) 1 of
                         None \<Rightarrow> LoadErr ''ENR sequence number on file is too large. Remove it to generate a new NodeId''
                       | Some new_seq_no \<Rightarrow>
                           (case enr_set_seq el new_seq_no enr_key local_enr of
                              Inl err \<Rightarrow> LoadErr (''Could not update ENR sequence number: '' @ err)
                            | Inr enr \<Rightarrow> UseLocal enr))
               else UseLocal local_enr))"

definition build_or_load_enr ::
  "('b, 'e, 'k) enr_lib \<Rightarrow> 'k key_lib \<Rightarrow> (disk_file \<Rightarrow> string \<Rightarrow> disk_file) \<Rightarrow> keypair \<Rightarrow>
   'e network_config \<Rightarrow> enr_fork_id \<Rightarrow> disk_file \<Rightarrow> ((string + 'e) \<times> disk_file) option" where
  "build_or_load_enr el kl write_file local_key config enr_fork_id disk =
     (case combined_key_from_libp2p kl local_key of
        None \<Rightarrow> None
      | Some (Inl err) \<Rightarrow> Some (Inl err, disk)
      | Some (Inr enr_key) \<Rightarrow>
          (case build_enr el enr_key config enr_fork_id of
             Inl err \<Rightarrow> Some (Inl err, disk)
           | Inr local_enr \<Rightarrow>
               (case load_enr el enr_key local_enr disk of
                  LoadErr err \<Rightarrow> Some (Inl err, disk)
                | UseDisk disk_enr \<Rightarrow> Some (Inr disk_enr, disk)
                | UseLocal enr \<Rightarrow> Some (Inr enr, save_enr_to_disk el write_file enr disk))))"

section \<open>What the libraries promise\<close>

text \<open>A record is a map from keys to values. Some of the keys are taken: \<open>ip\<close>, \<open>udp\<close>, \<open>tcp\<close> and their
  variants for IPv6 hold the addresses, and \<open>build\<close> adds the identity scheme and the public key. What
  \<open>add_value\<close> and \<open>get\<close> do with one of these is not part of the contract.\<close>

definition enr_reserved :: "string set" where
  "enr_reserved = {''id'', ''ip'', ''ip6'', ''tcp'', ''tcp6'', ''udp'', ''udp6'', ''secp256k1'', ''ed25519''}"

text \<open>For the other keys the builder remembers the last value that was added, and so it does for the
  address and the ports; a record has the fields of the builder it was built from and the node id of its
  key; \<open>set_seq\<close> changes the sequence number (and the signature) only; the text form of a record is read
  back as the same record.\<close>

locale enr_api =
  fixes el :: "('b, 'e, 'k) enr_lib"
    and b_ip :: "'b \<Rightarrow> u32 option" and b_udp b_tcp :: "'b \<Rightarrow> u16 option"
    and b_get :: "'b \<Rightarrow> string \<Rightarrow> u8 list option"
    and key_node :: "'k \<Rightarrow> node_id"
  assumes b_new: "b_ip (builder_new el i) = None" "b_udp (builder_new el i) = None"
    and b_ip_law: "b_ip (builder_ip el a b) = (case a of V4 x \<Rightarrow> Some x | V6 _ \<Rightarrow> b_ip b)"
      "b_ip (builder_udp el p b) = b_ip b" "b_ip (builder_tcp el p b) = b_ip b"
      "k \<notin> enr_reserved \<Longrightarrow> b_ip (builder_add_value el k v b) = b_ip b"
    and b_udp_law: "b_udp (builder_udp el p b) = Some p"
      "b_udp (builder_ip el a b) = b_udp b" "b_udp (builder_tcp el p b) = b_udp b"
      "k \<notin> enr_reserved \<Longrightarrow> b_udp (builder_add_value el k v b) = b_udp b"
    and b_tcp_law: "b_tcp (builder_tcp el p b) = Some p"
    and b_get_law: "b_get (builder_add_value el k v b) k' = (if k' = k then Some v else b_get b k')"
      "k' \<notin> enr_reserved \<Longrightarrow> b_get (builder_tcp el p b) k' = b_get b k'"
    and build_law: "builder_build el key b = Inr e \<Longrightarrow> enr_ip el e = b_ip b"
      "builder_build el key b = Inr e \<Longrightarrow> enr_udp el e = b_udp b"
      "builder_build el key b = Inr e \<Longrightarrow> enr_tcp el e = b_tcp b"
      "builder_build el key b = Inr e \<Longrightarrow> k \<notin> enr_reserved \<Longrightarrow> enr_get el e k = b_get b k"
      "builder_build el key b = Inr e \<Longrightarrow> enr_node_id el e = key_node key"
    and set_seq_law: "enr_set_seq el n key e = Inr e' \<Longrightarrow> enr_seq el e' = n"
      "enr_set_seq el n key e = Inr e' \<Longrightarrow> enr_ip el e' = enr_ip el e"
      "enr_set_seq el n key e = Inr e' \<Longrightarrow> enr_udp el e' = enr_udp el e"
      "enr_set_seq el n key e = Inr e' \<Longrightarrow> enr_tcp el e' = enr_tcp el e"
      "enr_set_seq el n key e = Inr e' \<Longrightarrow> enr_get el e' k = enr_get el e k"
      "enr_set_seq el n key e = Inr e' \<Longrightarrow> enr_node_id el e' = enr_node_id el e"
    and base64_law: "enr_from_str el (enr_to_base64 el e) = Inr e"
begin

lemma build_enr_fields:
  assumes "build_enr el key config fork = Inr e"
  shows "enr_ip el e = (case enr_address config of Some (V4 a) \<Rightarrow> Some a | _ \<Rightarrow> None)"
    and "enr_udp el e = enr_udp_port config"
    and "enr_tcp el e = Some (libp2p_port config)"
    and "enr_get el e ETH2_ENR_KEY = Some fork"
    and "enr_get el e BITFIELD_ENR_KEY = Some (replicate 8 0)"
    and "enr_node_id el e = key_node key"
  using assms
  by (auto simp: build_enr_def Let_def build_law b_new b_ip_law b_udp_law b_tcp_law b_get_law
      ETH2_ENR_KEY_def BITFIELD_ENR_KEY_def enr_reserved_def split: option.splits sum.splits ip_addr.splits)

lemma load_enr_same_fields:
  assumes "load_enr el key e disk = UseLocal e'"
  shows "compare_enr el e e' \<and> enr_node_id el e' = enr_node_id el e"
  using assms
  by (auto simp: load_enr_def compare_enr_def set_seq_law split: disk_file.splits sum.splits option.splits if_splits)

text \<open>Loading the record that was just saved.\<close>

lemma load_saved:
  assumes "load_enr el key e disk = UseLocal e'"
  shows "load_enr el key e (FileContent (enr_to_base64 el e')) = UseDisk e'"
  using load_enr_same_fields [OF assms] by (simp add: load_enr_def base64_law)

lemma load_enr_seq:
  assumes "enr_from_str el s = Inr d" and "enr_node_id el e = enr_node_id el d"
    and "load_enr el key e (FileContent s) = UseLocal e'"
  shows "unat (enr_seq el e') = unat (enr_seq el d) + 1"
  using assms
  by (auto simp: load_enr_def set_seq_law dest!: checked_add_Some_unat split: if_splits option.splits sum.splits)

end

text \<open>Short keys have peer ids that contain the key itself behind two bytes, Keccak-256 gives 32 bytes,
  and the node id of a record is the hash of its uncompressed public key.\<close>

locale key_api =
  fixes kl :: "'k key_lib" and el :: "('b, 'e, 'k) enr_lib"
  assumes peer_id_short: "2 \<le> length (peer_id_from_public_key kl pk)"
    and peer_id_identity:
      "from_protobuf_encoding kl (drop 2 (peer_id_from_public_key kl (Secp256k1Key x))) = Inr (Secp256k1Key x)"
      "from_protobuf_encoding kl (drop 2 (peer_id_from_public_key kl (Ed25519Key x))) = Inr (Ed25519Key x)"
    and keccak_length: "length (keccak256 kl xs) = 32"
    and node_id_law:
      "enr_public_key el e = Secp256k1Pub c \<Longrightarrow> secp_decode kl c = Some x \<Longrightarrow>
         enr_node_id el e = keccak256 kl (drop 1 (encode_uncompressed kl x))"
      "enr_public_key el e = Ed25519Pub c \<Longrightarrow> ed_decode kl c = Some x \<Longrightarrow> enr_node_id el e = keccak256 kl x"
begin

lemma node_id_of_peer_id:
  assumes "enr_peer_id el kl e = Some p"
  shows "peer_id_to_node_id kl p = Some (Inr (enr_node_id el e))"
proof (cases "enr_public_key el e")
  case (Secp256k1Pub c)
  with assms obtain x where "secp_decode kl c = Some x" "p = peer_id_from_public_key kl (Secp256k1Key x)"
    by (auto simp: enr_peer_id_def)
  with Secp256k1Pub show ?thesis
    using peer_id_short by (simp add: peer_id_to_node_id_def peer_id_identity node_id_parse_def keccak_length
        node_id_law not_less)
next
  case (Ed25519Pub c)
  with assms obtain x where "ed_decode kl c = Some x" "p = peer_id_from_public_key kl (Ed25519Key x)"
    by (auto simp: enr_peer_id_def)
  with Ed25519Pub show ?thesis
    using peer_id_short by (simp add: peer_id_to_node_id_def peer_id_identity node_id_parse_def keccak_length
        node_id_law not_less)
qed

end

section \<open>Libraries that satisfy the contracts\<close>

text \<open>A record is a list of fields, each a list of numbers (a leading 1 for a field that is present),
  in the order sequence number, ip, udp, tcp, key, then the values with their names; its text form
  writes the numbers in unary, each ended with a comma, and each field ended with a semicolon.\<close>

type_synonym ref_enr = "nat list list"

record ref_builder =
  rb_ip :: "u32 option"
  rb_udp :: "u16 option"
  rb_tcp :: "u16 option"
  rb_values :: "(string \<times> u8 list) list"

definition ref_opt :: "'a::len word option \<Rightarrow> nat list" where
  "ref_opt x = (case x of None \<Rightarrow> [0] | Some n \<Rightarrow> [1, unat n])"

definition ref_number :: "ref_enr \<Rightarrow> nat \<Rightarrow> 'a::len word option" where
  "ref_number e i = (if i < length e \<and> length (e ! i) = 2 then Some (word_of_nat (e ! i ! 1)) else None)"

definition ref_key :: "ref_enr \<Rightarrow> u8 list" where
  "ref_key e = (if 4 < length e then map word_of_nat (e ! 4) else [])"

fun ref_values :: "ref_enr \<Rightarrow> (string \<times> u8 list) list" where
  "ref_values (k # v # e) = (map char_of k, map word_of_nat v) # ref_values e"
| "ref_values _ = []"

definition ref_build :: "u8 list \<Rightarrow> ref_builder \<Rightarrow> ref_enr" where
  "ref_build key b =
     [[1, 1], ref_opt (rb_ip b), ref_opt (rb_udp b), ref_opt (rb_tcp b), map unat key] @
     concat (map (\<lambda>(k, v). [map of_char k, map unat v]) (rb_values b))"

fun ref_encode :: "ref_enr \<Rightarrow> string" where
  "ref_encode [] = []"
| "ref_encode ([] # e) = CHR '';'' # ref_encode e"
| "ref_encode ((0 # ns) # e) = CHR '','' # ref_encode (ns # e)"
| "ref_encode ((Suc n # ns) # e) = CHR ''1'' # ref_encode ((n # ns) # e)"

fun ref_decode :: "nat \<Rightarrow> nat list \<Rightarrow> string \<Rightarrow> ref_enr" where
  "ref_decode n ns [] = []"
| "ref_decode n ns (c # s) =
     (if c = CHR ''1'' then ref_decode (Suc n) ns s
      else if c = CHR '','' then ref_decode 0 (ns @ [n]) s
      else ns # ref_decode 0 [] s)"

definition ref_enr_lib :: "(ref_builder, ref_enr, u8 list) enr_lib" where
  "ref_enr_lib =
     \<lparr> builder_new = (\<lambda>_. \<lparr> rb_ip = None, rb_udp = None, rb_tcp = None, rb_values = [] \<rparr>),
       builder_ip = (\<lambda>a b. case a of V4 x \<Rightarrow> b\<lparr> rb_ip := Some x \<rparr> | V6 _ \<Rightarrow> b),
       builder_udp = (\<lambda>p b. b\<lparr> rb_udp := Some p \<rparr>), builder_tcp = (\<lambda>p b. b\<lparr> rb_tcp := Some p \<rparr>),
       builder_add_value = (\<lambda>k v b. b\<lparr> rb_values := AList.update k v (rb_values b) \<rparr>),
       builder_build = (\<lambda>key b. Inr (ref_build key b)),
       enr_ip = (\<lambda>e. ref_number e 1), enr_ip6 = (\<lambda>_. None),
       enr_udp = (\<lambda>e. ref_number e 2), enr_tcp = (\<lambda>e. ref_number e 3),
       enr_udp6 = (\<lambda>_. None), enr_tcp6 = (\<lambda>_. None),
       enr_get = (\<lambda>e. map_of (ref_values (drop 5 e))),
       enr_seq = (\<lambda>e. case ref_number e 0 of Some n \<Rightarrow> n | None \<Rightarrow> 0),
       enr_set_seq = (\<lambda>n _ e. if e = [] then Inl ''empty record'' else Inr (e[0 := [1, unat n]])),
       enr_node_id = (\<lambda>e. take 32 (ref_key e @ replicate 32 0)),
       enr_public_key = (\<lambda>e. Ed25519Pub (ref_key e)),
       enr_to_base64 = ref_encode, enr_from_str = (\<lambda>s. Inr (ref_decode 0 [] s)) \<rparr>"

definition ref_key_lib :: "u8 list key_lib" where
  "ref_key_lib =
     \<lparr> secp_secret_parse = Some, ed_secret_from_bytes = Some, secp_decode = Some, ed_decode = Some,
       peer_id_from_public_key =
         (\<lambda>pk. case pk of Secp256k1Key x \<Rightarrow> 0 # 1 # 2 # x | Ed25519Key x \<Rightarrow> 0 # 1 # 1 # x | RsaKey x \<Rightarrow> 0 # 1 # 0 # x),
       from_protobuf_encoding =
         (\<lambda>xs. case xs of [] \<Rightarrow> Inl ''empty'' | t # x \<Rightarrow>
            if t = 2 then Inr (Secp256k1Key x) else if t = 1 then Inr (Ed25519Key x) else Inr (RsaKey x)),
       encode_uncompressed = (\<lambda>x. 4 # x), keccak256 = (\<lambda>xs. take 32 (xs @ replicate 32 0)) \<rparr>"

lemma ref_decode_encode:
  "ref_decode n ns (ref_encode e) =
     (case e of [] \<Rightarrow> [] | f # e' \<Rightarrow> (case f of [] \<Rightarrow> ns | m # ms \<Rightarrow> ns @ (n + m) # ms) # e')"
proof (induction e arbitrary: n ns rule: ref_encode.induct)
  case (2 e)
  then show ?case by (auto split: list.splits)
next
  case (3 ks e)
  then show ?case by (cases ks) auto
qed auto

lemma ref_values_build:
  "ref_values (concat (map (\<lambda>(k, v). [map of_char k, map unat (v :: u8 list)]) vs)) = vs"
  by (induction vs) (auto simp: comp_def)

lemma ref_number_opt:
  "i < length e \<Longrightarrow> e ! i = ref_opt (x :: 'a::len word option) \<Longrightarrow> ref_number e i = x"
  by (auto simp: ref_number_def ref_opt_def split: option.splits)

lemma ref_build_law:
  "ref_number (ref_build key b) 1 = rb_ip b" "ref_number (ref_build key b) 2 = rb_udp b"
  "ref_number (ref_build key b) 3 = rb_tcp b" "ref_key (ref_build key b) = key"
  "ref_values (drop 5 (ref_build key b)) = rb_values b"
  by (auto intro!: ref_number_opt simp: ref_build_def ref_values_build ref_key_def comp_def)

lemma ref_set_seq_law:
  "ref_number (e[0 := [1, unat (n :: 'a::len word)]]) 0 = (if e = [] then None else Some n)"
  "0 < i \<Longrightarrow> ref_number (e[0 := f]) i = ref_number e i" "ref_key (e[0 := f]) = ref_key e"
  by (auto simp: ref_number_def ref_key_def)

interpretation ref_enr: enr_api ref_enr_lib rb_ip rb_udp rb_tcp "\<lambda>b. map_of (rb_values b)"
  "\<lambda>key. take 32 (key @ replicate 32 0)"
  by unfold_locales
    (auto simp: ref_enr_lib_def ref_build_law ref_build_law [simplified] ref_set_seq_law ref_set_seq_law [simplified] ref_decode_encode drop_update_cancel
      split: ip_addr.splits if_splits list.splits)

interpretation ref_keys: key_api ref_key_lib ref_enr_lib
  by unfold_locales (auto simp: ref_key_lib_def ref_enr_lib_def split: libp2p_key.splits)

section \<open>Properties\<close>

text \<open>C31. The node record on disk is stable: when a start of the node has produced a record, the
  next start with the same key, configuration and fork id loads that same record, with its sequence
  number, and leaves the file as it is.\<close>

theorem enr_stable_across_restarts:
  assumes "enr_api el b_ip b_udp b_tcp b_get key_node" and "\<And>d s. write_file d s = FileContent s"
    and "build_or_load_enr el kl write_file local_key config fork disk = Some (Inr enr, disk')"
  shows "build_or_load_enr el kl write_file local_key config fork disk' = Some (Inr enr, disk')"
  using assms(2,3) enr_api.load_saved [OF assms(1)]
  by (auto simp: build_or_load_enr_def save_enr_to_disk_def split: option.splits sum.splits load_result.splits)

theorem enr_stable_across_restarts_witness:
  "\<exists>enr disk. build_or_load_enr ref_enr_lib ref_key_lib (\<lambda>_. FileContent) (Ed25519Pair (replicate 64 7))
       (config_default ''1'' ''a'' ''l'' None) [1, 2] NoFile = Some (Inr enr, disk) \<and>
     build_or_load_enr ref_enr_lib ref_key_lib (\<lambda>_. FileContent) (Ed25519Pair (replicate 64 7))
       (config_default ''1'' ''a'' ''l'' None) [1, 2] disk = Some (Inr enr, disk)"
proof -
  let ?run = "build_or_load_enr ref_enr_lib ref_key_lib (\<lambda>_. FileContent) (Ed25519Pair (replicate 64 7))
       (config_default ''1'' ''a'' ''l'' None) [1, 2]"
  obtain enr disk where r: "?run NoFile = Some (Inr enr, disk)"
    by (simp add: build_or_load_enr_def ref_key_lib_def build_enr_def ref_enr_lib_def load_enr_def Let_def)
  from enr_stable_across_restarts [OF ref_enr.enr_api_axioms _ r] r show ?thesis by blast
qed

text \<open>C32. When the file holds a record of the same node, the node goes on with exactly that record,
  or with a new one whose sequence number is one higher than the stored one. The sequence number never
  wraps: when it cannot be increased, the start fails with an error and the file is left alone.\<close>

theorem enr_sequence_never_falls:
  assumes "enr_api el b_ip b_udp b_tcp b_get key_node"
    and "combined_key_from_libp2p kl local_key = Some (Inr key)"
    and "enr_from_str el s = Inr stored" and "enr_node_id el stored = key_node key"
    and "build_or_load_enr el kl write_file local_key config fork (FileContent s) = Some (res, disk')"
  shows "case res of
           Inr enr \<Rightarrow> enr = stored \<and> disk' = FileContent s \<or>
             unat (enr_seq el enr) = unat (enr_seq el stored) + 1 \<and>
             disk' = save_enr_to_disk el write_file enr (FileContent s)
         | Inl _ \<Rightarrow> disk' = FileContent s"
proof (cases "build_enr el key config fork")
  case (Inr e)
  have "enr_node_id el e = enr_node_id el stored"
    using enr_api.build_enr_fields(6) [OF assms(1) Inr] assms(4) by simp
  from enr_api.load_enr_seq [OF assms(1,3) this, of key]
  show ?thesis using assms(2,3,5) Inr
    by (auto simp: build_or_load_enr_def load_enr_def split: if_splits option.splits sum.splits load_result.splits)
qed (use assms(2,5) in \<open>auto simp: build_or_load_enr_def split: sum.splits\<close>)

theorem enr_sequence_never_falls_witness:
  "\<exists>stored enr disk'.
     build_or_load_enr ref_enr_lib ref_key_lib (\<lambda>_. FileContent) (Ed25519Pair (replicate 64 7))
       (config_default ''1'' ''a'' ''l'' None) [1, 2] (FileContent (ref_encode stored)) = Some (Inr enr, disk') \<and>
     enr_seq ref_enr_lib stored = 1 \<and> unat (enr_seq ref_enr_lib enr) = 2"
proof -
  let ?stored = "[[1, 1], [0], [0], [0], replicate 32 7] :: ref_enr"
  let ?run = "build_or_load_enr ref_enr_lib ref_key_lib (\<lambda>_. FileContent) (Ed25519Pair (replicate 64 7))
       (config_default ''1'' ''a'' ''l'' None) [1, 2] (FileContent (ref_encode ?stored))"
  have seq: "enr_seq ref_enr_lib ?stored = 1"
    by (simp add: ref_enr_lib_def ref_number_def)
  have str: "enr_from_str ref_enr_lib (ref_encode ?stored) = Inr ?stored"
    using ref_enr.base64_law [of ?stored] by (simp add: ref_enr_lib_def)
  have node: "enr_node_id ref_enr_lib ?stored = take 32 (replicate 32 7 @ replicate 32 0)"
    by (simp add: ref_enr_lib_def ref_key_def)
  have key: "combined_key_from_libp2p ref_key_lib (Ed25519Pair (replicate 64 7)) = Some (Inr (replicate 32 7))"
    by (simp add: ref_key_lib_def)
  let ?c = "config_default ''1'' ''a'' ''l'' None :: ref_enr network_config"
  obtain e where e: "build_enr ref_enr_lib (replicate 32 7) ?c [1, 2] = Inr e"
    by (simp add: build_enr_def ref_enr_lib_def Let_def)
  note fields = ref_enr.build_enr_fields [OF e]
  have tcp: "enr_tcp ref_enr_lib e = Some 9000" "enr_tcp ref_enr_lib ?stored = None"
    using fields(3) by (simp_all add: config_default_def ref_enr_lib_def ref_number_def)
  obtain enr where enr: "enr_set_seq ref_enr_lib 2 (replicate 32 7) e = Inr enr"
    using tcp by (cases e) (auto simp: ref_enr_lib_def ref_number_def)
  have "\<not> compare_enr ref_enr_lib e ?stored" using tcp by (simp add: compare_enr_def)
  moreover have "checked_add (1 :: u64) 1 = Some 2" by (simp add: checked_add_def)
  ultimately have "?run = Some (Inr enr, FileContent (ref_encode enr))"
    using e enr str node fields(6) seq key
    by (simp add: build_or_load_enr_def load_enr_def save_enr_to_disk_def) (simp add: ref_enr_lib_def)
  note r = this
  have "enr \<noteq> ?stored" using ref_enr.set_seq_law(4) [OF enr] tcp by auto
  with enr_sequence_never_falls [OF ref_enr.enr_api_axioms key str node r] seq
  have "unat (enr_seq ref_enr_lib enr) = 2" by (simp del: ref_encode.simps)
  with r seq show ?thesis by blast
qed

text \<open>The ports and addresses that a node announces: the UDP port and the IPv4 address of the
  configuration when there are any, and always the port libp2p listens on as TCP port, also when the
  configuration names another one to announce (\<open>enr_tcp_port\<close>, which is overwritten).\<close>

theorem build_enr_announces:
  assumes "enr_api el b_ip b_udp b_tcp b_get key_node" and "build_enr el key config fork = Inr enr"
  shows "enr_udp el enr = enr_udp_port config \<and> enr_tcp el enr = Some (libp2p_port config) \<and>
         (\<forall>a. enr_address config = Some (V4 a) \<longrightarrow> enr_ip el enr = Some a) \<and>
         (enr_address config = None \<longrightarrow> enr_ip el enr = None) \<and>
         enr_get el enr ''eth2'' = Some fork \<and> enr_get el enr ''attnets'' = Some (replicate 8 0)"
  using enr_api.build_enr_fields [OF assms] by (simp add: ETH2_ENR_KEY_def BITFIELD_ENR_KEY_def)

theorem build_enr_announces_witness:
  "\<exists>enr. build_enr ref_enr_lib [1] ((config_default ''1'' ''a'' ''l'' None)\<lparr> enr_tcp_port := Some 9001 \<rparr>) [5] = Inr enr \<and>
         enr_tcp ref_enr_lib enr = Some 9000"
proof -
  let ?c = "(config_default ''1'' ''a'' ''l'' None)\<lparr> enr_tcp_port := Some 9001 \<rparr> :: ref_enr network_config"
  obtain enr where b: "build_enr ref_enr_lib [1] ?c [5] = Inr enr"
    by (simp add: build_enr_def ref_enr_lib_def Let_def)
  from build_enr_announces [OF ref_enr.enr_api_axioms b] b show ?thesis by (simp add: config_default_def)
qed

text \<open>The addresses of a record: \<open>multiaddr_p2p\<close> gives the addresses of \<open>multiaddr\<close> in the same
  order, each with the peer id at its end, and \<open>multiaddr_tcp\<close> exactly those of them that use TCP;
  every address is an IP part followed by a port.\<close>

theorem enr_addresses_agree:
  shows "enr_multiaddr_tcp el enr = filter (\<lambda>a. \<exists>p. Tcp p \<in> set a) (enr_multiaddr el enr) \<and>
         enr_multiaddr_p2p el kl enr = map_option (\<lambda>p. map (\<lambda>a. a @ [P2p p]) (enr_multiaddr el enr)) (enr_peer_id el kl enr)"
  by (auto simp: enr_multiaddr_tcp_def enr_multiaddr_def enr_multiaddr_p2p_def split: option.splits)

text \<open>C18. Peer ids and node ids name the same node: the peer id computed from the public key of a
  record leads back, through \<open>peer_id_to_node_id\<close>, to the node id of the record, without an error.\<close>

theorem peer_id_to_node_id_correct:
  assumes "key_api kl el" and "enr_peer_id el kl enr = Some p"
  shows "peer_id_to_node_id kl p = Some (Inr (enr_node_id el enr))"
  using key_api.node_id_of_peer_id [OF assms] .

theorem peer_id_to_node_id_correct_witness:
  "peer_id_to_node_id ref_key_lib (0 # 1 # 1 # replicate 32 9) =
     Some (Inr (enr_node_id ref_enr_lib [[1, 1], [0], [0], [0], replicate 32 9]))"
  by (rule peer_id_to_node_id_correct [OF ref_keys.key_api_axioms])
    (simp add: enr_peer_id_def ref_key_lib_def ref_enr_lib_def ref_key_def)

end
