(* ===== verification/Network_Globals.thy ===== *)
theory Network_Globals
  imports Peer_DB Enr_Records
begin

text \<open>
  \<open>core/network/src/types/globals.rs\<close> and \<open>types/topics.rs\<close>: the variables that the network thread
  shares with the rest of the program. Each field is behind its own lock in the source and is read
  or written in one expression at a time; the record is the state that those expressions see.
\<close>

record gossip_topic =
  topic :: string

definition gossip_topic_new :: "string \<Rightarrow> gossip_topic" where
  "gossip_topic_new t = \<lparr> topic = t \<rparr>"

definition gossip_topic_into_string :: "gossip_topic \<Rightarrow> string" where
  "gossip_topic_into_string t = topic t"

record 'e network_globals =
  g_local_enr :: 'e
  g_fork_id :: enr_fork_id
  g_meta_data :: "u8 list"
  g_ping_data :: "u8 list"
  g_peer_id :: peer_id
  g_listen_multiaddrs :: "multiaddr list"
  g_listen_port_tcp :: u16
  g_listen_port_udp :: u16
  g_peers :: peerdb
  g_gossipsub_subscriptions :: "gossip_topic list"

definition globals_new ::
  "('b, 'e, 'k) enr_lib \<Rightarrow> 'k key_lib \<Rightarrow> 'e \<Rightarrow> enr_fork_id \<Rightarrow> u8 list \<Rightarrow> u8 list \<Rightarrow> u16 \<Rightarrow> u16 \<Rightarrow>
   'e network_globals option" where
  "globals_new el kl enr fork_id meta_data ping_data tcp_port udp_port =
     map_option (\<lambda>peer_id.
       \<lparr> g_local_enr = enr, g_fork_id = fork_id, g_meta_data = meta_data, g_ping_data = ping_data,
         g_peer_id = peer_id, g_listen_multiaddrs = [], g_listen_port_tcp = tcp_port,
         g_listen_port_udp = udp_port, g_peers = peerdb_new, g_gossipsub_subscriptions = [] \<rparr>)
       (enr_peer_id el kl enr)"

definition globals_connected_peers :: "'e network_globals \<Rightarrow> nat" where
  "globals_connected_peers g = length (connected_peer_ids (g_peers g))"

definition globals_connected_or_dialing_peers :: "'e network_globals \<Rightarrow> nat" where
  "globals_connected_or_dialing_peers g = length (connected_or_dialing_peers (g_peers g))"

definition globals_client :: "'e network_globals \<Rightarrow> peer_id \<Rightarrow> client" where
  "globals_client g p =
     (case peerdb_info (g_peers g) p of Some info \<Rightarrow> peer_client info | None \<Rightarrow> client_default)"

end
