(* ===== verification/Discovery.thy ===== *)
theory Discovery
  imports Network_Globals
begin

text \<open>
  \<open>core/network/src/discovery/mod.rs\<close>: the queue of discovery queries, the queries under way, the cache
  of seen node records and the polling function that the peer manager drives.

  The discv5 server and the LRU cache are third-party code: the record \<open>disc_lib\<close>. The futures of the
  active queries complete from outside: a poll is given the completions that \<open>FuturesUnordered\<close> yields
  in it (the position of a query among the active ones, and its result), the outcome of the event
  stream future, and the events that \<open>try_recv\<close> takes from the channel. The loop of \<open>process_queue\<close> may
  not end in a bad state, so it is a partial function; \<open>disc_inv\<close> is the invariant under which it does.
\<close>

section \<open>Data\<close>

definition MAX_CONCURRENT_QUERIES :: nat where
  "MAX_CONCURRENT_QUERIES = 1"

type_synonym socket_addr = "ip_addr \<times> u16"

datatype 'e discovery_event = QueryResult "instant option" "'e list" | SocketUpdated socket_addr

datatype query_type = Subnet subnet_id "instant option" nat | FindPeers

fun query_expired :: "env \<Rightarrow> query_type \<Rightarrow> bool" where
  "query_expired e FindPeers = False"
| "query_expired e (Subnet _ ttl_opt _) = (case ttl_opt of Some ttl \<Rightarrow> ttl > now e | None \<Rightarrow> True)"

fun query_min_ttl :: "query_type \<Rightarrow> instant option" where
  "query_min_ttl FindPeers = None"
| "query_min_ttl (Subnet _ ttl_opt _) = ttl_opt"

datatype event_stream = Awaiting | Present | InActive

datatype 'e discv5_event = Discovered 'e | D5SocketUpdated socket_addr | D5Other string

record ('d, 'l, 'e, 'k) disc_lib =
  d5_new :: "'e \<Rightarrow> 'k \<Rightarrow> discv5_config \<Rightarrow> string + 'd"
  d5_add_enr :: "'e \<Rightarrow> 'd \<Rightarrow> (string + unit) \<times> 'd"
  d5_start :: "socket_addr \<Rightarrow> 'd \<Rightarrow> 'd"
  d5_local_enr :: "'d \<Rightarrow> 'e"
  d5_table_entries_enr :: "'d \<Rightarrow> 'e list"
  d5_find_enr :: "node_id \<Rightarrow> 'd \<Rightarrow> 'e option"
  d5_enr_insert :: "string \<Rightarrow> u8 list \<Rightarrow> 'd \<Rightarrow> (string + unit) \<times> 'd"
  lru_new :: "nat \<Rightarrow> 'l"
  lru_put :: "peer_id \<Rightarrow> 'e \<Rightarrow> 'l \<Rightarrow> 'l"
  lru_get :: "peer_id \<Rightarrow> 'l \<Rightarrow> 'e option \<times> 'l"

record ('d, 'l) discovery =
  cached_enrs :: 'l
  enr_dir :: string
  discv5 :: 'd
  find_peer_active :: bool
  queued_queries :: "query_type list"
  active_queries :: "query_type list"
  d_event_stream :: event_stream
  started :: bool

section \<open>Operations\<close>

definition discovery_new ::
  "('d, 'l, 'e, 'k) disc_lib \<Rightarrow> 'k key_lib \<Rightarrow> keypair \<Rightarrow> 'e network_config \<Rightarrow> 'e network_globals \<Rightarrow>
   (string + ('d, 'l) discovery) option" where
  "discovery_new dl kl local_key config g =
     (case combined_key_from_libp2p kl local_key of
        None \<Rightarrow> None
      | Some (Inl err) \<Rightarrow> Some (Inl err)
      | Some (Inr enr_key) \<Rightarrow>
          (case d5_new dl (g_local_enr g) enr_key (network_config.discv5_config config) of
             Inl err \<Rightarrow> Some (Inl (''Discv5 service failed. Error: '' @ err))
           | Inr d0 \<Rightarrow>
               (let d1 = foldl (\<lambda>d enr. snd (d5_add_enr dl enr d)) d0 (boot_nodes config);
                    d2 = (if \<not> disable_discovery config
                          then d5_start dl (listen_address config, discovery_port config) d1 else d1)
                in Some (Inr
                     \<lparr> cached_enrs = lru_new dl 50, enr_dir = network_dir config, discv5 = d2,
                       find_peer_active = False, queued_queries = [], active_queries = [],
                       d_event_stream = (if \<not> disable_discovery config then Awaiting else InActive),
                       started = (\<not> disable_discovery config) \<rparr>))))"

definition discover_peers :: "('d, 'l) discovery \<Rightarrow> ('d, 'l) discovery" where
  "discover_peers d =
     (if \<not> started d \<or> find_peer_active d then d
      else if FindPeers \<notin> set (queued_queries d)
      then d\<lparr> queued_queries := queued_queries d @ [FindPeers] \<rparr>
      else d)"

definition cache_enr ::
  "('d, 'l, 'e, 'k) disc_lib \<Rightarrow> ('b, 'e, 'k) enr_lib \<Rightarrow> 'k key_lib \<Rightarrow> 'e \<Rightarrow> ('d, 'l) discovery \<Rightarrow>
   ('d, 'l) discovery option" where
  "cache_enr dl el kl enr d =
     map_option (\<lambda>p. d\<lparr> cached_enrs := lru_put dl p enr (cached_enrs d) \<rparr>) (enr_peer_id el kl enr)"

definition add_enr ::
  "('d, 'l, 'e, 'k) disc_lib \<Rightarrow> ('b, 'e, 'k) enr_lib \<Rightarrow> 'k key_lib \<Rightarrow> 'e \<Rightarrow> ('d, 'l) discovery \<Rightarrow>
   ('d, 'l) discovery option" where
  "add_enr dl el kl enr d =
     map_option (\<lambda>d'. d'\<lparr> discv5 := snd (d5_add_enr dl enr (discv5 d')) \<rparr>) (cache_enr dl el kl enr d)"

definition enr_of_peer ::
  "('d, 'l, 'e, 'k) disc_lib \<Rightarrow> 'k key_lib \<Rightarrow> peer_id \<Rightarrow> ('d, 'l) discovery \<Rightarrow>
   ('e option \<times> ('d, 'l) discovery) option" where
  "enr_of_peer dl kl p d =
     (let (found, cache) = lru_get dl p (cached_enrs d);
          d' = d\<lparr> cached_enrs := cache \<rparr>
      in (case found of
            Some enr \<Rightarrow> Some (Some enr, d')
          | None \<Rightarrow>
              (case peer_id_to_node_id kl p of
                 None \<Rightarrow> None
               | Some (Inr node_id) \<Rightarrow> Some (d5_find_enr dl node_id (discv5 d'), d')
               | Some (Inl _) \<Rightarrow> Some (None, d'))))"

definition update_eth2_enr ::
  "('d, 'l, 'e, 'k) disc_lib \<Rightarrow> enr_fork_id \<Rightarrow> ('d, 'l) discovery \<Rightarrow> 'e network_globals \<Rightarrow>
   ('d, 'l) discovery \<times> 'e network_globals" where
  "update_eth2_enr dl enr_fork_id d g =
     (let d5 = snd (d5_enr_insert dl ETH2_ENR_KEY enr_fork_id (discv5 d))
      in (d\<lparr> discv5 := d5 \<rparr>, g\<lparr> g_local_enr := d5_local_enr dl d5 \<rparr>))"

definition at_capacity :: "('d, 'l) discovery \<Rightarrow> bool" where
  "at_capacity d \<longleftrightarrow> length (active_queries d) \<ge> MAX_CONCURRENT_QUERIES"

text \<open>The random target and the discv5 future have no further effect on this state.\<close>

definition start_query :: "query_type \<Rightarrow> ('d, 'l) discovery \<Rightarrow> ('d, 'l) discovery" where
  "start_query query d = d\<lparr> active_queries := active_queries d @ [query] \<rparr>"

partial_function (option) process_loop :: "('d, 'l) discovery \<Rightarrow> ('d, 'l) discovery option" where
  "process_loop d =
     (if \<not> at_capacity d \<and> queued_queries d \<noteq> [] then
        (let d' = d\<lparr> queued_queries := tl (queued_queries d) \<rparr> in
         case hd (queued_queries d) of
           FindPeers \<Rightarrow>
             if find_peer_active d' then process_loop (d'\<lparr> queued_queries := queued_queries d' @ [FindPeers] \<rparr>)
             else process_loop (start_query FindPeers (d'\<lparr> find_peer_active := True \<rparr>))
         | Subnet _ _ _ \<Rightarrow> process_loop d')
      else Some d)"

definition process_queue :: "env \<Rightarrow> ('d, 'l) discovery \<Rightarrow> ('d, 'l) discovery option" where
  "process_queue e d =
     process_loop (d\<lparr> queued_queries := filter (\<lambda>q. \<not> query_expired e q) (queued_queries d) \<rparr>)"

text \<open>A completion of a position where no query is active means that none is ready.\<close>

fun poll_queries ::
  "(nat \<times> (string + 'e list)) list \<Rightarrow> ('d, 'l) discovery \<Rightarrow>
   (instant option \<times> 'e list) option \<times> ('d, 'l) discovery" where
  "poll_queries [] d = (None, d)"
| "poll_queries ((i, result) # completions) d =
     (if i < length (active_queries d) then
        (let d' = d\<lparr> active_queries := take i (active_queries d) @ drop (Suc i) (active_queries d) \<rparr> in
         case active_queries d ! i of
           FindPeers \<Rightarrow>
             (let d'' = d'\<lparr> find_peer_active := False \<rparr> in
              case result of
                Inr [] \<Rightarrow> poll_queries completions d''
              | Inr r \<Rightarrow> (Some (None, r), d'')
              | Inl _ \<Rightarrow> poll_queries completions d'')
         | Subnet _ _ _ \<Rightarrow> poll_queries completions d')
      else (None, d))"

text \<open>What a poll finds outside.\<close>

record 'e poll_input =
  completions :: "(nat \<times> (string + 'e list)) list"
  stream_future :: "(string + unit) poll"
  d5_events :: "'e discv5_event list"

fun recv_events :: "'e discv5_event list \<Rightarrow> socket_addr option" where
  "recv_events [] = None"
| "recv_events (D5SocketUpdated socket # events) = Some socket"
| "recv_events (_ # events) = recv_events events"

fun cache_enrs ::
  "('d, 'l, 'e, 'k) disc_lib \<Rightarrow> ('b, 'e, 'k) enr_lib \<Rightarrow> 'k key_lib \<Rightarrow> 'e list \<Rightarrow> ('d, 'l) discovery \<Rightarrow>
   ('d, 'l) discovery option" where
  "cache_enrs dl el kl [] d = Some d"
| "cache_enrs dl el kl (enr # enrs) d =
     (case cache_enr dl el kl enr d of None \<Rightarrow> None | Some d' \<Rightarrow> cache_enrs dl el kl enrs d')"

definition poll_stream ::
  "('d, 'l, 'e, 'k) disc_lib \<Rightarrow> ('b, 'e, 'k) enr_lib \<Rightarrow> (disk_file \<Rightarrow> string \<Rightarrow> disk_file) \<Rightarrow> 'e poll_input \<Rightarrow>
   ('d, 'l) discovery \<Rightarrow> disk_file \<Rightarrow> 'e discovery_event poll \<times> ('d, 'l) discovery \<times> disk_file" where
  "poll_stream dl el write_file inp d disk =
     (case d_event_stream d of
        Awaiting \<Rightarrow>
          (case stream_future inp of
             Ready (Inr _) \<Rightarrow> (Pending, d\<lparr> d_event_stream := Present \<rparr>, disk)
           | Ready (Inl _) \<Rightarrow> (Pending, d\<lparr> d_event_stream := InActive \<rparr>, disk)
           | Pending \<Rightarrow> (Pending, d, disk))
      | InActive \<Rightarrow> (Pending, d, disk)
      | Present \<Rightarrow>
          (case recv_events (d5_events inp) of
             Some socket \<Rightarrow>
               (Ready (SocketUpdated socket), d,
                save_enr_to_disk el write_file (d5_local_enr dl (discv5 d)) disk)
           | None \<Rightarrow> (Pending, d, disk)))"

definition discovery_poll ::
  "('d, 'l, 'e, 'k) disc_lib \<Rightarrow> ('b, 'e, 'k) enr_lib \<Rightarrow> 'k key_lib \<Rightarrow> (disk_file \<Rightarrow> string \<Rightarrow> disk_file) \<Rightarrow>
   env \<Rightarrow> 'e poll_input \<Rightarrow> ('d, 'l) discovery \<Rightarrow> disk_file \<Rightarrow>
   ('e discovery_event poll \<times> ('d, 'l) discovery \<times> disk_file) option" where
  "discovery_poll dl el kl write_file e inp d disk =
     (if \<not> started d then Some (Pending, d, disk)
      else (case process_queue e d of
              None \<Rightarrow> None
            | Some d1 \<Rightarrow>
                (case poll_queries (completions inp) d1 of
                   (Some (ttl, result), d2) \<Rightarrow>
                     map_option (\<lambda>d3. (Ready (QueryResult ttl result), d3, disk)) (cache_enrs dl el kl result d2)
                 | (None, d2) \<Rightarrow> Some (poll_stream dl el write_file inp d2 disk))))"

section \<open>The invariant\<close>

definition disc_inv :: "('d, 'l) discovery \<Rightarrow> bool" where
  "disc_inv d \<longleftrightarrow>
     active_queries d = (if find_peer_active d then [FindPeers] else []) \<and>
     length (filter (\<lambda>q. q = FindPeers) (queued_queries d)) \<le> 1"

text \<open>What processing the queue amounts to in a good state: with a query under way, nothing; otherwise
  everything in front of the first \<open>FindPeers\<close> is thrown away and that query is started.\<close>

definition process_spec :: "('d, 'l) discovery \<Rightarrow> ('d, 'l) discovery" where
  "process_spec d =
     (if find_peer_active d then d
      else (case dropWhile (\<lambda>q. q \<noteq> FindPeers) (queued_queries d) of
              [] \<Rightarrow> d\<lparr> queued_queries := [] \<rparr>
            | _ # qs \<Rightarrow> d\<lparr> queued_queries := qs, active_queries := [FindPeers], find_peer_active := True \<rparr>))"

lemma at_capacity_inv: "disc_inv d \<Longrightarrow> at_capacity d \<longleftrightarrow> find_peer_active d"
  by (simp add: disc_inv_def at_capacity_def MAX_CONCURRENT_QUERIES_def)

lemma process_loop_capacity: "at_capacity d \<Longrightarrow> process_loop d = Some d"
  by (subst process_loop.simps) simp

lemma process_loop_spec: "disc_inv d \<Longrightarrow> process_loop d = Some (process_spec d)"
proof (induction "queued_queries d" arbitrary: d)
  case Nil
  from Nil.hyps [symmetric] show ?case by (subst process_loop.simps) (simp add: process_spec_def)
next
  case (Cons q qs)
  show ?case
  proof (cases "find_peer_active d")
    case True
    then show ?thesis using Cons.prems by (simp add: process_loop_capacity at_capacity_inv process_spec_def)
  next
    case False
    note q = Cons.hyps(2) [symmetric]
    let ?d = "d\<lparr> queued_queries := qs \<rparr>"
    have act: "active_queries d = []" "\<not> at_capacity d"
      using Cons.prems False at_capacity_inv [OF Cons.prems] by (simp_all add: disc_inv_def)
    show ?thesis
    proof (cases q)
      case FindPeers
      have "at_capacity (start_query FindPeers (?d\<lparr> find_peer_active := True \<rparr>))"
        by (simp add: at_capacity_def MAX_CONCURRENT_QUERIES_def start_query_def)
      then show ?thesis
        using False act q FindPeers
        by (subst process_loop.simps) (simp add: process_loop_capacity process_spec_def, simp add: start_query_def)
    next
      case (Subnet s t r)
      have "disc_inv ?d" using Cons.prems q Subnet False by (simp add: disc_inv_def)
      with Cons.hyps(1) [of ?d] have "process_loop ?d = Some (process_spec ?d)" by simp
      then show ?thesis
        using act q Subnet False
        by (subst process_loop.simps) (cases "dropWhile (\<lambda>q. q \<noteq> FindPeers) qs"; simp add: process_spec_def del: dropWhile_eq_Nil_conv)
    qed
  qed
qed

lemma filter_dropWhile_le: "length (filter P (dropWhile Q xs)) \<le> length (filter P xs)"
  by (induction xs) auto

lemma process_spec_inv:
  assumes "disc_inv d"
  shows "disc_inv (process_spec d)"
  using assms filter_dropWhile_le [of "\<lambda>q. q = FindPeers" "\<lambda>q. q \<noteq> FindPeers" "queued_queries d"]
  by (auto simp: process_spec_def disc_inv_def split: list.splits if_splits)

lemma filter_not_expired: "filter (\<lambda>q. q = FindPeers) (filter (\<lambda>q. \<not> query_expired e q) qs) = filter (\<lambda>q. q = FindPeers) qs"
  by (induction qs) auto

lemma process_queue_spec:
  fixes e :: env
  assumes "disc_inv d"
  defines "d0 \<equiv> d\<lparr> queued_queries := filter (\<lambda>q. \<not> query_expired e q) (queued_queries d) \<rparr>"
  shows "process_queue e d = Some (process_spec d0) \<and> disc_inv (process_spec d0)"
proof -
  have "disc_inv d0" using assms(1) by (simp add: disc_inv_def d0_def filter_not_expired del: filter_filter)
  then show ?thesis
    using process_loop_spec [of d0] process_spec_inv by (simp add: process_queue_def d0_def)
qed

lemma discover_peers_inv: "disc_inv d \<Longrightarrow> disc_inv (discover_peers d)"
  by (auto simp: discover_peers_def disc_inv_def filter_empty_conv)

lemma cache_enr_inv: "disc_inv d \<Longrightarrow> cache_enr dl el kl enr d = Some d' \<Longrightarrow> disc_inv d'"
  by (auto simp: cache_enr_def disc_inv_def)

lemma cache_enrs_inv: "disc_inv d \<Longrightarrow> cache_enrs dl el kl enrs d = Some d' \<Longrightarrow> disc_inv d'"
  by (induction enrs arbitrary: d) (auto split: option.splits dest: cache_enr_inv)

lemma cache_enrs_total:
  "\<forall>enr \<in> set enrs. enr_peer_id el kl enr \<noteq> None \<Longrightarrow> \<exists>d'. cache_enrs dl el kl enrs d = Some d'"
  by (induction enrs arbitrary: d) (auto simp: cache_enr_def)

text \<open>In a good state, the only query that can complete is the active \<open>FindPeers\<close>, and at most one
  completion is looked at.\<close>

lemma poll_queries_good:
  assumes "disc_inv d"
  shows "poll_queries cs d =
     (if \<not> find_peer_active d then (None, d)
      else (case cs of
              (0, result) # _ \<Rightarrow>
                (case result of Inr (r # rs) \<Rightarrow> Some (None, r # rs) | _ \<Rightarrow> None,
                 d\<lparr> active_queries := [], find_peer_active := False \<rparr>)
            | _ \<Rightarrow> (None, d)))"
proof -
  have idle: "poll_queries cs d = (None, d)" if "active_queries d = []" for cs and d :: "('x, 'y) discovery"
    using that by (cases cs) auto
  show ?thesis
    using assms
    by (cases cs) (auto simp: disc_inv_def idle Let_def split: sum.splits list.splits nat.splits)
qed

lemma poll_queries_inv: "disc_inv d \<Longrightarrow> poll_queries cs d = (res, d') \<Longrightarrow> disc_inv d'"
  by (auto simp: poll_queries_good disc_inv_def split: if_splits list.splits nat.splits)

lemma poll_stream_inv: "disc_inv d \<Longrightarrow> disc_inv (fst (snd (poll_stream dl el wr inp d disk)))"
  by (auto simp: poll_stream_def disc_inv_def split: event_stream.splits poll.splits sum.splits option.splits)

section \<open>Runs\<close>

datatype 'e disc_call = DiscoverPeers | AddEnr 'e | PollDiscovery "'e poll_input"

fun disc_step ::
  "('d, 'l, 'e, 'k) disc_lib \<Rightarrow> ('b, 'e, 'k) enr_lib \<Rightarrow> 'k key_lib \<Rightarrow> (disk_file \<Rightarrow> string \<Rightarrow> disk_file) \<Rightarrow>
   env \<times> 'e disc_call \<Rightarrow> ('d, 'l) discovery \<times> disk_file \<Rightarrow>
   ('e discovery_event poll \<times> ('d, 'l) discovery \<times> disk_file) option" where
  "disc_step dl el kl wr (e, DiscoverPeers) (d, disk) = Some (Pending, discover_peers d, disk)"
| "disc_step dl el kl wr (e, AddEnr enr) (d, disk) =
     map_option (\<lambda>d'. (Pending, d', disk)) (add_enr dl el kl enr d)"
| "disc_step dl el kl wr (e, PollDiscovery inp) (d, disk) = discovery_poll dl el kl wr e inp d disk"

text \<open>The records that reach discovery carry keys that their peer id can be computed from.\<close>

fun disc_call_ok :: "('b, 'e, 'k) enr_lib \<Rightarrow> 'k key_lib \<Rightarrow> env \<times> 'e disc_call \<Rightarrow> bool" where
  "disc_call_ok el kl (e, DiscoverPeers) = True"
| "disc_call_ok el kl (e, AddEnr enr) = (enr_peer_id el kl enr \<noteq> None)"
| "disc_call_ok el kl (e, PollDiscovery inp) =
     list_all (\<lambda>(i, r). case r of Inr enrs \<Rightarrow> list_all (\<lambda>enr. enr_peer_id el kl enr \<noteq> None) enrs | Inl _ \<Rightarrow> True)
       (completions inp)"

lemma discovery_poll_ok:
  assumes "disc_inv d" and "disc_call_ok el kl (e, PollDiscovery inp)"
  shows "\<exists>ev d' disk'. discovery_poll dl el kl wr e inp d disk = Some (ev, d', disk') \<and> disc_inv d'"
proof (cases "started d")
  case True
  from process_queue_spec [OF assms(1), of e] obtain d1 where d1: "process_queue e d = Some d1" "disc_inv d1" by blast
  obtain res d2 where d2: "poll_queries (completions inp) d1 = (res, d2)" by fastforce
  have inv2: "disc_inv d2" using poll_queries_inv [OF d1(2) d2] .
  show ?thesis
  proof (cases res)
    case None
    then show ?thesis
      using True d1 d2 poll_stream_inv [OF inv2, of dl el wr inp disk]
      by (cases "poll_stream dl el wr inp d2 disk") (simp add: discovery_poll_def)
  next
    case (Some r)
    then obtain t enrs where r: "res = Some (t, enrs)" by (cases r) auto
    have "\<forall>enr \<in> set enrs. enr_peer_id el kl enr \<noteq> None"
      using d2 d1(2) assms(2) r by (auto simp: poll_queries_good list_all_iff split: if_splits list.splits nat.splits sum.splits)
    from cache_enrs_total [OF this] obtain d3 where "cache_enrs dl el kl enrs d2 = Some d3" by blast
    with True d1 d2 r cache_enrs_inv [OF inv2] show ?thesis by (auto simp: discovery_poll_def)
  qed
qed (use assms(1) in \<open>simp add: discovery_poll_def\<close>)

lemma add_enr_ok:
  "disc_inv d \<Longrightarrow> enr_peer_id el kl enr \<noteq> None \<Longrightarrow> \<exists>d'. add_enr dl el kl enr d = Some d' \<and> disc_inv d'"
  by (auto simp: add_enr_def cache_enr_def disc_inv_def)

lemma enr_of_peer_ok:
  assumes "disc_inv d" and "peer_id_to_node_id kl p \<noteq> None"
  shows "\<exists>r d'. enr_of_peer dl kl p d = Some (r, d') \<and> disc_inv d'"
proof -
  obtain found c where get: "lru_get dl p (cached_enrs d) = (found, c)" by force
  have "disc_inv (d\<lparr> cached_enrs := c \<rparr>)" using assms(1) by (simp add: disc_inv_def)
  with assms(2) show ?thesis
    by (auto simp: enr_of_peer_def get Let_def split: option.splits sum.splits)
qed

interpretation disc: op_machine "disc_step dl el kl wr" "\<lambda>s. disc_inv (fst s)" "disc_call_ok el kl"
  for dl :: "('d, 'l, 'e, 'k) disc_lib" and el :: "('b, 'e, 'k) enr_lib" and kl wr
proof
  fix s :: "('d, 'l) discovery \<times> disk_file" and c :: "env \<times> 'e disc_call"
  assume "disc_inv (fst s)" "disc_call_ok el kl c"
  then show "\<exists>out s'. disc_step dl el kl wr c s = Some (out, s') \<and> disc_inv (fst s')"
    using discovery_poll_ok [of "fst s" el kl _ _ dl wr "snd s"] add_enr_ok [of "fst s" el kl _ dl]
    by (cases "(dl, el, kl, wr, c, s)" rule: disc_step.cases) (fastforce simp: discover_peers_inv)+
qed

lemma discovery_new_inv: "discovery_new dl kl key config g = Some (Inr d) \<Longrightarrow> disc_inv d"
  by (auto simp: discovery_new_def Let_def disc_inv_def split: option.splits sum.splits)

section \<open>A cache and a server that satisfy the contract\<close>

text \<open>What the code relies on of the cache: the record that was put last under a peer id is found.\<close>

locale disc_api =
  fixes dl :: "('d, 'l, 'e, 'k) disc_lib"
  assumes lru_get_put: "fst (lru_get dl p (lru_put dl p enr c)) = Some enr"
begin

lemma enr_of_added_peer:
  assumes "add_enr dl el kl enr d = Some d'" and "enr_peer_id el kl enr = Some p"
  shows "\<exists>d''. enr_of_peer dl kl p d' = Some (Some enr, d'')"
  using assms lru_get_put [of p enr "cached_enrs d"]
  by (auto simp: add_enr_def cache_enr_def enr_of_peer_def Let_def split: prod.splits)

end

definition ref_disc_lib :: "(ref_enr list, (peer_id \<times> ref_enr) list, ref_enr, u8 list) disc_lib" where
  "ref_disc_lib =
     \<lparr> d5_new = (\<lambda>enr _ _. Inr [enr]), d5_add_enr = (\<lambda>enr d. (Inr (), d @ [enr])), d5_start = (\<lambda>_ d. d),
       d5_local_enr = hd, d5_table_entries_enr = tl,
       d5_find_enr = (\<lambda>n d. find (\<lambda>enr. enr_node_id ref_enr_lib enr = n) d),
       d5_enr_insert = (\<lambda>_ _ d. (Inr (), d)),
       lru_new = (\<lambda>_. []), lru_put = (\<lambda>p enr c. take 50 ((p, enr) # AList.delete p c)),
       lru_get = (\<lambda>p c. (map_of c p, c)) \<rparr>"

interpretation ref_disc: disc_api ref_disc_lib
  by unfold_locales (simp add: ref_disc_lib_def take_Cons')

definition ref_globals :: "ref_enr network_globals" where
  "ref_globals =
     \<lparr> g_local_enr = [], g_fork_id = [], g_meta_data = [], g_ping_data = [], g_peer_id = [],
       g_listen_multiaddrs = [], g_listen_port_tcp = 9000, g_listen_port_udp = 9000, g_peers = peerdb_new,
       g_gossipsub_subscriptions = [] \<rparr>"

definition ref_discovery :: "(ref_enr list, (peer_id \<times> ref_enr) list) discovery" where
  "ref_discovery =
     \<lparr> cached_enrs = [], enr_dir = ''./.mothra/network'', discv5 = [[]], find_peer_active = False,
       queued_queries = [], active_queries = [], d_event_stream = Awaiting, started = True \<rparr>"

lemma ref_discovery_new:
  "discovery_new ref_disc_lib ref_key_lib (Ed25519Pair (replicate 64 1)) (config_default [] [] [] None) ref_globals
     = Some (Inr ref_discovery)"
  by (simp add: discovery_new_def ref_key_lib_def ref_disc_lib_def ref_globals_def ref_discovery_def
      config_default_def path_push_def DEFAULT_CLIENT_NAME_def)

lemma ref_discovery_inv: "disc_inv ref_discovery"
  by (simp add: disc_inv_def ref_discovery_def)

section \<open>Properties\<close>

text \<open>C23. Discovery never gets stuck and never runs more than one search: from a fresh instance,
  every sequence of requests to discover, of records added and of polls returns, although the
  queue loop puts a \<open>FindPeers\<close> query back while one is active; and at every moment at most one query
  is active, it is a \<open>FindPeers\<close> exactly when \<open>find_peer_active\<close> says so, and at most one more is queued.\<close>

theorem discovery_single_search:
  assumes "discovery_new dl kl key config g = Some (Inr d0)" and "list_all (disc_call_ok el kl) cs"
  shows "\<exists>outs d disk'. run_calls (disc_step dl el kl wr) cs (d0, disk) = Some (outs, d, disk') \<and>
           active_queries d = (if find_peer_active d then [FindPeers] else []) \<and>
           length (filter (\<lambda>q. q = FindPeers) (queued_queries d)) \<le> 1"
  using disc.run_ok [of "(d0, disk)" el kl cs dl wr] discovery_new_inv [OF assms(1)] assms(2)
  by (auto simp: disc_inv_def)

theorem discovery_single_search_witness:
  "\<exists>outs d disk'. run_calls (disc_step ref_disc_lib ref_enr_lib ref_key_lib (\<lambda>_. FileContent))
       [(\<lparr> now = 1, overflow_checks = True \<rparr>, DiscoverPeers),
        (\<lparr> now = 2, overflow_checks = True \<rparr>, PollDiscovery \<lparr> completions = [], stream_future = Pending, d5_events = [] \<rparr>),
        (\<lparr> now = 3, overflow_checks = True \<rparr>, PollDiscovery \<lparr> completions = [(0, Inr [])], stream_future = Pending, d5_events = [] \<rparr>)]
       (ref_discovery, NoFile) = Some (outs, d, disk') \<and>
     active_queries d = (if find_peer_active d then [FindPeers] else []) \<and>
     length (filter (\<lambda>q. q = FindPeers) (queued_queries d)) \<le> 1"
  by (rule discovery_single_search [OF ref_discovery_new]) simp

text \<open>A requested search is really started: when no search is under way, a request followed by
  processing the queue starts a \<open>FindPeers\<close> query, whatever else is queued. While a search is under
  way the request changes nothing.\<close>

theorem discover_peers_starts_search:
  assumes "disc_inv d" and "started d"
  shows "\<exists>d'. process_queue e (discover_peers d) = Some d' \<and> active_queries d' = [FindPeers] \<and> find_peer_active d' \<and>
           (find_peer_active d \<longrightarrow> discover_peers d = d)"
proof -
  let ?d = "discover_peers d"
  let ?q = "filter (\<lambda>q. \<not> query_expired e q) (queued_queries ?d)"
  have mem: "find_peer_active d \<or> FindPeers \<in> set ?q"
    using assms(2) by (auto simp: discover_peers_def)
  have same: "find_peer_active ?d = find_peer_active d" "active_queries ?d = active_queries d"
    by (simp_all add: discover_peers_def)
  have "dropWhile (\<lambda>q. q \<noteq> FindPeers) ?q \<noteq> []" if "FindPeers \<in> set ?q"
    using that by (auto simp: dropWhile_eq_Nil_conv)
  with mem process_queue_spec [OF discover_peers_inv [OF assms(1)], of e] show ?thesis
    using assms(1) same
    by (auto simp: process_spec_def disc_inv_def discover_peers_def split: list.splits)
qed

theorem discover_peers_starts_search_witness:
  "\<exists>d'. process_queue \<lparr> now = 1, overflow_checks = True \<rparr> (discover_peers ref_discovery) = Some d' \<and>
        active_queries d' = [FindPeers]"
  using discover_peers_starts_search [OF ref_discovery_inv, of "\<lparr> now = 1, overflow_checks = True \<rparr>"]
  by (auto simp: ref_discovery_def)

text \<open>Subnet queries never lead to a search, and the ones that are still useful are the first to
  go: processing the queue removes every subnet query whose time to live lies in the future or is not
  given, and starts none of the others either.\<close>

theorem subnet_queries_dropped:
  assumes "disc_inv d"
  shows "\<exists>d'. process_queue e d = Some d' \<and>
           (\<forall>s t r. Subnet s t r \<notin> set (active_queries d')) \<and>
           (\<forall>s t r. Subnet s t r \<in> set (queued_queries d') \<longrightarrow> (\<exists>ttl. t = Some ttl \<and> ttl \<le> now e)) \<and>
           (\<not> find_peer_active d \<and> FindPeers \<notin> set (queued_queries d) \<longrightarrow> queued_queries d' = [])"
proof -
  let ?q = "filter (\<lambda>q. \<not> query_expired e q) (queued_queries d)"
  have sub: "set (queued_queries (process_spec (d\<lparr> queued_queries := ?q \<rparr>))) \<subseteq> set ?q"
    using set_dropWhileD [where P = "\<lambda>q. q \<noteq> FindPeers" and xs = ?q]
    by (cases "dropWhile (\<lambda>q. q \<noteq> FindPeers) ?q") (auto simp: process_spec_def simp del: dropWhile_eq_Nil_conv)
  let ?d' = "process_spec (d\<lparr> queued_queries := ?q \<rparr>)"
  have "dropWhile (\<lambda>q. q \<noteq> FindPeers) ?q = []" if "FindPeers \<notin> set (queued_queries d)"
    using that by (auto simp: dropWhile_eq_Nil_conv)
  then have "queued_queries ?d' = []" if "\<not> find_peer_active d" "FindPeers \<notin> set (queued_queries d)"
    using that by (simp add: process_spec_def del: dropWhile_eq_Nil_conv)
  moreover have "process_queue e d = Some ?d'" "set (active_queries ?d') \<subseteq> {FindPeers}"
    using process_queue_spec [OF assms, of e] by (auto simp: disc_inv_def)
  moreover have "\<exists>ttl. t = Some ttl \<and> ttl \<le> now e" if "Subnet s t r \<in> set (queued_queries ?d')" for s t r
    using sub that by (auto simp: not_less split: option.splits)
  ultimately show ?thesis by (intro exI [of _ ?d']) auto
qed

theorem subnet_queries_dropped_witness:
  "\<exists>d'. process_queue \<lparr> now = 10, overflow_checks = True \<rparr>
          (ref_discovery\<lparr> queued_queries := [Subnet 3 (Some 99) 0, Subnet 4 (Some 5) 0] \<rparr>) = Some d' \<and>
        queued_queries d' = [] \<and> (\<forall>s t r. Subnet s t r \<notin> set (active_queries d'))"
  using subnet_queries_dropped [of "ref_discovery\<lparr> queued_queries := [Subnet 3 (Some 99) 0, Subnet 4 (Some 5) 0] \<rparr>"
      "\<lparr> now = 10, overflow_checks = True \<rparr>"]
  by (auto simp: disc_inv_def ref_discovery_def)

text \<open>A record that was added is found again under the peer id of its key.\<close>

theorem added_enr_found:
  assumes "disc_api dl" and "enr_peer_id el kl enr = Some p"
  shows "\<exists>d' d''. add_enr dl el kl enr d = Some d' \<and> enr_of_peer dl kl p d' = Some (Some enr, d'')"
proof -
  obtain d' where "add_enr dl el kl enr d = Some d'"
    using assms(2) by (auto simp: add_enr_def cache_enr_def)
  with disc_api.enr_of_added_peer [OF assms(1) this assms(2)] show ?thesis by blast
qed

theorem added_enr_found_witness:
  "\<exists>d' d''. add_enr ref_disc_lib ref_enr_lib ref_key_lib [[1, 1], [0], [0], [0], [8]] ref_discovery = Some d' \<and>
     enr_of_peer ref_disc_lib ref_key_lib [0, 1, 1, 8] d' = Some (Some [[1, 1], [0], [0], [0], [8]], d'')"
  by (rule added_enr_found [OF ref_disc.disc_api_axioms])
    (simp add: enr_peer_id_def ref_key_lib_def ref_enr_lib_def ref_key_def)

end
