(* ===== verification/Peer_Manager.thy ===== *)
theory Peer_Manager
  imports Delay_Set Discovery Rpc_Protocol
begin

text \<open>
  \<open>core/network/src/peer_manager/mod.rs\<close>: the peer manager, which keeps the peer database, the ping and
  status timers and the discovery service in step and emits events to the behaviour above it.

  The globals, shared through an \<open>Arc\<close> in the source, are a field of the manager's state, as is
  the record file that discovery writes. The tokio interval of the heartbeat and the futures that
  discovery waits for come from outside: a poll is given the number of ticks that are ready and one
  input for every poll of discovery; when the inputs are used up, nothing more is ready. The timer
  loops spin for as long as the delay queue reports errors, so they are partial functions.
\<close>

section \<open>State\<close>

definition STATUS_INTERVAL :: nat where "STATUS_INTERVAL = 300"
definition PING_INTERVAL :: nat where "PING_INTERVAL = 30"
definition HEARTBEAT_INTERVAL :: nat where "HEARTBEAT_INTERVAL = 30"

datatype peer_action =
    Fatal | HighToleranceError | MidToleranceError | LowToleranceError | ValidMessage

fun peer_action_rep_change :: "peer_action \<Rightarrow> rep_change" where
  "peer_action_rep_change Fatal = rep_worst"
| "peer_action_rep_change LowToleranceError = rep_bad 60"
| "peer_action_rep_change MidToleranceError = rep_bad 25"
| "peer_action_rep_change HighToleranceError = rep_bad 15"
| "peer_action_rep_change ValidMessage = rep_good 20"

datatype peer_manager_event =
    EvDial peer_id
  | EvSocketUpdated multiaddr
  | EvStatus peer_id
  | EvPing peer_id
  | EvMetaData peer_id
  | EvDisconnectPeer peer_id

datatype connecting_type = CtDialing | CtIngoingConnected | CtOutgoingConnected

record ('q, 'd, 'l, 'b, 'e, 'k) pm_lib =
  lib_dq :: "('q, peer_id) delay_queue_ops"
  lib_disc :: "('d, 'l, 'e, 'k) disc_lib"
  lib_enr :: "('b, 'e, 'k) enr_lib"
  lib_key :: "'k key_lib"
  lib_write :: "disk_file \<Rightarrow> string \<Rightarrow> disk_file"

record ('q, 'd, 'l, 'e) peer_manager =
  pm_globals :: "'e network_globals"
  pm_events :: "peer_manager_event list"
  ping_peers :: "('q, peer_id) hash_set_delay"
  status_peers :: "('q, peer_id) hash_set_delay"
  target_peers :: nat
  pm_discovery :: "('d, 'l) discovery"
  enr_file :: disk_file

text \<open>Access to the peer database behind the globals.\<close>

abbreviation pm_db :: "('q, 'd, 'l, 'e) peer_manager \<Rightarrow> peerdb" where
  "pm_db pm \<equiv> g_peers (pm_globals pm)"

definition with_db :: "peerdb \<Rightarrow> ('q, 'd, 'l, 'e) peer_manager \<Rightarrow> ('q, 'd, 'l, 'e) peer_manager" where
  "with_db db pm = pm\<lparr> pm_globals := (pm_globals pm)\<lparr> g_peers := db \<rparr> \<rparr>"

definition push_event :: "peer_manager_event \<Rightarrow> ('q, 'd, 'l, 'e) peer_manager \<Rightarrow> ('q, 'd, 'l, 'e) peer_manager" where
  "push_event ev pm = pm\<lparr> pm_events := pm_events pm @ [ev] \<rparr>"

section \<open>Operations\<close>

definition pm_new ::
  "('q, 'd, 'l, 'b, 'e, 'k) pm_lib \<Rightarrow> keypair \<Rightarrow> 'e network_config \<Rightarrow> 'e network_globals \<Rightarrow> disk_file \<Rightarrow>
   (string + ('q, 'd, 'l, 'e) peer_manager) option" where
  "pm_new L local_key config g disk =
     (case discovery_new (lib_disc L) (lib_key L) local_key config g of
        None \<Rightarrow> None
      | Some (Inl err) \<Rightarrow> Some (Inl err)
      | Some (Inr d) \<Rightarrow> Some (Inr
          \<lparr> pm_globals = g, pm_events = [],
            ping_peers = hsd_new (lib_dq L) (from_secs PING_INTERVAL),
            status_peers = hsd_new (lib_dq L) (from_secs STATUS_INTERVAL),
            target_peers = max_peers config, pm_discovery = discover_peers d, enr_file = disk \<rparr>))"

definition peer_statusd ::
  "('q, 'd, 'l, 'b, 'e, 'k) pm_lib \<Rightarrow> env \<Rightarrow> peer_id \<Rightarrow> ('q, 'd, 'l, 'e) peer_manager \<Rightarrow>
   ('q, 'd, 'l, 'e) peer_manager option" where
  "peer_statusd L e p pm =
     map_option (\<lambda>s. pm\<lparr> status_peers := s \<rparr>) (hsd_insert (lib_dq L) e p (status_peers pm))"

definition notify_disconnect ::
  "('q, 'd, 'l, 'b, 'e, 'k) pm_lib \<Rightarrow> env \<Rightarrow> peer_id \<Rightarrow> ('q, 'd, 'l, 'e) peer_manager \<Rightarrow>
   ('q, 'd, 'l, 'e) peer_manager option" where
  "notify_disconnect L e p pm =
     (case disconnect e p (pm_db pm) of
        None \<Rightarrow> None
      | Some db \<Rightarrow>
          (case hsd_remove (lib_dq L) p (ping_peers pm) of
             None \<Rightarrow> None
           | Some (_, ping) \<Rightarrow>
               (case hsd_remove (lib_dq L) p (status_peers pm) of
                  None \<Rightarrow> None
                | Some (_, stat) \<Rightarrow> Some ((with_db db pm)\<lparr> ping_peers := ping, status_peers := stat \<rparr>))))"

text \<open>The check for a banned peer has an empty body in the source. The two connected cases call the
  database the other way round.\<close>

definition connect_peer ::
  "('q, 'd, 'l, 'b, 'e, 'k) pm_lib \<Rightarrow> env \<Rightarrow> peer_id \<Rightarrow> connecting_type \<Rightarrow> ('q, 'd, 'l, 'e) peer_manager \<Rightarrow>
   (bool \<times> ('q, 'd, 'l, 'e) peer_manager) option" where
  "connect_peer L e p connection pm =
     (case (case connection of
              CtDialing \<Rightarrow> Some (dialing_peer e p (pm_db pm))
            | CtIngoingConnected \<Rightarrow> connect_outgoing e p (pm_db pm)
            | CtOutgoingConnected \<Rightarrow> connect_ingoing e p (pm_db pm)) of
        None \<Rightarrow> None
      | Some db \<Rightarrow>
          (case hsd_insert (lib_dq L) e p (ping_peers pm) of
             None \<Rightarrow> None
           | Some ping \<Rightarrow>
               (case hsd_insert (lib_dq L) e p (status_peers pm) of
                  None \<Rightarrow> None
                | Some stat \<Rightarrow> Some (True, (with_db db pm)\<lparr> ping_peers := ping, status_peers := stat \<rparr>))))"

definition pm_connect_ingoing ::
  "('q, 'd, 'l, 'b, 'e, 'k) pm_lib \<Rightarrow> env \<Rightarrow> peer_id \<Rightarrow> ('q, 'd, 'l, 'e) peer_manager \<Rightarrow>
   (bool \<times> ('q, 'd, 'l, 'e) peer_manager) option" where
  "pm_connect_ingoing L e p pm = connect_peer L e p CtIngoingConnected pm"

definition pm_connect_outgoing ::
  "('q, 'd, 'l, 'b, 'e, 'k) pm_lib \<Rightarrow> env \<Rightarrow> peer_id \<Rightarrow> ('q, 'd, 'l, 'e) peer_manager \<Rightarrow>
   (bool \<times> ('q, 'd, 'l, 'e) peer_manager) option" where
  "pm_connect_outgoing L e p pm = connect_peer L e p CtOutgoingConnected pm"

definition pm_dialing_peer ::
  "('q, 'd, 'l, 'b, 'e, 'k) pm_lib \<Rightarrow> env \<Rightarrow> peer_id \<Rightarrow> ('q, 'd, 'l, 'e) peer_manager \<Rightarrow>
   (bool \<times> ('q, 'd, 'l, 'e) peer_manager) option" where
  "pm_dialing_peer L e p pm = connect_peer L e p CtDialing pm"

definition report_peer ::
  "peer_id \<Rightarrow> peer_action \<Rightarrow> ('q, 'd, 'l, 'e) peer_manager \<Rightarrow> ('q, 'd, 'l, 'e) peer_manager" where
  "report_peer p action pm = with_db (add_reputation p (peer_action_rep_change action) (pm_db pm)) pm"

definition pm_identify ::
  "peer_id \<Rightarrow> identify_info \<Rightarrow> ('q, 'd, 'l, 'e) peer_manager \<Rightarrow> ('q, 'd, 'l, 'e) peer_manager" where
  "pm_identify p info pm =
     with_db (peer_info_mut (\<lambda>i. i\<lparr> peer_client := client_from_identify_info info,
                                    listening_addresses := listen_addrs info \<rparr>) p (pm_db pm)) pm"

text \<open>The table that maps an error to an action; \<open>None\<close> is an early return.\<close>

fun rpc_error_action :: "protocol \<Rightarrow> rpc_error \<Rightarrow> peer_action option" where
  "rpc_error_action p IncompleteStream = Some MidToleranceError"
| "rpc_error_action p (InternalError _) = None"
| "rpc_error_action p HandlerRejected = None"
| "rpc_error_action p InvalidData = Some Fatal"
| "rpc_error_action p (IoError _) = Some HighToleranceError"
| "rpc_error_action p (ErrorResponse code _) =
     (case code of
        UnknownCode \<Rightarrow> Some HighToleranceError
      | ServerErrorCode \<Rightarrow> Some MidToleranceError
      | InvalidRequestCode \<Rightarrow> Some LowToleranceError)"
| "rpc_error_action p DecodeError = Some Fatal"
| "rpc_error_action p UnsupportedProtocol =
     (case p of
        PPing \<Rightarrow> Some Fatal
      | PGoodbye \<Rightarrow> None
      | PMetaData \<Rightarrow> Some LowToleranceError
      | PStatus \<Rightarrow> Some LowToleranceError)"
| "rpc_error_action p StreamTimeout =
     (case p of
        PPing \<Rightarrow> Some LowToleranceError
      | PGoodbye \<Rightarrow> None
      | PMetaData \<Rightarrow> None
      | PStatus \<Rightarrow> None)"
| "rpc_error_action p NegotiationTimeout = Some HighToleranceError"

definition handle_rpc_error ::
  "peer_id \<Rightarrow> protocol \<Rightarrow> rpc_error \<Rightarrow> ('q, 'd, 'l, 'e) peer_manager \<Rightarrow> ('q, 'd, 'l, 'e) peer_manager" where
  "handle_rpc_error p protocol err pm =
     (case rpc_error_action protocol err of
        None \<Rightarrow> pm
      | Some action \<Rightarrow> report_peer p action pm)"

definition metadata_outdated :: "peer_info \<Rightarrow> u64 \<Rightarrow> bool" where
  "metadata_outdated info seq =
     (case peer_meta_data info of Some md \<Rightarrow> seq_number md < seq | None \<Rightarrow> True)"

definition ping_request ::
  "('q, 'd, 'l, 'b, 'e, 'k) pm_lib \<Rightarrow> env \<Rightarrow> peer_id \<Rightarrow> u64 \<Rightarrow> ('q, 'd, 'l, 'e) peer_manager \<Rightarrow>
   ('q, 'd, 'l, 'e) peer_manager option" where
  "ping_request L e p seq pm =
     (case peerdb_info (pm_db pm) p of
        None \<Rightarrow> Some pm
      | Some info \<Rightarrow>
          (case hsd_insert (lib_dq L) e p (ping_peers pm) of
             None \<Rightarrow> None
           | Some ping \<Rightarrow>
               (let pm' = pm\<lparr> ping_peers := ping \<rparr>
                in Some (if metadata_outdated info seq then push_event (EvMetaData p) pm' else pm'))))"

definition pong_response ::
  "peer_id \<Rightarrow> u64 \<Rightarrow> ('q, 'd, 'l, 'e) peer_manager \<Rightarrow> ('q, 'd, 'l, 'e) peer_manager" where
  "pong_response p seq pm =
     (case peerdb_info (pm_db pm) p of
        None \<Rightarrow> pm
      | Some info \<Rightarrow> if metadata_outdated info seq then push_event (EvMetaData p) pm else pm)"

definition newer_metadata :: "meta_data \<Rightarrow> peer_info \<Rightarrow> peer_info" where
  "newer_metadata md info =
     (case peer_meta_data info of
        Some known \<Rightarrow> if seq_number known < seq_number md then info\<lparr> peer_meta_data := Some md \<rparr> else info
      | None \<Rightarrow> info\<lparr> peer_meta_data := Some md \<rparr>)"

definition meta_data_response ::
  "peer_id \<Rightarrow> meta_data \<Rightarrow> ('q, 'd, 'l, 'e) peer_manager \<Rightarrow> ('q, 'd, 'l, 'e) peer_manager" where
  "meta_data_response p md pm = with_db (peer_info_mut (newer_metadata md) p (pm_db pm)) pm"

fun is_udp :: "addr_part \<Rightarrow> bool" where
  "is_udp (Udp _) = True"
| "is_udp _ = False"

definition addresses_of_peer ::
  "('q, 'd, 'l, 'b, 'e, 'k) pm_lib \<Rightarrow> peer_id \<Rightarrow> ('q, 'd, 'l, 'e) peer_manager \<Rightarrow>
   (multiaddr list \<times> ('q, 'd, 'l, 'e) peer_manager) option" where
  "addresses_of_peer L p pm =
     (case enr_of_peer (lib_disc L) (lib_key L) p (pm_discovery pm) of
        None \<Rightarrow> None
      | Some (Some enr, d) \<Rightarrow>
          Some (filter (\<lambda>addr. find is_udp addr = None) (enr_multiaddr (lib_enr L) enr), pm\<lparr> pm_discovery := d \<rparr>)
      | Some (None, d) \<Rightarrow> Some ([], pm\<lparr> pm_discovery := d \<rparr>))"

definition pm_socket_updated :: "socket_addr \<Rightarrow> ('q, 'd, 'l, 'e) peer_manager \<Rightarrow> ('q, 'd, 'l, 'e) peer_manager" where
  "pm_socket_updated socket pm =
     push_event (EvSocketUpdated
       [case fst socket of V4 a \<Rightarrow> Ip4 a | V6 a \<Rightarrow> Ip6 a, Tcp (g_listen_port_tcp (pm_globals pm))]) pm"

definition peer_discovered ::
  "peer_id \<Rightarrow> instant option \<Rightarrow> ('q, 'd, 'l, 'e) peer_manager \<Rightarrow> ('q, 'd, 'l, 'e) peer_manager" where
  "peer_discovered p ttl pm =
     (if globals_connected_or_dialing_peers (pm_globals pm) < target_peers pm \<and>
         \<not> is_connected_or_dialing (pm_db pm) p \<and> \<not> peer_banned (pm_db pm) p
      then push_event (EvDial p)
             (case ttl of Some t \<Rightarrow> with_db (update_min_ttl p t (pm_db pm)) pm | None \<Rightarrow> pm)
      else pm)"

fun peers_discovered ::
  "('q, 'd, 'l, 'b, 'e, 'k) pm_lib \<Rightarrow> 'e list \<Rightarrow> instant option \<Rightarrow> ('q, 'd, 'l, 'e) peer_manager \<Rightarrow>
   ('q, 'd, 'l, 'e) peer_manager option" where
  "peers_discovered L [] ttl pm = Some pm"
| "peers_discovered L (enr # enrs) ttl pm =
     (case enr_peer_id (lib_enr L) (lib_key L) enr of
        None \<Rightarrow> None
      | Some p \<Rightarrow> peers_discovered L enrs ttl (peer_discovered p ttl pm))"

definition pm_heartbeat :: "('q, 'd, 'l, 'e) peer_manager \<Rightarrow> ('q, 'd, 'l, 'e) peer_manager" where
  "pm_heartbeat pm =
     (if globals_connected_or_dialing_peers (pm_globals pm) < target_peers pm
      then pm\<lparr> pm_discovery := discover_peers (pm_discovery pm) \<rparr>
      else pm)"

section \<open>Polling\<close>

definition poll_discovery ::
  "('q, 'd, 'l, 'b, 'e, 'k) pm_lib \<Rightarrow> env \<Rightarrow> 'e poll_input \<Rightarrow> ('q, 'd, 'l, 'e) peer_manager \<Rightarrow>
   ('e discovery_event poll \<times> ('q, 'd, 'l, 'e) peer_manager) option" where
  "poll_discovery L e inp pm =
     map_option (\<lambda>(ev, d, disk). (ev, pm\<lparr> pm_discovery := d, enr_file := disk \<rparr>))
       (discovery_poll (lib_disc L) (lib_enr L) (lib_key L) (lib_write L) e inp (pm_discovery pm) (enr_file pm))"

definition quiet_input :: "'e poll_input" where
  "quiet_input = \<lparr> completions = [], stream_future = Pending, d5_events = [] \<rparr>"

fun discovery_events ::
  "('q, 'd, 'l, 'b, 'e, 'k) pm_lib \<Rightarrow> env \<Rightarrow> 'e poll_input list \<Rightarrow> ('q, 'd, 'l, 'e) peer_manager \<Rightarrow>
   ('q, 'd, 'l, 'e) peer_manager option" where
  "discovery_events L e [] pm = map_option snd (poll_discovery L e quiet_input pm)"
| "discovery_events L e (inp # inps) pm =
     (case poll_discovery L e inp pm of
        None \<Rightarrow> None
      | Some (Ready (SocketUpdated socket), pm') \<Rightarrow> discovery_events L e inps (pm_socket_updated socket pm')
      | Some (Ready (QueryResult ttl enrs), pm') \<Rightarrow>
          (case peers_discovered L enrs ttl pm' of
             None \<Rightarrow> None
           | Some pm'' \<Rightarrow> discovery_events L e inps pm'')
      | Some (Pending, pm') \<Rightarrow> Some pm')"

text \<open>The loops over the ping and the status timers differ in the set and the event only.\<close>

partial_function (option) timer_loop ::
  "(env \<Rightarrow> 's \<Rightarrow> (string + 'p) option poll \<times> 's) \<Rightarrow> (env \<Rightarrow> 'p \<Rightarrow> 's \<Rightarrow> 's option) \<Rightarrow>
   ('p \<Rightarrow> 'ev) \<Rightarrow> env \<Rightarrow> 's \<Rightarrow> 'ev list \<Rightarrow> ('s \<times> 'ev list) option" where
  "timer_loop poll ins mk e s evs =
     (case poll e s of
        (Ready (Some (Inr p)), s') \<Rightarrow>
          (case ins e p s' of
             None \<Rightarrow> None
           | Some s'' \<Rightarrow> timer_loop poll ins mk e s'' (evs @ [mk p]))
      | (Ready (Some (Inl _)), s') \<Rightarrow> timer_loop poll ins mk e s' evs
      | (Ready None, s') \<Rightarrow> Some (s', evs)
      | (Pending, s') \<Rightarrow> Some (s', evs))"

definition poll_pings ::
  "('q, 'd, 'l, 'b, 'e, 'k) pm_lib \<Rightarrow> env \<Rightarrow> ('q, 'd, 'l, 'e) peer_manager \<Rightarrow> ('q, 'd, 'l, 'e) peer_manager option" where
  "poll_pings L e pm =
     map_option (\<lambda>(s, evs). pm\<lparr> ping_peers := s, pm_events := evs \<rparr>)
       (timer_loop (hsd_poll_next (lib_dq L)) (hsd_insert (lib_dq L)) EvPing e (ping_peers pm) (pm_events pm))"

definition poll_statuses ::
  "('q, 'd, 'l, 'b, 'e, 'k) pm_lib \<Rightarrow> env \<Rightarrow> ('q, 'd, 'l, 'e) peer_manager \<Rightarrow> ('q, 'd, 'l, 'e) peer_manager option" where
  "poll_statuses L e pm =
     map_option (\<lambda>(s, evs). pm\<lparr> status_peers := s, pm_events := evs \<rparr>)
       (timer_loop (hsd_poll_next (lib_dq L)) (hsd_insert (lib_dq L)) EvStatus e (status_peers pm) (pm_events pm))"

definition pm_poll_next ::
  "('q, 'd, 'l, 'b, 'e, 'k) pm_lib \<Rightarrow> env \<Rightarrow> nat \<Rightarrow> 'e poll_input list \<Rightarrow> ('q, 'd, 'l, 'e) peer_manager \<Rightarrow>
   (peer_manager_event option poll \<times> ('q, 'd, 'l, 'e) peer_manager) option" where
  "pm_poll_next L e ticks inps pm =
     (case discovery_events L e inps ((pm_heartbeat ^^ ticks) pm) of
        None \<Rightarrow> None
      | Some pm1 \<Rightarrow>
          (case poll_pings L e pm1 of
             None \<Rightarrow> None
           | Some pm2 \<Rightarrow>
               (case poll_statuses L e pm2 of
                  None \<Rightarrow> None
                | Some pm3 \<Rightarrow>
                    (case pm_events pm3 of
                       ev # evs \<Rightarrow> Some (Ready (Some ev), pm3\<lparr> pm_events := evs \<rparr>)
                     | [] \<Rightarrow> Some (Pending, pm3)))))"

text \<open>A timer queue that fails for good: the loop, which logs the error and polls again, never returns
  (\<open>None\<close> is also the value of a loop that does not end).\<close>

lemma timer_loop_spins:
  assumes "timer_loop poll ins mk e s evs = Some r"
  shows "\<not> (\<forall>s. \<exists>err s'. poll e s = (Ready (Some (Inl err)), s'))"
proof (rule timer_loop.raw_induct [OF _ assms])
  fix loop poll ins mk e s evs r
  assume IH: "\<And>poll ins mk e s evs r. loop poll ins mk e s evs = Some r \<Longrightarrow> \<not> (\<forall>s. \<exists>err s'. poll e s = (Ready (Some (Inl err)), s'))"
    and body: "(case poll e s of
        (Ready (Some (Inr p)), s') \<Rightarrow>
          (case ins e p s' of
             None \<Rightarrow> None
           | Some s'' \<Rightarrow> loop poll ins mk e s'' (evs @ [mk p]))
      | (Ready (Some (Inl _)), s') \<Rightarrow> loop poll ins mk e s' evs
      | (Ready None, s') \<Rightarrow> Some (s', evs)
      | (Pending, s') \<Rightarrow> Some (s', evs)) = Some r"
  show "\<not> (\<forall>s. \<exists>err s'. poll e s = (Ready (Some (Inl err)), s'))"
  proof
    assume all: "\<forall>s. \<exists>err s'. poll e s = (Ready (Some (Inl err)), s')"
    then obtain err s' where "poll e s = (Ready (Some (Inl err)), s')" by blast
    with body have "loop poll ins mk e s' evs = Some r" by simp
    from IH [OF this] all show False by blast
  qed
qed

theorem timer_error_spins:
  assumes "\<forall>q. \<exists>err q'. dq_poll (lib_dq L) (now e) q = (Ready (Some (Inl err)), q')"
  shows "poll_pings L e pm = None \<and> poll_statuses L e pm = None"
proof -
  have all: "\<forall>s. \<exists>err s'. hsd_poll_next (lib_dq L) e s = (Ready (Some (Inl err)), s')"
  proof
    fix s :: "('a, peer_id) hash_set_delay"
    from assms obtain err q' where "dq_poll (lib_dq L) (now e) (expirations s) = (Ready (Some (Inl err)), q')" by blast
    then show "\<exists>err s'. hsd_poll_next (lib_dq L) e s = (Ready (Some (Inl err)), s')" by (simp add: hsd_poll_next_def)
  qed
  have "timer_loop (hsd_poll_next (lib_dq L)) (hsd_insert (lib_dq L)) mk e s evs = None"
    for mk :: "peer_id \<Rightarrow> peer_manager_event" and s evs
    using timer_loop_spins [of "hsd_poll_next (lib_dq L)" "hsd_insert (lib_dq L)" mk e s evs] all by (metis not_Some_eq)
  then show ?thesis by (simp add: poll_pings_def poll_statuses_def)
qed

section \<open>The timer loops over any delay set\<close>

context delay_set
begin

text \<open>A number that bounds how many errors the set is still going to report.\<close>

definition errors_end :: "env \<Rightarrow> ('s \<Rightarrow> nat) \<Rightarrow> bool" where
  "errors_end e faults \<longleftrightarrow>
     (\<forall>s err s'. ds_inv s \<longrightarrow> ds_poll e s = (Ready (Some (Inl err)), s') \<longrightarrow> faults s' < faults s) \<and>
     (\<forall>s k s'. ds_inv s \<longrightarrow> ds_poll e s = (Ready (Some (Inr k)), s') \<longrightarrow> faults s' \<le> faults s) \<and>
     (\<forall>s k s'. ds_inv s \<longrightarrow> ds_insert e k s = Some s' \<longrightarrow> faults s' \<le> faults s)"

text \<open>As long as the set does not report errors without end the loop ends: every other round takes a due
  key and puts it off by the timeout.\<close>

lemma timer_loop_ends:
  assumes faults: "errors_end e faults"
  shows "ds_inv s \<Longrightarrow> 0 < ds_timeout s \<and> ds_timeout s \<le> ds_max \<Longrightarrow>
    \<exists>s' ps s0 r. timer_loop ds_poll ds_insert mk e s evs = Some (s', evs @ map mk ps) \<and>
      distinct ps \<and> set ps \<subseteq> due e s \<and> ds_inv s' \<and> ds_timeout s' = ds_timeout s \<and>
      (\<forall>k. ds_abs s' k = (if k \<in> set ps then Some (now e + ds_timeout s) else ds_abs s k)) \<and>
      ds_inv s0 \<and> ds_abs s0 = ds_abs s' \<and> ds_poll e s0 = (r, s') \<and> (\<forall>x. r \<noteq> Ready (Some x))"
proof (induction "card (due e s) + faults s" arbitrary: s evs rule: less_induct)
  case less
  obtain r s1 where poll: "ds_poll e s = (r, s1)" by force
  consider k where "r = Ready (Some (Inr k))" | err where "r = Ready (Some (Inl err))" | "\<forall>x. r \<noteq> Ready (Some x)"
    by (metis sum.exhaust)
  then show ?case
  proof cases
    case k: (1 k)
    from ds_expired_law [OF less.prems(1) poll [unfolded k]]
    have s1: "ds_inv s1" "ds_timeout s1 = ds_timeout s" "ds_abs s1 = (ds_abs s)(k := None)" by auto
    from ds_insert_law [OF s1(1), of e k] less.prems(2) s1(2) obtain s2 where ins: "ds_insert e k s1 = Some s2"
      and abs2: "ds_abs s2 = (ds_abs s1)(k \<mapsto> now e + ds_timeout s1)" by auto
    from due_reinsert [OF less.prems(1) poll [unfolded k] ins] less.prems(2)
    have due2: "due e s2 = due e s - {k}" "k \<in> due e s" "ds_inv s2" "ds_timeout s2 = ds_timeout s" by auto
    have "faults s1 \<le> faults s" "faults s2 \<le> faults s1"
      using faults less.prems(1) poll k s1(1) ins unfolding errors_end_def by blast+
    then have "card (due e s2) + faults s2 < card (due e s) + faults s"
      using due2(1,2) finite_due [OF less.prems(1)] card_Diff1_less [of "due e s" k] by simp
    from less.hyps [OF this due2(3), of "evs @ [mk k]"] less.prems(2) due2(4)
    obtain s' ps s0 r' where IH: "timer_loop ds_poll ds_insert mk e s2 (evs @ [mk k]) = Some (s', (evs @ [mk k]) @ map mk ps)"
      "distinct ps" "set ps \<subseteq> due e s2" "ds_inv s'" "ds_timeout s' = ds_timeout s"
      "\<forall>k. ds_abs s' k = (if k \<in> set ps then Some (now e + ds_timeout s) else ds_abs s2 k)"
      "ds_inv s0" "ds_abs s0 = ds_abs s'" "ds_poll e s0 = (r', s')" "\<forall>x. r' \<noteq> Ready (Some x)" by auto
    have "timer_loop ds_poll ds_insert mk e s evs = Some (s', evs @ map mk (k # ps))"
      by (subst timer_loop.simps) (simp add: poll k ins IH(1) [simplified])
    then show ?thesis
      using IH(2-) due2 abs2 s1 by (intro exI [of _ s'] exI [of _ "k # ps"] exI [of _ s0] exI [of _ r']) auto
  next
    case err: (2 err)
    with ds_poll_other_law [OF less.prems(1) poll] have s1: "ds_inv s1" "ds_timeout s1 = ds_timeout s" "ds_abs s1 = ds_abs s" by auto
    have due1: "due e s1 = due e s" by (simp add: due_def s1(3))
    then have lt: "card (due e s1) + faults s1 < card (due e s) + faults s"
      using faults less.prems(1) poll err unfolding errors_end_def by auto
    have
      "\<exists>s' ps s0 r. timer_loop ds_poll ds_insert mk e s1 evs = Some (s', evs @ map mk ps) \<and>
        distinct ps \<and> set ps \<subseteq> due e s \<and> ds_inv s' \<and> ds_timeout s' = ds_timeout s \<and>
        (\<forall>k. ds_abs s' k = (if k \<in> set ps then Some (now e + ds_timeout s) else ds_abs s k)) \<and>
        ds_inv s0 \<and> ds_abs s0 = ds_abs s' \<and> ds_poll e s0 = (r, s') \<and> (\<forall>x. r \<noteq> Ready (Some x))"
      using less.hyps [OF lt s1(1), of evs] less.prems(2) unfolding s1(2,3) due1 by blast
    moreover have "timer_loop ds_poll ds_insert mk e s evs = timer_loop ds_poll ds_insert mk e s1 evs"
      by (subst timer_loop.simps) (simp add: poll err)
    ultimately show ?thesis by simp
  next
    case r: 3
    then have "timer_loop ds_poll ds_insert mk e s evs = Some (s1, evs)"
      by (subst timer_loop.simps) (auto simp: poll split: poll.splits option.splits)
    with ds_poll_other_law [OF less.prems(1) poll] r less.prems(1) poll show ?thesis
      by (intro exI [of _ s1] exI [of _ "[]"] exI [of _ s] exI [of _ r]) auto
  qed
qed

text \<open>If moreover the set is prompt (it has nothing to report only when nothing is due), the loop
  reports exactly the due keys.\<close>

lemma timer_loop_exact:
  assumes faults: "errors_end e faults"
    and prompt: "\<And>s r s'. ds_inv s \<Longrightarrow> ds_poll e s = (r, s') \<Longrightarrow> (\<forall>x. r \<noteq> Ready (Some x)) \<Longrightarrow> due e s = {}"
    and "ds_inv s" "0 < ds_timeout s \<and> ds_timeout s \<le> ds_max"
  shows "\<exists>s' ps. timer_loop ds_poll ds_insert mk e s evs = Some (s', evs @ map mk ps) \<and>
           distinct ps \<and> set ps = due e s \<and>
           ds_abs s' = (\<lambda>k. if k \<in> due e s then Some (now e + ds_timeout s) else ds_abs s k)"
proof -
  from timer_loop_ends [OF faults assms(3,4), of mk evs] obtain s' ps s0 r
    where l: "timer_loop ds_poll ds_insert mk e s evs = Some (s', evs @ map mk ps)"
      and ps: "distinct ps" "set ps \<subseteq> due e s"
      and abs: "\<forall>k. ds_abs s' k = (if k \<in> set ps then Some (now e + ds_timeout s) else ds_abs s k)"
      and last: "ds_inv s0" "ds_abs s0 = ds_abs s'" "ds_poll e s0 = (r, s')" "\<forall>x. r \<noteq> Ready (Some x)" by blast
  from prompt [OF last(1,3,4)] last(2) have "due e s' = {}" by (simp add: due_def)
  have "k \<in> set ps" if "k \<in> due e s" for k
  proof (rule ccontr)
    assume "k \<notin> set ps"
    with abs that have "k \<in> due e s'" by (simp add: due_def)
    with \<open>due e s' = {}\<close> show False by simp
  qed
  with ps(2) have "set ps = due e s" by blast
  with l ps abs show ?thesis by (auto simp: fun_eq_iff)
qed

end

section \<open>The invariant\<close>

text \<open>All parts are in a good state, and every peer that is connected or being dialed has a running
  ping timer and a running status timer; the peers outside of \<open>X\<close> (for the callers that write to the
  database themselves) are not considered.\<close>

definition pm_inv ::
  "peer_id set \<Rightarrow> ('q \<Rightarrow> dq_key \<Rightarrow> (peer_id \<times> instant) option) \<Rightarrow> ('q, 'd, 'l, 'e) peer_manager \<Rightarrow> bool" where
  "pm_inv X items pm \<longleftrightarrow>
     peerdb_inv (pm_db pm) \<and> disc_inv (pm_discovery pm) \<and>
     hsd_inv items (ping_peers pm) \<and> default_entry_timeout (ping_peers pm) = from_secs PING_INTERVAL \<and>
     hsd_inv items (status_peers pm) \<and> default_entry_timeout (status_peers pm) = from_secs STATUS_INTERVAL \<and>
     (\<forall>p \<in> X. is_connected_or_dialing (pm_db pm) p \<longrightarrow>
        hsd_contains p (ping_peers pm) \<and> hsd_contains p (status_peers pm))"

text \<open>How the database operations change which peers are connected or being dialed.\<close>

lemma cod_entry:
  "is_connected_or_dialing db p \<longleftrightarrow>
     status_is_connected (connection_status (entry_or_default db p)) \<or>
     status_is_dialing (connection_status (entry_or_default db p))"
  by (cases "connection_status (entry_or_default db p)")
    (auto simp: is_connected_or_dialing_def peerdb_connection_status_def peerdb_info_def entry_or_default_def
      split: option.splits)

lemma cod_connect:
  "connect_ingoing e p db = Some db' \<Longrightarrow> q \<noteq> p \<Longrightarrow> is_connected_or_dialing db' q = is_connected_or_dialing db q"
  "connect_outgoing e p db = Some db' \<Longrightarrow> q \<noteq> p \<Longrightarrow> is_connected_or_dialing db' q = is_connected_or_dialing db q"
  "q \<noteq> p \<Longrightarrow> is_connected_or_dialing (dialing_peer e p db) q = is_connected_or_dialing db q"
  by (auto simp: cod_entry connect_ingoing_def connect_outgoing_def dialing_peer_def Let_def split: option.splits)

lemma cod_mut:
  "(\<And>info. connection_status (f info) = connection_status info) \<Longrightarrow>
   is_connected_or_dialing (peer_info_mut f p db) q = is_connected_or_dialing db q"
  by (simp add: cod_entry peer_info_mut_connections)

lemma cod_add_reputation: "is_connected_or_dialing (add_reputation p c db) q = is_connected_or_dialing db q"
  by (simp add: setters_mut cod_mut)

lemma cod_update_min_ttl: "is_connected_or_dialing (update_min_ttl p t db) q = is_connected_or_dialing db q"
  by (auto simp: cod_entry update_min_ttl_def)

lemma cod_disconnect:
  assumes "peerdb_inv db" and "disconnect e p db = Some db'" and "is_connected_or_dialing db' q"
  shows "q \<noteq> p \<and> is_connected_or_dialing db q"
proof -
  let ?info = "entry_or_default db p"
  let ?new = "if is_dc ?info \<or> status_is_banned (connection_status ?info) then ?info
              else ?info\<lparr> connection_status := Disconnected (now e) \<rparr>"
  note le = disconnect_le [OF assms(1,2)]
  from assms(3) obtain j where j: "map_of (peers db') q = Some j"
    by (auto simp: cod_entry entry_or_default_def split: option.splits)
  then have jst: "status_is_connected (connection_status j) \<or> status_is_dialing (connection_status j)"
    using assms(3) by (simp add: cod_entry entry_or_default_def)
  from map_leD [OF le j] have q: "(if q = p then Some ?new else map_of (peers db) q) = Some j"
    by (simp only: hm_get_insert)
  have "\<not> status_is_connected (connection_status ?new) \<and> \<not> status_is_dialing (connection_status ?new)"
    by (cases "connection_status ?info") auto
  moreover have "j = ?new" if "q = p" using q that by simp
  ultimately have "q \<noteq> p" using jst by metis
  with q jst show ?thesis by (simp add: cod_entry entry_or_default_def)
qed

section \<open>Runs\<close>

datatype 'e pm_call =
    PmStatusd peer_id
  | PmNotifyDisconnect peer_id
  | PmConnectIngoing peer_id
  | PmConnectOutgoing peer_id
  | PmDialing peer_id
  | PmReport peer_id peer_action
  | PmIdentify peer_id identify_info
  | PmRpcError peer_id protocol rpc_error
  | PmPingRequest peer_id u64
  | PmPong peer_id u64
  | PmMetaData peer_id meta_data
  | PmAddresses peer_id
  | PmPoll nat "'e poll_input list"

fun pm_step ::
  "('q, 'd, 'l, 'b, 'e, 'k) pm_lib \<Rightarrow> env \<times> 'e pm_call \<Rightarrow> ('q, 'd, 'l, 'e) peer_manager \<Rightarrow>
   (peer_manager_event option poll \<times> ('q, 'd, 'l, 'e) peer_manager) option" where
  "pm_step L (e, PmStatusd p) pm = map_option (Pair Pending) (peer_statusd L e p pm)"
| "pm_step L (e, PmNotifyDisconnect p) pm = map_option (Pair Pending) (notify_disconnect L e p pm)"
| "pm_step L (e, PmConnectIngoing p) pm = map_option (\<lambda>(_, pm'). (Pending, pm')) (pm_connect_ingoing L e p pm)"
| "pm_step L (e, PmConnectOutgoing p) pm = map_option (\<lambda>(_, pm'). (Pending, pm')) (pm_connect_outgoing L e p pm)"
| "pm_step L (e, PmDialing p) pm = map_option (\<lambda>(_, pm'). (Pending, pm')) (pm_dialing_peer L e p pm)"
| "pm_step L (e, PmReport p a) pm = Some (Pending, report_peer p a pm)"
| "pm_step L (e, PmIdentify p i) pm = Some (Pending, pm_identify p i pm)"
| "pm_step L (e, PmRpcError p pr err) pm = Some (Pending, handle_rpc_error p pr err pm)"
| "pm_step L (e, PmPingRequest p seq) pm = map_option (Pair Pending) (ping_request L e p seq pm)"
| "pm_step L (e, PmPong p seq) pm = Some (Pending, pong_response p seq pm)"
| "pm_step L (e, PmMetaData p md) pm = Some (Pending, meta_data_response p md pm)"
| "pm_step L (e, PmAddresses p) pm = map_option (\<lambda>(_, pm'). (Pending, pm')) (addresses_of_peer L p pm)"
| "pm_step L (e, PmPoll ticks inps) pm = pm_poll_next L e ticks inps pm"

text \<open>A build without overflow checks, node records with usable keys, peer ids of at least two bytes.\<close>

fun pm_call_ok :: "('q, 'd, 'l, 'b, 'e, 'k) pm_lib \<Rightarrow> env \<times> 'e pm_call \<Rightarrow> bool" where
  "pm_call_ok L (e, PmAddresses p) = (peer_id_to_node_id (lib_key L) p \<noteq> None)"
| "pm_call_ok L (e, PmPoll ticks inps) =
     list_all (\<lambda>inp. disc_call_ok (lib_enr L) (lib_key L) (e, PollDiscovery inp)) inps"
| "pm_call_ok L (e, _) = (\<not> overflow_checks e)"

text \<open>The timer loops of the peer manager log an error of the queue and poll again, so they end only if
  the errors do: \<open>faults\<close> bounds how many the queue is going to report. (A \<open>DelayQueue\<close> fails when the
  timer of the runtime has no capacity left, which passes, or is shut down, and then the node stops.) On
  a queue that fails for good the loops spin: \<open>timer_error_spins\<close>.\<close>

definition errors_pass :: "('q, 'k) delay_queue_ops \<Rightarrow> ('q \<Rightarrow> nat) \<Rightarrow> bool" where
  "errors_pass dq faults \<longleftrightarrow>
     (\<forall>t q err q'. dq_poll dq t q = (Ready (Some (Inl err)), q') \<longrightarrow> faults q' < faults q) \<and>
     (\<forall>t q k q'. dq_poll dq t q = (Ready (Some (Inr k)), q') \<longrightarrow> faults q' \<le> faults q) \<and>
     (\<forall>t k d q q' h. dq_insert dq t k d q = Some (q', h) \<longrightarrow> faults q' \<le> faults q) \<and>
     (\<forall>t h d q q'. dq_reset dq t h d q = Some q' \<longrightarrow> faults q' \<le> faults q)"

locale pm_env =
  fixes L :: "('q, 'd, 'l, 'b, 'e, 'k) pm_lib"
    and items :: "'q \<Rightarrow> dq_key \<Rightarrow> (peer_id \<times> instant) option"
  assumes timers: "delay_queue (lib_dq L) items"
    and timer_errors: "\<exists>faults. errors_pass (lib_dq L) faults"

sublocale pm_env \<subseteq> tq: delay_queue "lib_dq L" items
  by (rule timers)

lemma with_db_simps [simp]:
  "pm_db (with_db db pm) = db" "pm_discovery (with_db db pm) = pm_discovery pm"
  "ping_peers (with_db db pm) = ping_peers pm" "status_peers (with_db db pm) = status_peers pm"
  "pm_events (with_db db pm) = pm_events pm" "target_peers (with_db db pm) = target_peers pm"
  by (simp_all add: with_db_def)

lemma push_event_simps [simp]:
  "pm_globals (push_event ev pm) = pm_globals pm" "pm_discovery (push_event ev pm) = pm_discovery pm"
  "ping_peers (push_event ev pm) = ping_peers pm" "status_peers (push_event ev pm) = status_peers pm"
  "pm_events (push_event ev pm) = pm_events pm @ [ev]" "target_peers (push_event ev pm) = target_peers pm"
  by (simp_all add: push_event_def)

text \<open>A change of the database alone.\<close>

lemma pm_inv_with_db:
  "pm_inv X items pm \<Longrightarrow> peerdb_inv db \<Longrightarrow>
   (\<And>p. is_connected_or_dialing db p \<Longrightarrow> is_connected_or_dialing (pm_db pm) p) \<Longrightarrow> pm_inv X items (with_db db pm)"
  by (auto simp: pm_inv_def)

lemma pm_inv_push_event [simp]: "pm_inv X items (push_event ev pm) = pm_inv X items pm"
  by (simp add: pm_inv_def)

lemma pm_inv_discovery: "pm_inv X items pm \<Longrightarrow> disc_inv d \<Longrightarrow> pm_inv X items (pm\<lparr> pm_discovery := d \<rparr>)"
  by (simp add: pm_inv_def)

lemma report_peer_inv: "pm_inv X items pm \<Longrightarrow> pm_inv X items (report_peer p a pm)"
  unfolding report_peer_def
  by (rule pm_inv_with_db) (auto simp: pm_inv_def setters_inv cod_add_reputation)

lemma handle_rpc_error_inv: "pm_inv X items pm \<Longrightarrow> pm_inv X items (handle_rpc_error p pr err pm)"
  by (simp add: handle_rpc_error_def report_peer_inv split: option.splits)

lemma pm_identify_inv: "pm_inv X items pm \<Longrightarrow> pm_inv X items (pm_identify p i pm)"
  unfolding pm_identify_def
  by (rule pm_inv_with_db) (auto simp: pm_inv_def cod_mut peer_info_mut_inv)

lemma newer_metadata_status [simp]: "connection_status (newer_metadata md info) = connection_status info"
  by (simp add: newer_metadata_def split: option.splits)

lemma meta_data_response_inv: "pm_inv X items pm \<Longrightarrow> pm_inv X items (meta_data_response p md pm)"
  unfolding meta_data_response_def
  by (rule pm_inv_with_db) (auto simp: pm_inv_def cod_mut peer_info_mut_inv)

lemma pong_response_inv: "pm_inv X items pm \<Longrightarrow> pm_inv X items (pong_response p seq pm)"
  by (simp add: pong_response_def split: option.splits)

lemma peer_discovered_inv: "pm_inv X items pm \<Longrightarrow> pm_inv X items (peer_discovered p ttl pm)"
  by (auto simp: peer_discovered_def intro!: pm_inv_with_db split: option.splits)
    (auto simp: pm_inv_def update_min_ttl_inv cod_update_min_ttl)

lemma peers_discovered_inv:
  "pm_inv X items pm \<Longrightarrow> peers_discovered L enrs ttl pm = Some pm' \<Longrightarrow> pm_inv X items pm'"
  by (induction enrs arbitrary: pm) (auto split: option.splits intro: peer_discovered_inv)

lemma peers_discovered_total:
  "\<forall>enr \<in> set enrs. enr_peer_id (lib_enr L) (lib_key L) enr \<noteq> None \<Longrightarrow> \<exists>pm'. peers_discovered L enrs ttl pm = Some pm'"
  by (induction enrs arbitrary: pm) auto

lemma pm_heartbeat_inv: "pm_inv X items pm \<Longrightarrow> pm_inv X items ((pm_heartbeat ^^ n) pm)"
  by (induction n) (auto simp: pm_heartbeat_def pm_inv_discovery discover_peers_inv pm_inv_def)

text \<open>Every record in a query result was cached under its peer id.\<close>

lemma cached_enrs_have_ids:
  "cache_enrs dl el kl enrs d = Some d' \<Longrightarrow> \<forall>enr \<in> set enrs. enr_peer_id el kl enr \<noteq> None"
  by (induction enrs arbitrary: d) (auto simp: cache_enr_def split: option.splits)

context pm_env
begin

lemma intervals_fit: "from_secs PING_INTERVAL \<le> dq_max (lib_dq L)" "from_secs STATUS_INTERVAL \<le> dq_max (lib_dq L)"
  using tq.max_minutes by (simp_all add: PING_INTERVAL_def STATUS_INTERVAL_def)

lemma pm_timers:
  assumes "pm_inv X items pm"
  shows "hsd_inv items (ping_peers pm)" "hsd_inv items (status_peers pm)"
    and "0 < default_entry_timeout (ping_peers pm) \<and> default_entry_timeout (ping_peers pm) \<le> dq_max (lib_dq L)"
    and "0 < default_entry_timeout (status_peers pm) \<and> default_entry_timeout (status_peers pm) \<le> dq_max (lib_dq L)"
  using assms intervals_fit by (auto simp: pm_inv_def PING_INTERVAL_def STATUS_INTERVAL_def)

lemma timer_insert:
  assumes "hsd_inv items s" and "0 < default_entry_timeout s \<and> default_entry_timeout s \<le> dq_max (lib_dq L)"
  shows "\<exists>s'. hsd_insert (lib_dq L) e p s = Some s' \<and> hsd_inv items s' \<and>
              default_entry_timeout s' = default_entry_timeout s \<and>
              (\<forall>q. hsd_contains q s' \<longleftrightarrow> q = p \<or> hsd_contains q s)"
  using tq.hsd.ds_insert_law [OF assms(1), of e p] hsd_contains_abs [of items] assms by fastforce

lemma timer_remove:
  assumes "hsd_inv items s"
  shows "\<exists>b s'. hsd_remove (lib_dq L) p s = Some (b, s') \<and> hsd_inv items s' \<and>
                default_entry_timeout s' = default_entry_timeout s \<and>
                (\<forall>q. hsd_contains q s' \<longleftrightarrow> q \<noteq> p \<and> hsd_contains q s)"
  using tq.hsd.ds_remove_law [OF assms, of p] hsd_contains_abs [of items] assms by fastforce

lemma timer_errors_end:
  assumes "errors_pass (lib_dq L) faults"
  shows "tq.hsd.errors_end e (faults \<circ> expirations)"
proof -
  have poll: "(case r of Ready (Some (Inl err)) \<Rightarrow> faults (expirations s') < faults (expirations s)
      | Ready (Some (Inr k)) \<Rightarrow> faults (expirations s') \<le> faults (expirations s) | _ \<Rightarrow> True)"
    if inv: "hsd_inv items s" and p: "hsd_poll_next (lib_dq L) e s = (r, s')" for s s' r
  proof -
    obtain r0 q' where q: "dq_poll (lib_dq L) (now e) (expirations s) = (r0, q')" by force
    have "hm_get (entries s) k \<noteq> None" if "r0 = Ready (Some (Inr k))" for k
      using tq.items_expired [OF q [unfolded that]] hsd_invD2 [OF inv] by fastforce
    with p q assms show ?thesis
      by (auto simp: hsd_poll_next_def errors_pass_def split: poll.splits option.splits sum.splits)
  qed
  have ins: "faults (expirations s') \<le> faults (expirations s)" if "hsd_insert (lib_dq L) e k s = Some s'" for s k s'
    using that assms unfolding errors_pass_def
    by (auto simp: hsd_insert_def hsd_insert_at_def hsd_update_timeout_def split: if_splits option.splits) blast+
  show ?thesis
    unfolding tq.hsd.errors_end_def
  proof (intro conjI allI impI)
    fix s k s' assume "hsd_insert (lib_dq L) e k s = Some s'"
    then show "(faults \<circ> expirations) s' \<le> (faults \<circ> expirations) s" by (simp add: ins)
  qed (use poll in fastforce)+
qed

lemma timer_loop_ok:
  assumes "hsd_inv items s" and "0 < default_entry_timeout s \<and> default_entry_timeout s \<le> dq_max (lib_dq L)"
  shows "\<exists>s' evs'. timer_loop (hsd_poll_next (lib_dq L)) (hsd_insert (lib_dq L)) mk e s evs = Some (s', evs') \<and>
           hsd_inv items s' \<and> default_entry_timeout s' = default_entry_timeout s \<and>
           (\<forall>q. hsd_contains q s' \<longleftrightarrow> hsd_contains q s)"
proof -
  obtain faults where "errors_pass (lib_dq L) faults" using timer_errors ..
  from tq.hsd.timer_loop_ends [OF timer_errors_end [OF this] assms, where mk = mk and e = e and evs = evs] obtain s' ps
    where l: "timer_loop (hsd_poll_next (lib_dq L)) (hsd_insert (lib_dq L)) mk e s evs = Some (s', evs @ map mk ps)"
      "set ps \<subseteq> tq.hsd.due e s" "hsd_inv items s'" "default_entry_timeout s' = default_entry_timeout s"
      "\<forall>k. hsd_abs items s' k = (if k \<in> set ps then Some (now e + default_entry_timeout s) else hsd_abs items s k)"
    by blast
  have "hsd_contains q s' \<longleftrightarrow> hsd_contains q s" for q
    using l(2,5) hsd_contains_abs [OF l(3)] hsd_contains_abs [OF assms(1)] by (auto simp: tq.hsd.due_def)
  with l show ?thesis by blast
qed

lemma connect_peer_ok:
  assumes inv: "pm_inv X items pm" and "\<not> overflow_checks e"
  shows "\<exists>pm'. connect_peer L e p ct pm = Some (True, pm') \<and> pm_inv X items pm'"
proof -
  define db_op where "db_op = (case ct of
              CtDialing \<Rightarrow> Some (dialing_peer e p (pm_db pm))
            | CtIngoingConnected \<Rightarrow> connect_outgoing e p (pm_db pm)
            | CtOutgoingConnected \<Rightarrow> connect_ingoing e p (pm_db pm))"
  have "\<exists>db. db_op = Some db \<and> peerdb_inv db \<and>
             (\<forall>q. q \<noteq> p \<longrightarrow> is_connected_or_dialing db q = is_connected_or_dialing (pm_db pm) q)"
  proof -
    have dbi: "peerdb_inv (pm_db pm)" using inv by (simp add: pm_inv_def)
    obtain db1 db2 where c: "connect_ingoing e p (pm_db pm) = Some db1" "connect_outgoing e p (pm_db pm) = Some db2"
      using status_connect_unchecked [OF assms(2)]
      by (fastforce simp: connect_ingoing_def connect_outgoing_def Let_def split: option.splits)
    show ?thesis
      using c connect_ingoing_inv [OF dbi c(1)] connect_outgoing_inv [OF dbi c(2)] dialing_peer_inv [OF dbi, of e p]
        cod_connect(1) [OF c(1)] cod_connect(2) [OF c(2)] cod_connect(3) [of _ p e "pm_db pm"]
      by (cases ct) (simp_all add: db_op_def)
  qed
  then obtain db where db: "db_op = Some db" "peerdb_inv db"
    "\<And>q. q \<noteq> p \<Longrightarrow> is_connected_or_dialing db q = is_connected_or_dialing (pm_db pm) q" by blast
  note timers = pm_timers [OF inv]
  from timer_insert [OF timers(1,3), of e p] timer_insert [OF timers(2,4), of e p]
  obtain ping stat where t: "hsd_insert (lib_dq L) e p (ping_peers pm) = Some ping" "hsd_inv items ping"
    "default_entry_timeout ping = default_entry_timeout (ping_peers pm)"
    "\<forall>q. hsd_contains q ping \<longleftrightarrow> q = p \<or> hsd_contains q (ping_peers pm)"
    "hsd_insert (lib_dq L) e p (status_peers pm) = Some stat" "hsd_inv items stat"
    "default_entry_timeout stat = default_entry_timeout (status_peers pm)"
    "\<forall>q. hsd_contains q stat \<longleftrightarrow> q = p \<or> hsd_contains q (status_peers pm)" by blast
  let ?pm' = "(with_db db pm)\<lparr> ping_peers := ping, status_peers := stat \<rparr>"
  have "pm_inv X items ?pm'"
    using inv t db(2,3) unfolding pm_inv_def by (auto simp: with_db_def)
  then show ?thesis using db(1) t by (simp add: connect_peer_def db_op_def)
qed

lemma notify_disconnect_ok:
  assumes inv: "pm_inv X items pm"
  shows "\<exists>pm'. notify_disconnect L e p pm = Some pm' \<and> pm_inv X items pm'"
proof -
  have dbi: "peerdb_inv (pm_db pm)" using inv by (simp add: pm_inv_def)
  from disconnect_total [OF dbi] obtain db where db: "disconnect e p (pm_db pm) = Some db" by blast
  from inv have "hsd_inv items (ping_peers pm)" "hsd_inv items (status_peers pm)" by (simp_all add: pm_inv_def)
  from timer_remove [OF this(1), of p] timer_remove [OF this(2), of p]
  obtain b ping b' stat where t: "hsd_remove (lib_dq L) p (ping_peers pm) = Some (b, ping)" "hsd_inv items ping"
    "default_entry_timeout ping = default_entry_timeout (ping_peers pm)"
    "\<forall>q. hsd_contains q ping \<longleftrightarrow> q \<noteq> p \<and> hsd_contains q (ping_peers pm)"
    "hsd_remove (lib_dq L) p (status_peers pm) = Some (b', stat)" "hsd_inv items stat"
    "default_entry_timeout stat = default_entry_timeout (status_peers pm)"
    "\<forall>q. hsd_contains q stat \<longleftrightarrow> q \<noteq> p \<and> hsd_contains q (status_peers pm)" by blast
  let ?pm' = "(with_db db pm)\<lparr> ping_peers := ping, status_peers := stat \<rparr>"
  have "pm_inv X items ?pm'"
    using inv t disconnect_inv [OF dbi db] cod_disconnect [OF dbi db] unfolding pm_inv_def by (simp add: with_db_def)
  then show ?thesis using db t by (simp add: notify_disconnect_def)
qed

lemma peer_statusd_ok:
  assumes "pm_inv X items pm"
  shows "\<exists>pm'. peer_statusd L e p pm = Some pm' \<and> pm_inv X items pm'"
proof -
  from timer_insert [OF pm_timers(2,4) [OF assms], of e p] assms show ?thesis by (auto simp: peer_statusd_def pm_inv_def)
qed

lemma ping_request_ok:
  assumes "pm_inv X items pm"
  shows "\<exists>pm'. ping_request L e p seq pm = Some pm' \<and> pm_inv X items pm'"
proof -
  from timer_insert [OF pm_timers(1,3) [OF assms], of e p] obtain s where "hsd_insert (lib_dq L) e p (ping_peers pm) = Some s"
    "pm_inv X items (pm\<lparr> ping_peers := s \<rparr>)" using assms by (auto simp: pm_inv_def)
  with assms show ?thesis by (auto simp: ping_request_def Let_def split: option.splits)
qed

lemma poll_discovery_ok:
  assumes "pm_inv X items pm" and "disc_call_ok (lib_enr L) (lib_key L) (e, PollDiscovery inp)"
  shows "\<exists>ev pm'. poll_discovery L e inp pm = Some (ev, pm') \<and> pm_inv X items pm' \<and>
           (\<forall>ttl enrs. ev = Ready (QueryResult ttl enrs) \<longrightarrow>
              (\<forall>enr \<in> set enrs. enr_peer_id (lib_enr L) (lib_key L) enr \<noteq> None))"
proof -
  from assms(1) have d: "disc_inv (pm_discovery pm)" by (simp add: pm_inv_def)
  from discovery_poll_ok [OF d assms(2), of "lib_disc L" "lib_write L" "enr_file pm"] obtain ev d' disk'
    where p: "discovery_poll (lib_disc L) (lib_enr L) (lib_key L) (lib_write L) e inp (pm_discovery pm) (enr_file pm) =
               Some (ev, d', disk')" "disc_inv d'" by blast
  moreover have "\<forall>enr \<in> set enrs. enr_peer_id (lib_enr L) (lib_key L) enr \<noteq> None"
    if "ev = Ready (QueryResult ttl enrs)" for ttl enrs
    using p(1) that
    by (auto simp: discovery_poll_def poll_stream_def dest: cached_enrs_have_ids split: if_splits option.splits prod.splits event_stream.splits poll.splits sum.splits)
  ultimately show ?thesis using assms(1) by (auto simp: poll_discovery_def pm_inv_def)
qed

lemma discovery_events_ok:
  assumes "pm_inv X items pm"
    and "list_all (\<lambda>inp. disc_call_ok (lib_enr L) (lib_key L) (e, PollDiscovery inp)) inps"
  shows "\<exists>pm'. discovery_events L e inps pm = Some pm' \<and> pm_inv X items pm'"
  using assms
proof (induction inps arbitrary: pm)
  case Nil
  then show ?case using poll_discovery_ok [OF Nil.prems(1), of e quiet_input] by (auto simp: quiet_input_def)
next
  case (Cons inp inps)
  from poll_discovery_ok [OF Cons.prems(1), of e inp] Cons.prems(2) obtain ev pm1
    where p: "poll_discovery L e inp pm = Some (ev, pm1)" "pm_inv X items pm1"
      and ids: "\<And>ttl enrs. ev = Ready (QueryResult ttl enrs) \<Longrightarrow> \<forall>enr \<in> set enrs. enr_peer_id (lib_enr L) (lib_key L) enr \<noteq> None"
    by auto
  have IH: "\<exists>pm'. discovery_events L e inps pm2 = Some pm' \<and> pm_inv X items pm'" if "pm_inv X items pm2" for pm2
    using Cons.IH [OF that] Cons.prems(2) by simp
  consider s where "ev = Ready (SocketUpdated s)" | ttl enrs where "ev = Ready (QueryResult ttl enrs)" | "ev = Pending"
    by (metis discovery_event.exhaust poll.exhaust)
  then show ?case
  proof cases
    case 1
    with p IH [of "pm_socket_updated _ pm1"] show ?thesis by (simp add: pm_socket_updated_def)
  next
    case 2
    from peers_discovered_total [OF ids [OF 2]] obtain pm2 where "peers_discovered L enrs ttl pm1 = Some pm2" by blast
    with p 2 IH [OF peers_discovered_inv [OF p(2) this]] show ?thesis by simp
  next
    case 3
    with p show ?thesis by simp
  qed
qed

lemma pm_poll_next_ok:
  assumes "pm_inv X items pm"
    and "list_all (\<lambda>inp. disc_call_ok (lib_enr L) (lib_key L) (e, PollDiscovery inp)) inps"
  shows "\<exists>out pm'. pm_poll_next L e ticks inps pm = Some (out, pm') \<and> pm_inv X items pm'"
proof -
  from discovery_events_ok [OF pm_heartbeat_inv [OF assms(1)] assms(2), of ticks] obtain pm1
    where pm1: "discovery_events L e inps ((pm_heartbeat ^^ ticks) pm) = Some pm1" "pm_inv X items pm1" by blast
  from timer_loop_ok [OF pm_timers(1,3) [OF pm1(2)], of EvPing e "pm_events pm1"] obtain pm2
    where pm2: "poll_pings L e pm1 = Some pm2" "pm_inv X items pm2"
    using pm1(2) by (auto simp: poll_pings_def pm_inv_def)
  from timer_loop_ok [OF pm_timers(2,4) [OF pm2(2)], of EvStatus e "pm_events pm2"] obtain pm3
    where pm3: "poll_statuses L e pm2 = Some pm3" "pm_inv X items pm3"
    using pm2(2) by (auto simp: poll_statuses_def pm_inv_def)
  have "pm_inv X items (pm3\<lparr> pm_events := evs \<rparr>)" for evs using pm3(2) by (simp add: pm_inv_def)
  with pm1 pm2 pm3 show ?thesis by (auto simp: pm_poll_next_def split: list.splits)
qed

end

lemma addresses_of_peer_ok:
  assumes "pm_inv X items pm" and "peer_id_to_node_id (lib_key L) p \<noteq> None"
  shows "\<exists>addrs pm'. addresses_of_peer L p pm = Some (addrs, pm') \<and> pm_inv X items pm'"
proof -
  have "\<exists>r d. enr_of_peer (lib_disc L) (lib_key L) p (pm_discovery pm) = Some (r, d) \<and> disc_inv d"
    using assms by (intro enr_of_peer_ok) (simp_all add: pm_inv_def)
  then show ?thesis using assms(1) by (auto simp: addresses_of_peer_def pm_inv_discovery split: option.splits)
qed

context pm_env
begin

text \<open>A poll for which nothing new is ready takes an event or moves due timers to the events: what there
  is to report shrinks with every event that is returned.\<close>

definition pm_load :: "env \<Rightarrow> ('q, 'd, 'l, 'e) peer_manager \<Rightarrow> nat" where
  "pm_load e pm = card (tq.hsd.due e (ping_peers pm)) + card (tq.hsd.due e (status_peers pm)) + length (pm_events pm)"

lemma timer_loop_load:
  assumes "hsd_inv items s" and "0 < default_entry_timeout s \<and> default_entry_timeout s \<le> dq_max (lib_dq L)"
    and "timer_loop (hsd_poll_next (lib_dq L)) (hsd_insert (lib_dq L)) mk e s evs = Some (s', evs')"
  shows "card (tq.hsd.due e s') + length evs' = card (tq.hsd.due e s) + length evs"
proof -
  obtain faults where "errors_pass (lib_dq L) faults" using timer_errors ..
  from tq.hsd.timer_loop_ends [OF timer_errors_end [OF this] assms(1,2), where mk = mk and e = e and evs = evs] assms(3) obtain ps
    where l: "evs' = evs @ map mk ps" "distinct ps" "set ps \<subseteq> tq.hsd.due e s"
      "\<forall>k. hsd_abs items s' k = (if k \<in> set ps then Some (now e + default_entry_timeout s) else hsd_abs items s k)"
    by auto
  have "tq.hsd.due e s' = tq.hsd.due e s - set ps" using l(4) assms(2) by (auto simp: tq.hsd.due_def split: if_splits)
  with l(2,3) tq.hsd.finite_due [OF assms(1), of e] have "card (tq.hsd.due e s') + length ps = card (tq.hsd.due e s)"
    by (metis card_Diff_subset card_mono distinct_card finite_subset le_add_diff_inverse2)
  with l(1) show ?thesis by simp
qed

lemma quiet_poll_load:
  assumes "pm_inv X items pm" and "pm_poll_next L e 0 [] pm = Some (Ready (Some ev), pm')"
  shows "pm_load e pm' < pm_load e pm"
proof -
  from assms(2) obtain d1 pm1 pm2 pm3 where
    1: "poll_discovery L e quiet_input pm = Some (d1, pm1)" and 2: "poll_pings L e pm1 = Some pm2" and
    3: "poll_statuses L e pm2 = Some pm3" and 4: "pm_events pm3 = ev # pm_events pm'" "pm' = pm3\<lparr> pm_events := pm_events pm' \<rparr>"
    by (auto simp: pm_poll_next_def split: option.splits list.splits)
  have same: "ping_peers pm1 = ping_peers pm" "status_peers pm1 = status_peers pm" "pm_events pm1 = pm_events pm"
    using 1 by (auto simp: poll_discovery_def)
  have "card (tq.hsd.due e (ping_peers pm2)) + length (pm_events pm2) = card (tq.hsd.due e (ping_peers pm1)) + length (pm_events pm1)"
    "status_peers pm2 = status_peers pm1"
    using 2 timer_loop_load [of "ping_peers pm1" EvPing e "pm_events pm1"] pm_timers [OF assms(1)] same
    by (auto simp: poll_pings_def)
  moreover have "card (tq.hsd.due e (status_peers pm3)) + length (pm_events pm3) = card (tq.hsd.due e (status_peers pm2)) + length (pm_events pm2)"
    "ping_peers pm3 = ping_peers pm2"
    using 3 timer_loop_load [of "status_peers pm2" EvStatus e "pm_events pm2"] pm_timers [OF assms(1)] same calculation(2)
    by (auto simp: poll_statuses_def)
  moreover have "ping_peers pm' = ping_peers pm3" "status_peers pm' = status_peers pm3"
    by (subst 4(2), simp)+
  ultimately show ?thesis using same 4(1) by (simp add: pm_load_def)
qed

lemma pm_step_ok:
  assumes inv: "pm_inv X items pm" and ok: "pm_call_ok L c"
  shows "\<exists>out pm'. pm_step L c pm = Some (out, pm') \<and> pm_inv X items pm'"
proof -
  obtain e call where c: "c = (e, call)" by (cases c)
  have chk: "\<not> overflow_checks e" if "call = PmConnectIngoing p \<or> call = PmConnectOutgoing p \<or> call = PmDialing p" for p
    using ok c that by auto
  show ?thesis
  proof (cases call)
    case (PmStatusd p) from peer_statusd_ok [OF inv, of e p] show ?thesis by (auto simp: c PmStatusd)
  next
    case (PmNotifyDisconnect p) from notify_disconnect_ok [OF inv, of e p] show ?thesis
      by (auto simp: c PmNotifyDisconnect)
  next
    case (PmConnectIngoing p) from connect_peer_ok [OF inv chk, of p p CtIngoingConnected] PmConnectIngoing show ?thesis
      by (auto simp: c pm_connect_ingoing_def)
  next
    case (PmConnectOutgoing p) from connect_peer_ok [OF inv chk, of p p CtOutgoingConnected] PmConnectOutgoing show ?thesis
      by (auto simp: c pm_connect_outgoing_def)
  next
    case (PmDialing p) from connect_peer_ok [OF inv chk, of p p CtDialing] PmDialing show ?thesis
      by (auto simp: c pm_dialing_peer_def)
  next
    case (PmPingRequest p seq) from ping_request_ok [OF inv, of e p seq] show ?thesis by (auto simp: c PmPingRequest)
  next
    case (PmAddresses p) from addresses_of_peer_ok [OF inv, of L p] ok show ?thesis by (auto simp: c PmAddresses)
  next
    case (PmPoll ticks inps) from pm_poll_next_ok [OF inv, of e inps ticks] ok show ?thesis by (auto simp: c PmPoll)
  qed (use inv in \<open>auto simp: c report_peer_inv pm_identify_inv handle_rpc_error_inv pong_response_inv
         meta_data_response_inv\<close>)
qed

end

sublocale pm_env \<subseteq> pm: op_machine "pm_step L" "pm_inv X items" "pm_call_ok L"
  for X
  by unfold_locales (rule pm_step_ok)

text \<open>The list queue of the delay set, the reference discovery and the reference records.\<close>

definition ref_pm_lib ::
  "(peer_id list_queue, ref_enr list, (peer_id \<times> ref_enr) list, ref_builder, ref_enr, u8 list) pm_lib" where
  "ref_pm_lib = \<lparr> lib_dq = lq_ops, lib_disc = ref_disc_lib, lib_enr = ref_enr_lib, lib_key = ref_key_lib,
                  lib_write = (\<lambda>_. FileContent) \<rparr>"

interpretation ref_pm: pm_env ref_pm_lib map_of
proof (rule pm_env.intro)
  show "delay_queue (lib_dq ref_pm_lib) map_of" by (simp add: ref_pm_lib_def lq.delay_queue_axioms)
  show "\<exists>faults. errors_pass (lib_dq ref_pm_lib) faults"
    by (rule exI [of _ "\<lambda>_. 0"])
      (auto simp: errors_pass_def ref_pm_lib_def lq_ops_def lq_poll_def split: option.splits if_splits)
qed

context pm_env
begin

lemma pm_new_inv:
  assumes "pm_new L key config g disk = Some (Inr pm)" and "g_peers g = peerdb_new"
  shows "pm_inv X items pm"
proof -
  obtain d where d: "discovery_new (lib_disc L) (lib_key L) key config g = Some (Inr d)"
    using assms(1) by (auto simp: pm_new_def split: option.splits sum.splits)
  have "\<not> is_connected_or_dialing peerdb_new p" for p
    by (simp add: peerdb_new_def cod_entry entry_or_default_def)
  with assms d show ?thesis
    by (auto simp: pm_new_def pm_inv_def peerdb_new_inv tq.new_inv discover_peers_inv [OF discovery_new_inv [OF d]])
      (simp_all add: hsd_new_def)
qed

lemma poll_pings_exact:
  assumes inv: "pm_inv X items pm"
    and prompt: "prompt_queue (lib_dq L) items"
  shows "\<exists>pm' ps. poll_pings L e pm = Some pm' \<and> pm_events pm' = pm_events pm @ map EvPing ps \<and> distinct ps \<and>
           set ps = {p. \<exists>t. hsd_abs items (ping_peers pm) p = Some t \<and> t \<le> now e} \<and>
           hsd_abs items (ping_peers pm') =
             (\<lambda>p. if p \<in> set ps then Some (now e + from_secs PING_INTERVAL) else hsd_abs items (ping_peers pm) p)"
proof -
  have i: "default_entry_timeout (ping_peers pm) = from_secs PING_INTERVAL"
    using inv by (simp add: pm_inv_def)
  obtain faults where f: "errors_pass (lib_dq L) faults" using timer_errors ..
  have "tq.hsd.due e s = {}"
    if "hsd_inv items s" "hsd_poll_next (lib_dq L) e s = (r, s')" "\<forall>x. r \<noteq> Ready (Some x)" for s r s'
  proof -
    obtain r0 q' where poll: "dq_poll (lib_dq L) (now e) (expirations s) = (r0, q')" by force
    with that(2,3) have "\<forall>x. r0 \<noteq> Ready (Some x)"
      by (auto simp: hsd_poll_next_def split: option.splits sum.splits)
    with prompt poll have "now e < d" if "items (expirations s) h = Some (k, d)" for h k d
      using that unfolding prompt_queue_def by blast
    then show ?thesis
      by (auto simp: tq.hsd.due_def hsd_abs_def split: option.splits) (metis leD)
  qed
  from tq.hsd.timer_loop_exact [OF timer_errors_end [OF f] this pm_timers(1,3) [OF inv], where mk = EvPing and evs = "pm_events pm"] i
  show ?thesis
    by (fastforce simp: poll_pings_def PING_INTERVAL_def tq.hsd.due_def)
qed

lemma run_pm_ok:
  assumes "pm_new L key config g disk = Some (Inr pm)" and "g_peers g = peerdb_new" and "list_all (pm_call_ok L) cs"
  shows "\<exists>outs pm'. run_calls (pm_step L) cs pm = Some (outs, pm') \<and> pm_inv X items pm'"
  using pm.run_ok [OF pm_new_inv [OF assms(1,2)] assms(3)] .

end

section \<open>Properties\<close>

text \<open>The peer manager works on: from a new manager over a delay queue that keeps its contract
  and reports no errors, every sequence of calls returns without a panic, the polling loops included;
  and at every moment each peer that is connected or being dialed has a running ping timer and a
  running status timer, so that it is pinged and asked for its status again and again, and the number
  of remembered disconnected peers is within its limit.\<close>

theorem peer_manager_keeps_timers:
  assumes "pm_env L items" and "pm_new L key config g disk = Some (Inr pm0)" and "g_peers g = peerdb_new"
    and "list_all (pm_call_ok L) cs"
  shows "\<exists>outs pm. run_calls (pm_step L) cs pm0 = Some (outs, pm) \<and>
           (\<forall>p. is_connected_or_dialing (pm_db pm) p \<longrightarrow>
              hsd_contains p (ping_peers pm) \<and> hsd_contains p (status_peers pm)) \<and>
           n_dc (pm_db pm) = length (disconnected_peers (pm_db pm)) \<and> n_dc (pm_db pm) \<le> MAX_DC_PEERS"
proof -
  from pm_env.run_pm_ok [OF assms] obtain outs pm
    where "run_calls (pm_step L) cs pm0 = Some (outs, pm)" "pm_inv UNIV items pm" by blast
  then show ?thesis
    by (auto simp: pm_inv_def peerdb_inv_def disconnected_peers_def count_if_def)
qed

definition ref_pm_start :: "(peer_id list_queue, ref_enr list, (peer_id \<times> ref_enr) list, ref_enr) peer_manager" where
  "ref_pm_start =
     \<lparr> pm_globals = ref_globals, pm_events = [], ping_peers = hsd_new lq_ops (from_secs PING_INTERVAL),
       status_peers = hsd_new lq_ops (from_secs STATUS_INTERVAL), target_peers = 50,
       pm_discovery = discover_peers ref_discovery, enr_file = NoFile \<rparr>"

lemma ref_pm_new:
  "pm_new ref_pm_lib (Ed25519Pair (replicate 64 1)) (config_default [] [] [] None) ref_globals NoFile = Some (Inr ref_pm_start)"
  using ref_discovery_new
  by (simp add: pm_new_def ref_pm_lib_def ref_pm_start_def) (simp add: config_default_def)

lemma ref_globals_peers: "g_peers ref_globals = peerdb_new"
  by (simp add: ref_globals_def)

theorem peer_manager_keeps_timers_witness:
  "\<exists>outs pm. run_calls (pm_step ref_pm_lib)
       [(\<lparr> now = 1, overflow_checks = False \<rparr>, PmConnectIngoing [1, 2]),
        (\<lparr> now = 40000, overflow_checks = False \<rparr>, PmPoll 1 []),
        (\<lparr> now = 40001, overflow_checks = False \<rparr>, PmNotifyDisconnect [1, 2])] ref_pm_start = Some (outs, pm) \<and>
     (\<forall>p. is_connected_or_dialing (pm_db pm) p \<longrightarrow>
        hsd_contains p (ping_peers pm) \<and> hsd_contains p (status_peers pm)) \<and>
     n_dc (pm_db pm) = length (disconnected_peers (pm_db pm)) \<and> n_dc (pm_db pm) \<le> MAX_DC_PEERS"
  by (rule peer_manager_keeps_timers [OF ref_pm.pm_env_axioms ref_pm_new ref_globals_peers]) simp

lemma ref_pm_start_inv: "pm_inv X map_of ref_pm_start"
  by (rule ref_pm.pm_new_inv [OF ref_pm_new ref_globals_peers])

text \<open>C27. Pings go out exactly when they are due: over a delay queue that is prompt, one run of the
  ping loop queues one ping event for every peer whose timer has run out, and for no other peer, and
  sets exactly those timers to the full interval of 30 seconds again.\<close>

theorem pings_exactly_when_due:
  assumes "pm_env L items" and "pm_inv X items pm" and "prompt_queue (lib_dq L) items"
  shows "\<exists>pm' ps. poll_pings L e pm = Some pm' \<and> pm_events pm' = pm_events pm @ map EvPing ps \<and> distinct ps \<and>
           set ps = {p. \<exists>t. hsd_abs items (ping_peers pm) p = Some t \<and> t \<le> now e} \<and>
           hsd_abs items (ping_peers pm') =
             (\<lambda>p. if p \<in> set ps then Some (now e + 30000) else hsd_abs items (ping_peers pm) p)"
proof -
  have thirty: "from_secs PING_INTERVAL = 30000" by (simp add: PING_INTERVAL_def)
  show ?thesis using pm_env.poll_pings_exact [OF assms, where e = e] unfolding thirty .
qed

theorem pings_exactly_when_due_witness:
  "\<exists>pm' ps. poll_pings ref_pm_lib \<lparr> now = 7, overflow_checks = True \<rparr> ref_pm_start = Some pm' \<and>
     pm_events pm' = pm_events ref_pm_start @ map EvPing ps \<and>
     set ps = {p. \<exists>t. hsd_abs map_of (ping_peers ref_pm_start) p = Some t \<and> t \<le> 7}"
proof -
  have "prompt_queue (lib_dq ref_pm_lib) map_of" using lq_prompt by (simp add: ref_pm_lib_def)
  from pings_exactly_when_due [OF ref_pm.pm_env_axioms ref_pm_start_inv this, of "\<lparr> now = 7, overflow_checks = True \<rparr>"]
  show ?thesis by auto
qed

definition cod_info :: "peer_info \<Rightarrow> bool" where
  "cod_info info \<longleftrightarrow> status_is_connected (connection_status info) \<or> status_is_dialing (connection_status info)"

lemma connected_or_dialing_count: "length (connected_or_dialing_peers db) = count_if cod_info (peers db)"
  by (simp add: connected_or_dialing_peers_def count_if_def cod_info_def)

lemma update_min_ttl_count:
  "length (connected_or_dialing_peers (update_min_ttl p t db)) = length (connected_or_dialing_peers db)"
  using count_if_insert [of cod_info p "longer_ttl t (entry_or_default db p)" "peers db"]
    count_if_pos [of "peers db" p _ cod_info]
  by (auto simp: connected_or_dialing_count update_min_ttl_def entry_or_default_def cod_info_def split: option.splits if_splits)

lemma peer_banned_entry: "peer_banned db p \<longleftrightarrow> status_is_banned (connection_status (entry_or_default db p))"
  by (simp add: peer_banned_def entry_or_default_def split: option.splits)

lemma peer_discovered_effect:
  fixes pm :: "('q, 'd, 'l, 'e) peer_manager"
  defines "suitable \<equiv> \<lambda>(pm :: ('q, 'd, 'l, 'e) peer_manager) p.
    length (connected_or_dialing_peers (pm_db pm)) < target_peers pm \<and>
    \<not> is_connected_or_dialing (pm_db pm) p \<and> \<not> peer_banned (pm_db pm) p"
  shows "pm_events (peer_discovered p ttl pm) = pm_events pm @ (if suitable pm p then [EvDial p] else []) \<and>
         suitable (peer_discovered p ttl pm) = suitable pm"
proof -
  have "peer_banned (update_min_ttl p t db) q = peer_banned db q" for p t db q
    by (auto simp: peer_banned_entry update_min_ttl_def)
  then show ?thesis
    by (auto simp: peer_discovered_def suitable_def globals_connected_or_dialing_peers_def update_min_ttl_count
        cod_update_min_ttl fun_eq_iff split: option.splits)
qed

lemma peers_discovered_effect:
  assumes "map (enr_peer_id (lib_enr L) (lib_key L)) enrs = map Some ps"
  shows "\<exists>pm'. peers_discovered L enrs ttl pm = Some pm' \<and>
     pm_events pm' = pm_events pm @ map EvDial
       (filter (\<lambda>p. length (connected_or_dialing_peers (pm_db pm)) < target_peers pm \<and>
                    \<not> is_connected_or_dialing (pm_db pm) p \<and> \<not> peer_banned (pm_db pm) p) ps)"
  using assms
proof (induction ps arbitrary: enrs pm)
  case (Cons p ps)
  then obtain enr enrs' where enrs: "enrs = enr # enrs'" "enr_peer_id (lib_enr L) (lib_key L) enr = Some p"
    "map (enr_peer_id (lib_enr L) (lib_key L)) enrs' = map Some ps" by auto
  from Cons.IH [OF enrs(3), of "peer_discovered p ttl pm"] peer_discovered_effect [of p ttl pm]
  show ?case by (auto simp: enrs(1,2) fun_eq_iff)
qed simp

text \<open>C35. Which discovered peers are dialed: when the node has fewer peers than its target, every
  discovered peer that is neither connected nor being dialed nor banned is dialed, in the order of
  the records, and otherwise none. The dials of one batch are not counted against the target: a
  single batch can queue more of them than peers are missing.\<close>

theorem discovered_peers_dialed:
  assumes "map (enr_peer_id (lib_enr L) (lib_key L)) enrs = map Some ps"
  shows "\<exists>pm'. peers_discovered L enrs ttl pm = Some pm' \<and>
     pm_events pm' = pm_events pm @ map EvDial
       (if globals_connected_or_dialing_peers (pm_globals pm) < target_peers pm
        then filter (\<lambda>p. \<not> is_connected_or_dialing (pm_db pm) p \<and> \<not> peer_banned (pm_db pm) p) ps
        else [])"
  using peers_discovered_effect [OF assms, of ttl pm]
  by (cases "length (connected_or_dialing_peers (pm_db pm)) < target_peers pm")
    (simp_all add: globals_connected_or_dialing_peers_def)

theorem discovered_peers_dialed_witness:
  "\<exists>pm'. peers_discovered ref_pm_lib [[[1, 1], [0], [0], [0], [8]], [[1, 1], [0], [0], [0], [9]]] None
           (ref_pm_start\<lparr> target_peers := 1 \<rparr>) = Some pm' \<and>
         pm_events pm' = [EvDial [0, 1, 1, 8], EvDial [0, 1, 1, 9]]"
proof -
  have "map (enr_peer_id (lib_enr ref_pm_lib) (lib_key ref_pm_lib)) [[[1, 1], [0], [0], [0], [8]], [[1, 1], [0], [0], [0], [9]]]
        = map Some [[0, 1, 1, 8], [0, 1, 1, 9]]"
    by (simp add: ref_pm_lib_def enr_peer_id_def ref_key_lib_def ref_enr_lib_def ref_key_def)
  from discovered_peers_dialed [OF this, of None "ref_pm_start\<lparr> target_peers := 1 \<rparr>"]
  show ?thesis
    by (simp add: ref_pm_start_def ref_globals_def globals_connected_or_dialing_peers_def connected_or_dialing_peers_def
        peerdb_new_def cod_entry peer_banned_entry entry_or_default_def)
qed

text \<open>What an RPC error does to a peer. The reputation never rises; protocol violations (invalid
  or undecodable data) bring it to zero, errors on our own side leave everything as it was. Nothing
  but the reputation of that peer changes: in particular no report, not even a fatal one, bans or
  disconnects anybody.\<close>

theorem rpc_error_consequences:
  fixes protocol :: protocol and err :: rpc_error
  assumes "peerdb_info (pm_db pm) p = Some info"
  defines "db' \<equiv> pm_db (handle_rpc_error p protocol err pm)"
  shows "\<exists>info'. peerdb_info db' p = Some info' \<and> info' = info\<lparr> reputation := reputation info' \<rparr> \<and>
           reputation info' \<le> reputation info \<and>
           (err = InvalidData \<or> err = DecodeError \<longrightarrow> reputation info' = 0) \<and>
           (err = HandlerRejected \<or> (\<exists>s. err = InternalError s) \<longrightarrow> info' = info) \<and>
           (\<forall>q. q \<noteq> p \<longrightarrow> peerdb_info db' q = peerdb_info (pm_db pm) q) \<and>
           (\<forall>q. peer_banned db' q = peer_banned (pm_db pm) q)"
proof (cases "rpc_error_action protocol err")
  case None
  then have "db' = pm_db pm" by (simp add: db'_def handle_rpc_error_def)
  moreover have "err \<noteq> InvalidData" "err \<noteq> DecodeError" using None by auto
  ultimately show ?thesis using assms(1) by auto
next
  case (Some a)
  let ?r = "reputation (entry_or_default db' p)"
  have db': "db' = add_reputation p (peer_action_rep_change a) (pm_db pm)"
    by (simp add: db'_def handle_rpc_error_def report_peer_def Some)
  have own: "err \<noteq> HandlerRejected" "\<And>s. err \<noteq> InternalError s" using Some by auto
  have bad: "\<not> is_good (peer_action_rep_change a)" and fatal: "err = InvalidData \<or> err = DecodeError \<Longrightarrow> a = Fatal"
    using Some by (cases "(protocol, err)" rule: rpc_error_action.cases;
        auto simp: rep_worst_def rep_bad_def split: rpc_response_error_code.splits protocol.splits)+
  have "saturating_sub x d \<le> x" for x d :: rep
    by (simp add: word_le_nat_alt unat_saturating_sub)
  moreover have "peer_banned db' q = peer_banned (pm_db pm) q" for q
    using assms(1) by (auto simp: db' peer_banned_def add_reputation_def peerdb_info_def split: option.splits)
  ultimately show ?thesis
    using assms(1) bad fatal own
    by (auto simp: db' add_reputation_def peerdb_info_def rep_worst_def)
qed

theorem rpc_error_consequences_witness:
  "\<exists>info'. peerdb_info (pm_db (handle_rpc_error [1] PStatus InvalidData
       (with_db \<lparr> peers = [([1], peer_info_default)], n_dc = 0 \<rparr> ref_pm_start))) [1] = Some info' \<and> reputation info' = 0"
  using rpc_error_consequences [of "with_db \<lparr> peers = [([1], peer_info_default)], n_dc = 0 \<rparr> ref_pm_start" "[1]"
      peer_info_default PStatus InvalidData]
  by (auto simp: peerdb_info_def)

lemma report_peer_rep:
  assumes "peerdb_info (pm_db pm) p \<noteq> None"
  shows "peerdb_info (pm_db (report_peer p a pm)) p \<noteq> None \<and>
         (\<not> is_good (peer_action_rep_change a) \<longrightarrow>
           unat (peerdb_reputation (pm_db (report_peer p a pm)) p) =
           unat (peerdb_reputation (pm_db pm) p) - unat (diff (peer_action_rep_change a)))"
  using assms
  by (auto simp: report_peer_def peerdb_reputation_def add_reputation_def peerdb_info_def unat_saturating_sub)

lemma report_peer_pow:
  assumes "peerdb_info (pm_db pm) p \<noteq> None" and "\<not> is_good (peer_action_rep_change a)"
  shows "peerdb_info (pm_db ((report_peer p a ^^ n) pm)) p \<noteq> None \<and>
         unat (peerdb_reputation (pm_db ((report_peer p a ^^ n) pm)) p) =
         unat (peerdb_reputation (pm_db pm) p) - n * unat (diff (peer_action_rep_change a))"
proof (induction n)
  case (Suc n)
  with report_peer_rep [of "(report_peer p a ^^ n) pm" p a] assms(2) show ?case by simp
qed (use assms(1) in simp)

text \<open>How many offences a peer can commit: starting from the default reputation of 50, n reports
  of a kind leave it at 50 minus n times the penalty of that kind (15, 25 and 60), but not below zero.
  Four errors of high tolerance, two of middle and one of low tolerance are enough to lose all
  reputation.\<close>

theorem offences_until_zero:
  assumes "peerdb_info (pm_db pm) p = Some info" and "reputation info = DEFAULT_REPUTATION"
  shows "unat (peerdb_reputation (pm_db ((report_peer p HighToleranceError ^^ n) pm)) p) = 50 - n * 15 \<and>
         unat (peerdb_reputation (pm_db ((report_peer p MidToleranceError ^^ n) pm)) p) = 50 - n * 25 \<and>
         unat (peerdb_reputation (pm_db ((report_peer p LowToleranceError ^^ n) pm)) p) = 50 - n * 60"
proof -
  have rep: "unat (peerdb_reputation (pm_db pm) p) = 50" "peerdb_info (pm_db pm) p \<noteq> None"
    using assms by (simp_all add: peerdb_reputation_def peerdb_info_def DEFAULT_REPUTATION_def)
  then show ?thesis
    using report_peer_pow [OF rep(2), of HighToleranceError n] report_peer_pow [OF rep(2), of MidToleranceError n]
      report_peer_pow [OF rep(2), of LowToleranceError n]
    by (simp add: rep_bad_def)
qed

theorem offences_until_zero_witness:
  "unat (peerdb_reputation (pm_db ((report_peer [1] HighToleranceError ^^ 4)
     (with_db \<lparr> peers = [([1], peer_info_default)], n_dc = 0 \<rparr> ref_pm_start))) [1]) = 0"
  using offences_until_zero [of "with_db \<lparr> peers = [([1], peer_info_default)], n_dc = 0 \<rparr> ref_pm_start" "[1]"
      peer_info_default 4]
  by (simp add: peerdb_info_def peer_info_default_def)

text \<open>Meta data converges: after a meta data response, the known meta data of the peer is at least
  as new as the response and as what was known before, and pings or pongs that announce a sequence
  number up to that of the response lead to no further request; an older response changes nothing.\<close>

theorem metadata_converges:
  fixes md :: meta_data
  assumes "peerdb_info (pm_db pm) p = Some info"
  defines "pm' \<equiv> meta_data_response p md pm"
  shows "\<exists>info' md'. peerdb_info (pm_db pm') p = Some info' \<and> peer_meta_data info' = Some md' \<and>
           seq_number md \<le> seq_number md' \<and>
           (\<forall>old. peer_meta_data info = Some old \<longrightarrow>
              seq_number old \<le> seq_number md' \<and> (seq_number md \<le> seq_number old \<longrightarrow> info' = info)) \<and>
           (\<forall>seq. seq \<le> seq_number md \<longrightarrow> pong_response p seq pm' = pm')"
proof -
  let ?info' = "newer_metadata md info"
  have known: "peerdb_info (pm_db pm') p = Some ?info'"
    using assms(1) by (simp add: pm'_def meta_data_response_def peer_info_mut_def peerdb_info_def)
  obtain md' where md': "peer_meta_data ?info' = Some md'" "seq_number md \<le> seq_number md'"
    "\<forall>old. peer_meta_data info = Some old \<longrightarrow>
       seq_number old \<le> seq_number md' \<and> (seq_number md \<le> seq_number old \<longrightarrow> ?info' = info)"
  proof (cases "peer_meta_data info")
    case (Some old)
    then show ?thesis
      by (cases "seq_number old < seq_number md") (auto simp: newer_metadata_def not_less intro!: that)
  qed (auto simp: newer_metadata_def intro!: that)
  have "pong_response p seq pm' = pm'" if "seq \<le> seq_number md" for seq
    using known md' that by (auto simp: pong_response_def metadata_outdated_def)
  with known md' show ?thesis by blast
qed

theorem metadata_converges_witness:
  "\<exists>info' md'. peerdb_info (pm_db (meta_data_response [1] \<lparr> seq_number = 5, attnets = [] \<rparr>
       (with_db \<lparr> peers = [([1], peer_info_default)], n_dc = 0 \<rparr> ref_pm_start))) [1] = Some info' \<and>
     peer_meta_data info' = Some md' \<and> 5 \<le> seq_number md'"
  using metadata_converges [of "with_db \<lparr> peers = [([1], peer_info_default)], n_dc = 0 \<rparr> ref_pm_start" "[1]"
      peer_info_default "\<lparr> seq_number = 5, attnets = [] \<rparr>"]
  by (auto simp: peerdb_info_def)

text \<open>The manager records the direction of connections the wrong way round: a peer that was not
  connected before and connects to us is recorded with one outgoing and no incoming connection, and a
  peer that we dialed successfully with one incoming and no outgoing connection.\<close>

theorem connection_direction_swapped:
  assumes "pm_env L items" and "pm_inv X items pm" and "\<not> peerdb_is_connected (pm_db pm) p" and "\<not> overflow_checks e"
  shows "(\<exists>pm'. pm_connect_ingoing L e p pm = Some (True, pm') \<and>
                peerdb_connection_status (pm_db pm') p = Some (Connected 0 1)) \<and>
         (\<exists>pm'. pm_connect_outgoing L e p pm = Some (True, pm') \<and>
                peerdb_connection_status (pm_db pm') p = Some (Connected 1 0))"
proof -
  have "\<not> status_is_connected (connection_status (entry_or_default (pm_db pm) p))"
    using assms(3)
    by (auto simp: peerdb_is_connected_def peerdb_connection_status_def peerdb_info_def entry_or_default_def
        split: option.splits peer_connection_status.splits)
  then have st: "status_connect_ingoing e (connection_status (entry_or_default (pm_db pm) p)) = Some (Connected 1 0)"
    "status_connect_outgoing e (connection_status (entry_or_default (pm_db pm) p)) = Some (Connected 0 1)"
    by (cases "connection_status (entry_or_default (pm_db pm) p)"; simp)+
  from pm_env.connect_peer_ok [OF assms(1,2,4), of p CtIngoingConnected]
    pm_env.connect_peer_ok [OF assms(1,2,4), of p CtOutgoingConnected]
  show ?thesis
    by (auto simp: pm_connect_ingoing_def pm_connect_outgoing_def connect_peer_def connect_ingoing_def connect_outgoing_def
        Let_def st with_db_def peerdb_connection_status_def peerdb_info_def split: option.splits)
qed

theorem connection_direction_swapped_witness:
  "\<exists>pm'. pm_connect_ingoing ref_pm_lib \<lparr> now = 0, overflow_checks = False \<rparr> [1] ref_pm_start = Some (True, pm') \<and>
         peerdb_connection_status (pm_db pm') [1] = Some (Connected 0 1)"
proof -
  have "\<not> peerdb_is_connected (pm_db ref_pm_start) [1]"
    by (simp add: ref_pm_start_def ref_globals_def peerdb_new_def peerdb_is_connected_def peerdb_connection_status_def peerdb_info_def)
  from connection_direction_swapped [OF ref_pm.pm_env_axioms ref_pm_start_inv this, of "\<lparr> now = 0, overflow_checks = False \<rparr>"]
  show ?thesis by simp
qed

text \<open>The addresses handed to libp2p for dialing a peer are exactly the TCP addresses of its
  node record, and there are none for an unknown peer.\<close>

theorem addresses_of_peer_tcp:
  assumes "enr_of_peer (lib_disc L) (lib_key L) p (pm_discovery pm) = Some (found, d)"
  shows "addresses_of_peer L p pm =
           Some (case found of Some enr \<Rightarrow> enr_multiaddr_tcp (lib_enr L) enr | None \<Rightarrow> [], pm\<lparr> pm_discovery := d \<rparr>)"
  using assms
  by (auto simp: addresses_of_peer_def enr_multiaddr_def enr_multiaddr_tcp_def split: option.splits)

theorem addresses_of_peer_tcp_witness:
  "addresses_of_peer ref_pm_lib [0, 1, 1, 8] ref_pm_start = Some ([], ref_pm_start)"
proof -
  have "hd (replicate 32 (0 :: u8)) \<noteq> hd (8 # replicate 31 0)" by simp
  then have neq: "replicate 32 (0 :: u8) \<noteq> 8 # replicate 31 0" by metis
  have "enr_of_peer (lib_disc ref_pm_lib) (lib_key ref_pm_lib) [0, 1, 1, 8] (pm_discovery ref_pm_start) =
          Some (None, pm_discovery ref_pm_start)"
    by (simp add: enr_of_peer_def ref_pm_lib_def ref_disc_lib_def ref_pm_start_def ref_discovery_def
        discover_peers_def peer_id_to_node_id_def ref_key_lib_def node_id_parse_def ref_enr_lib_def ref_key_def neq)
  from addresses_of_peer_tcp [OF this] show ?thesis by simp
qed

end
