(* ===== verification/Rpc_Handler.thy ===== *)
theory Rpc_Handler
  imports Delay_Set Rpc_Protocol
begin

text \<open>
  \<open>core/network/src/rpc/handler.rs\<close>: the handler of one connection, which drives the inbound and
  outbound RPC substreams, their timeouts and the queue of requests to dial.

  A substream is a tokio \<open>Framed\<close> over a libp2p connection: the record \<open>stream_ops\<close> holds what the
  handler calls on it. The timeouts are tokio \<open>DelayQueue\<close>s (\<open>delay_queue_ops\<close>). \<open>poll\<close> is split at
  its comments into phases; a phase returns from \<open>poll\<close> with an event (\<open>Return\<close>) or goes on
  (\<open>Continue\<close>). A panic is \<open>None\<close>: a poisoned substream, a missing map entry, \<open>DelayQueue::remove\<close> on a
  key that is not in the queue, an overflow of a counter. The two purge loops and the loop that
  drives a substream have no bound in the source and are partial functions.
\<close>

section \<open>Constants and data\<close>

definition RESPONSE_TIMEOUT :: nat where "RESPONSE_TIMEOUT = 10"
definition IO_ERROR_RETRIES :: u8 where "IO_ERROR_RETRIES = 3"
definition SHUTDOWN_TIMEOUT_SECS :: nat where "SHUTDOWN_TIMEOUT_SECS = 15"

type_synonym substream_id = nat

datatype handler_err =
    InboundErr substream_id protocol rpc_error
  | OutboundErr request_id protocol rpc_error

datatype rpc_received = ReceivedRequest substream_id rpc_request | ReceivedResponse request_id rpc_response

datatype rpc_send = SendRequest request_id rpc_request | SendResponse substream_id rpc_coded_response

datatype handler_state = HActive | HShuttingDown instant | HDeactivated

datatype keep_alive_mode = KaYes | KaUntil instant | KaNo

datatype 'si inbound_substream_state =
    ResponsePendingSend 'si rpc_coded_response bool
  | ResponsePendingFlush 'si bool
  | ResponseIdle 'si
  | InClosing 'si
  | InPoisoned

datatype 'so outbound_substream_state =
    RequestPendingResponse 'so rpc_request
  | OutClosing 'so
  | OutPoisoned

record 'so outbound_info =
  oi_state :: "'so outbound_substream_state"
  oi_delay_key :: dq_key
  oi_proto :: protocol
  oi_remaining_chunks :: "nat option"
  oi_req_id :: request_id

record ('q, 'si, 'so) rpc_handler =
  pending_errors :: "handler_err list"
  events_out :: "rpc_received list"
  dial_queue :: "(request_id \<times> rpc_request) list"
  dial_negotiated :: u32
  inbound_substreams :: "(substream_id \<times> 'si inbound_substream_state \<times> dq_key option \<times> protocol) list"
  inbound_substreams_delay :: 'q
  outbound_substreams :: "(substream_id \<times> 'so outbound_info) list"
  outbound_substreams_delay :: 'q
  queued_outbound_items :: "(substream_id \<times> rpc_coded_response list) list"
  current_inbound_substream_id :: substream_id
  current_outbound_substream_id :: substream_id
  max_dial_negotiated :: u32
  keep_alive :: keep_alive_mode
  h_state :: handler_state
  inactive_timeout :: duration
  outbound_io_error_retries :: u8

record ('si, 'so) stream_ops =
  in_poll_ready :: "'si \<Rightarrow> (rpc_error + unit) poll \<times> 'si"
  in_start_send :: "rpc_coded_response \<Rightarrow> 'si \<Rightarrow> (rpc_error + unit) \<times> 'si"
  in_poll_flush :: "'si \<Rightarrow> (rpc_error + unit) poll \<times> 'si"
  in_poll_close :: "'si \<Rightarrow> (rpc_error + unit) poll \<times> 'si"
  out_poll_next :: "'so \<Rightarrow> (rpc_error + rpc_coded_response) option poll \<times> 'so"
  out_poll_close :: "'so \<Rightarrow> (rpc_error + unit) poll \<times> 'so"

datatype handler_event =
    HCustom "handler_err + rpc_received"
  | HClose rpc_error
  | HOutboundSubstreamRequest "request_id \<times> rpc_request"

datatype 'h flow = Return handler_event 'h | Continue 'h

section \<open>Substream states\<close>

definition timed_out_response :: rpc_coded_response where
  "timed_out_response = ServerError (error_type_from_string ''Request timed out'')"

fun inbound_close ::
  "'si inbound_substream_state \<Rightarrow> rpc_coded_response list \<Rightarrow>
   ('si inbound_substream_state \<times> rpc_coded_response list) option" where
  "inbound_close (ResponsePendingSend s message closing) outbound_queue =
     Some (ResponsePendingSend s message closing,
           if \<not> closing then outbound_queue @ [timed_out_response] else outbound_queue)"
| "inbound_close (ResponsePendingFlush s closing) outbound_queue =
     Some (ResponsePendingFlush s closing,
           if \<not> closing then outbound_queue @ [timed_out_response] else outbound_queue)"
| "inbound_close (ResponseIdle s) outbound_queue =
     Some (ResponsePendingSend s timed_out_response True, outbound_queue)"
| "inbound_close (InClosing s) outbound_queue = Some (InClosing s, outbound_queue)"
| "inbound_close InPoisoned outbound_queue = None"

text \<open>The new state, the queue, and whether there is something new to send.\<close>

fun apply_queued_responses ::
  "'si \<Rightarrow> rpc_coded_response list option \<Rightarrow>
   'si inbound_substream_state \<times> rpc_coded_response list option \<times> bool" where
  "apply_queued_responses s (Some (chunk # queue)) = (ResponsePendingSend s chunk False, Some queue, True)"
| "apply_queued_responses s queue = (ResponseIdle s, queue, False)"

section \<open>Operations outside of poll\<close>

definition handler_new :: "('q, substream_id) delay_queue_ops \<Rightarrow> duration \<Rightarrow> ('q, 'si, 'so) rpc_handler" where
  "handler_new dq timeout =
     \<lparr> pending_errors = [], events_out = [], dial_queue = [], dial_negotiated = 0, inbound_substreams = [],
       inbound_substreams_delay = dq_new dq, outbound_substreams = [], outbound_substreams_delay = dq_new dq,
       queued_outbound_items = [], current_inbound_substream_id = 0, current_outbound_substream_id = 0,
       max_dial_negotiated = 8, keep_alive = KaYes, h_state = HActive, inactive_timeout = timeout,
       outbound_io_error_retries = 0 \<rparr>"

definition update_keep_alive :: "env \<Rightarrow> ('q, 'si, 'so) rpc_handler \<Rightarrow> ('q, 'si, 'so) rpc_handler" where
  "update_keep_alive e h =
     (let should_shutdown = dial_queue h = [] \<and> outbound_substreams h = [] \<and> inbound_substreams h = [] \<and>
            pending_errors h = [] \<and> events_out h = [] \<and> dial_negotiated h = 0
      in (case keep_alive h of
            KaYes \<Rightarrow> if should_shutdown then h\<lparr> keep_alive := KaUntil (now e + inactive_timeout h) \<rparr> else h
          | KaUntil _ \<Rightarrow> if should_shutdown then h else h\<lparr> keep_alive := KaYes \<rparr>
          | KaNo \<Rightarrow> h))"

definition push_error :: "handler_err \<Rightarrow> ('q, 'si, 'so) rpc_handler \<Rightarrow> ('q, 'si, 'so) rpc_handler" where
  "push_error err h = h\<lparr> pending_errors := pending_errors h @ [err] \<rparr>"

text \<open>The dial queue is emptied from its end (\<open>pop\<close>), every request being reported as rejected.\<close>

definition shutdown ::
  "env \<Rightarrow> (request_id \<times> rpc_request) option \<Rightarrow> ('q, 'si, 'so) rpc_handler \<Rightarrow> ('q, 'si, 'so) rpc_handler" where
  "shutdown e final_msg h =
     update_keep_alive e
       (if h_state h = HActive
        then h\<lparr> pending_errors := pending_errors h @
                   map (\<lambda>(rid, req). OutboundErr rid (req_protocol req) HandlerRejected) (rev (dial_queue h)),
                dial_queue := (case final_msg of Some m \<Rightarrow> [m] | None \<Rightarrow> []),
                h_state := HShuttingDown (now e + from_secs SHUTDOWN_TIMEOUT_SECS) \<rparr>
        else h)"

definition send_request ::
  "env \<Rightarrow> request_id \<Rightarrow> rpc_request \<Rightarrow> ('q, 'si, 'so) rpc_handler \<Rightarrow> ('q, 'si, 'so) rpc_handler" where
  "send_request e rid req h =
     (case h_state h of
        HActive \<Rightarrow> update_keep_alive e (h\<lparr> dial_queue := dial_queue h @ [(rid, req)] \<rparr>)
      | _ \<Rightarrow> push_error (OutboundErr rid (req_protocol req) HandlerRejected) h)"

definition set_inbound_state ::
  "substream_id \<Rightarrow> 'si inbound_substream_state \<Rightarrow> ('q, 'si, 'so) rpc_handler \<Rightarrow> ('q, 'si, 'so) rpc_handler" where
  "set_inbound_state rid st h =
     (case hm_get (inbound_substreams h) rid of
        Some (_, key, proto) \<Rightarrow> h\<lparr> inbound_substreams := hm_insert rid (st, key, proto) (inbound_substreams h) \<rparr>
      | None \<Rightarrow> h)"

definition queue_response ::
  "substream_id \<Rightarrow> rpc_coded_response \<Rightarrow> ('q, 'si, 'so) rpc_handler \<Rightarrow> ('q, 'si, 'so) rpc_handler" where
  "queue_response rid response h =
     h\<lparr> queued_outbound_items := hm_insert rid
          ((case hm_get (queued_outbound_items h) rid of Some q \<Rightarrow> q | None \<Rightarrow> []) @ [response])
          (queued_outbound_items h) \<rparr>"

text \<open>The report of an error response that we send; \<open>expect\<close> panics when an error has no code.\<close>

definition report_error_response ::
  "substream_id \<Rightarrow> protocol \<Rightarrow> rpc_coded_response \<Rightarrow> ('q, 'si, 'so) rpc_handler \<Rightarrow> ('q, 'si, 'so) rpc_handler option" where
  "report_error_response rid proto response h =
     (case response of
        Success _ \<Rightarrow> Some h
      | InvalidRequest reason \<Rightarrow>
          map_option (\<lambda>code. push_error (InboundErr rid proto (ErrorResponse code (error_type_to_string reason))) h) (error_code response)
      | ServerError reason \<Rightarrow>
          map_option (\<lambda>code. push_error (InboundErr rid proto (ErrorResponse code (error_type_to_string reason))) h) (error_code response)
      | UnknownResponse reason \<Rightarrow>
          map_option (\<lambda>code. push_error (InboundErr rid proto (ErrorResponse code (error_type_to_string reason))) h) (error_code response))"

definition send_response ::
  "substream_id \<Rightarrow> rpc_coded_response \<Rightarrow> ('q, 'si, 'so) rpc_handler \<Rightarrow> ('q, 'si, 'so) rpc_handler option" where
  "send_response rid response h =
     (case hm_get (inbound_substreams h) rid of
        None \<Rightarrow> Some h
      | Some (st, _, proto) \<Rightarrow>
          (case report_error_response rid proto response h of
             None \<Rightarrow> None
           | Some h1 \<Rightarrow>
               if h_state h1 = HDeactivated then Some h1
               else (case st of
                       ResponseIdle s \<Rightarrow>
                         Some (set_inbound_state rid
                           (ResponsePendingSend s response (\<not> multiple_responses response \<or> is_error response)) h1)
                     | ResponsePendingSend s message closing \<Rightarrow>
                         if multiple_responses response then Some (queue_response rid response h1)
                         else Some (set_inbound_state rid (ResponsePendingSend s message True) h1)
                     | ResponsePendingFlush s closing \<Rightarrow>
                         if multiple_responses response then Some (queue_response rid response h1)
                         else Some (set_inbound_state rid (ResponsePendingFlush s True) h1)
                     | InClosing s \<Rightarrow> Some h1
                     | InPoisoned \<Rightarrow> None)))"

definition inject_fully_negotiated_inbound ::
  "('q, substream_id) delay_queue_ops \<Rightarrow> env \<Rightarrow> rpc_request \<times> 'si \<Rightarrow> ('q, 'si, 'so) rpc_handler \<Rightarrow>
   ('q, 'si, 'so) rpc_handler option" where
  "inject_fully_negotiated_inbound dq e substream h =
     (if h_state h \<noteq> HActive then Some h
      else (let (req, s) = substream;
                rid = current_inbound_substream_id h;
                awaiting =
                  (if expected_responses req > 0
                   then map_option (\<lambda>(q, delay_key).
                          h\<lparr> inbound_substreams_delay := q,
                             inbound_substreams :=
                               hm_insert rid (ResponseIdle s, Some delay_key, req_protocol req) (inbound_substreams h) \<rparr>)
                        (dq_insert dq (now e) rid (from_secs RESPONSE_TIMEOUT) (inbound_substreams_delay h))
                   else Some h)
            in map_option (\<lambda>h1. update_keep_alive e
                 (h1\<lparr> events_out := events_out h1 @ [ReceivedRequest rid req],
                      current_inbound_substream_id := rid + 1 \<rparr>)) awaiting))"

definition inject_fully_negotiated_outbound ::
  "('q, substream_id) delay_queue_ops \<Rightarrow> env \<Rightarrow> 'so \<Rightarrow> request_id \<times> rpc_request \<Rightarrow> ('q, 'si, 'so) rpc_handler \<Rightarrow>
   ('q, 'si, 'so) rpc_handler option" where
  "inject_fully_negotiated_outbound dq e out request_info h =
     (case rust_sub e (dial_negotiated h) 1 of
        None \<Rightarrow> None
      | Some dn \<Rightarrow>
          (let h1 = h\<lparr> dial_negotiated := dn \<rparr>;
               (rid, request) = request_info;
               proto = req_protocol request
           in if h_state h1 = HDeactivated then Some (push_error (OutboundErr rid proto HandlerRejected) h1)
              else map_option (update_keep_alive e)
                (if expected_responses request > 0
                 then map_option (\<lambda>(q, delay_key).
                           h1\<lparr> outbound_substreams_delay := q,
                               outbound_substreams := hm_insert (current_outbound_substream_id h1)
                                 \<lparr> oi_state = RequestPendingResponse out request, oi_delay_key = delay_key,
                                   oi_proto = proto,
                                   oi_remaining_chunks =
                                     (if expected_responses request > 1 then Some (expected_responses request) else None),
                                   oi_req_id = rid \<rparr> (outbound_substreams h1),
                               current_outbound_substream_id := current_outbound_substream_id h1 + 1 \<rparr>)
                        (dq_insert dq (now e) (current_outbound_substream_id h1) (from_secs RESPONSE_TIMEOUT)
                           (outbound_substreams_delay h1))
                 else Some h1)))"

definition inject_event :: "env \<Rightarrow> rpc_send \<Rightarrow> ('q, 'si, 'so) rpc_handler \<Rightarrow> ('q, 'si, 'so) rpc_handler option" where
  "inject_event e rpc_event h =
     (case rpc_event of
        SendRequest rid req \<Rightarrow> Some (send_request e rid req h)
      | SendResponse inbound_id response \<Rightarrow> send_response inbound_id response h)"

datatype 'a upgr_err =
    UpgrTimer | UpgrTimeout | UpgrApply 'a | SelectFailed
  | SelectIoError string | SelectInvalidProtocol | SelectInvalidMessage | SelectTooManyProtocols

fun upgr_err_map :: "rpc_error upgr_err \<Rightarrow> rpc_error" where
  "upgr_err_map UpgrTimer = InternalError ''Timer failed''"
| "upgr_err_map UpgrTimeout = NegotiationTimeout"
| "upgr_err_map (UpgrApply err) = err"
| "upgr_err_map SelectFailed = UnsupportedProtocol"
| "upgr_err_map (SelectIoError io_err) = IoError io_err"
| "upgr_err_map SelectInvalidProtocol = InternalError ''Protocol was deemed invalid''"
| "upgr_err_map SelectInvalidMessage = InvalidData"
| "upgr_err_map SelectTooManyProtocols = InvalidData"

fun is_io_upgr_err :: "rpc_error upgr_err \<Rightarrow> bool" where
  "is_io_upgr_err (UpgrApply (IoError _)) = True"
| "is_io_upgr_err _ = False"

definition dial_failed ::
  "env \<Rightarrow> request_id \<times> rpc_request \<Rightarrow> rpc_error upgr_err \<Rightarrow> ('q, 'si, 'so) rpc_handler \<Rightarrow> ('q, 'si, 'so) rpc_handler option" where
  "dial_failed e request_info err h =
     (case rust_sub e (dial_negotiated h) 1 of
        None \<Rightarrow> None
      | Some dn \<Rightarrow>
          Some (push_error (OutboundErr (fst request_info) (req_protocol (snd request_info)) (upgr_err_map err))
            ((update_keep_alive e (h\<lparr> dial_negotiated := dn \<rparr>))\<lparr> outbound_io_error_retries := 0 \<rparr>)))"

definition inject_dial_upgrade_error ::
  "env \<Rightarrow> request_id \<times> rpc_request \<Rightarrow> rpc_error upgr_err \<Rightarrow> ('q, 'si, 'so) rpc_handler \<Rightarrow> ('q, 'si, 'so) rpc_handler option" where
  "inject_dial_upgrade_error e request_info err h =
     (if is_io_upgr_err err
      then (case rust_add e (outbound_io_error_retries h) 1 of
              None \<Rightarrow> None
            | Some retries \<Rightarrow>
                (let h1 = h\<lparr> outbound_io_error_retries := retries \<rparr>
                 in if retries < IO_ERROR_RETRIES
                    then Some (send_request e (fst request_info) (snd request_info) h1)
                    else dial_failed e request_info err h1))
      else dial_failed e request_info err h)"

definition connection_keep_alive :: "('q, 'si, 'so) rpc_handler \<Rightarrow> keep_alive_mode" where
  "connection_keep_alive h = keep_alive h"

section \<open>Poll\<close>

text \<open>A phase that has returned from \<open>poll\<close> skips the later ones.\<close>

definition flow_bind :: "'h flow option \<Rightarrow> ('h \<Rightarrow> 'h flow option) \<Rightarrow> 'h flow option" where
  "flow_bind m f =
     (case m of None \<Rightarrow> None | Some (Return ev h) \<Rightarrow> Some (Return ev h) | Some (Continue h) \<Rightarrow> f h)"

definition report_phase :: "('q, 'si, 'so) rpc_handler \<Rightarrow> ('q, 'si, 'so) rpc_handler flow option" where
  "report_phase h =
     Some (case pending_errors h of
             err_info # errs \<Rightarrow> Return (HCustom (Inl err_info)) (h\<lparr> pending_errors := errs \<rparr>)
           | [] \<Rightarrow> (case events_out h of
                      ev # evs \<Rightarrow> Return (HCustom (Inr ev)) (h\<lparr> events_out := evs \<rparr>)
                    | [] \<Rightarrow> Continue h))"

definition shutdown_phase :: "env \<Rightarrow> ('q, 'si, 'so) rpc_handler \<Rightarrow> ('q, 'si, 'so) rpc_handler flow option" where
  "shutdown_phase e h =
     Some (Continue
       (case h_state h of
          HShuttingDown delay \<Rightarrow>
            if delay \<le> now e then h\<lparr> h_state := HDeactivated, queued_outbound_items := [] \<rparr> else h
        | _ \<Rightarrow> h))"

text \<open>The body of the purge loop for an expired inbound substream.\<close>

definition expire_inbound ::
  "substream_id \<Rightarrow> ('q, 'si, 'so) rpc_handler \<Rightarrow> ('q, 'si, 'so) rpc_handler option" where
  "expire_inbound rid h =
     (case hm_get (inbound_substreams h) rid of
        None \<Rightarrow> Some h
      | Some (st, _, proto) \<Rightarrow>
          (let h1 = push_error (InboundErr rid proto StreamTimeout) h;
               queue = (case hm_get (queued_outbound_items h1) rid of Some q \<Rightarrow> q | None \<Rightarrow> [])
           in (case inbound_close st queue of
                 None \<Rightarrow> None
               | Some (st', queue') \<Rightarrow>
                   Some (h1\<lparr> inbound_substreams := hm_insert rid (st', None, proto) (inbound_substreams h1),
                            queued_outbound_items := hm_insert rid queue' (queued_outbound_items h1) \<rparr>))))"

partial_function (option) purge_inbound ::
  "('q, substream_id) delay_queue_ops \<Rightarrow> env \<Rightarrow> ('q, 'si, 'so) rpc_handler \<Rightarrow> ('q, 'si, 'so) rpc_handler flow option" where
  "purge_inbound dq e h =
     (case dq_poll dq (now e) (inbound_substreams_delay h) of
        (Ready (Some (Inr rid)), q) \<Rightarrow>
          (case expire_inbound rid (h\<lparr> inbound_substreams_delay := q \<rparr>) of
             None \<Rightarrow> None
           | Some h' \<Rightarrow> purge_inbound dq e h')
      | (Ready (Some (Inl _)), q) \<Rightarrow>
          Some (Return (HClose (InternalError ''Could not poll inbound stream timer'')) (h\<lparr> inbound_substreams_delay := q \<rparr>))
      | (Ready None, q) \<Rightarrow> Some (Continue (h\<lparr> inbound_substreams_delay := q \<rparr>))
      | (Pending, q) \<Rightarrow> Some (Continue (h\<lparr> inbound_substreams_delay := q \<rparr>)))"

partial_function (option) purge_outbound ::
  "('q, substream_id) delay_queue_ops \<Rightarrow> env \<Rightarrow> ('q, 'si, 'so) rpc_handler \<Rightarrow> ('q, 'si, 'so) rpc_handler flow option" where
  "purge_outbound dq e h =
     (case dq_poll dq (now e) (outbound_substreams_delay h) of
        (Ready (Some (Inr oid)), q) \<Rightarrow>
          (let h1 = h\<lparr> outbound_substreams_delay := q \<rparr>
           in (case hm_get (outbound_substreams h1) oid of
                 Some info \<Rightarrow>
                   Some (Return (HCustom (Inl (OutboundErr (oi_req_id info) (oi_proto info) StreamTimeout)))
                     (update_keep_alive e (h1\<lparr> outbound_substreams := hm_remove oid (outbound_substreams h1) \<rparr>)))
               | None \<Rightarrow> purge_outbound dq e h1))
      | (Ready (Some (Inl _)), q) \<Rightarrow>
          Some (Return (HClose (InternalError ''Could not poll outbound stream timer'')) (h\<lparr> outbound_substreams_delay := q \<rparr>))
      | (Ready None, q) \<Rightarrow> Some (Continue (h\<lparr> outbound_substreams_delay := q \<rparr>))
      | (Pending, q) \<Rightarrow> Some (Continue (h\<lparr> outbound_substreams_delay := q \<rparr>)))"

text \<open>Driving one inbound substream: a round leaves \<open>poll\<close>, is done with the substream, or sets
  \<open>drive_stream_further\<close>.\<close>

datatype 'h drive = Leave handler_event 'h | Settled 'h | Further 'h

definition resume_inbound ::
  "substream_id \<Rightarrow> 'si \<Rightarrow> ('q, 'si, 'so) rpc_handler \<Rightarrow> ('q, 'si, 'so) rpc_handler drive" where
  "resume_inbound rid s h =
     (case apply_queued_responses s (hm_get (queued_outbound_items h) rid) of
        (st, queue, further) \<Rightarrow>
          (let h1 = set_inbound_state rid st
                 (case queue of
                    Some q \<Rightarrow> h\<lparr> queued_outbound_items := hm_insert rid q (queued_outbound_items h) \<rparr>
                  | None \<Rightarrow> h)
           in if further then Further h1 else Settled h1))"

definition drop_inbound ::
  "('q, substream_id) delay_queue_ops \<Rightarrow> env \<Rightarrow> substream_id \<Rightarrow> dq_key option \<Rightarrow> ('q, 'si, 'so) rpc_handler \<Rightarrow>
   ('q, 'si, 'so) rpc_handler drive option" where
  "drop_inbound dq e rid key h =
     map_option (\<lambda>q. Settled (update_keep_alive e
         (h\<lparr> inbound_substreams_delay := q, queued_outbound_items := hm_remove rid (queued_outbound_items h),
             inbound_substreams := hm_remove rid (inbound_substreams h) \<rparr>)))
       (case key of
          Some delay_key \<Rightarrow> dq_remove dq delay_key (inbound_substreams_delay h)
        | None \<Rightarrow> Some (inbound_substreams_delay h))"

definition close_inbound ::
  "substream_id \<Rightarrow> protocol \<Rightarrow> bool \<Rightarrow> 'si \<Rightarrow> ('q, 'si, 'so) rpc_handler \<Rightarrow> ('q, 'si, 'so) rpc_handler drive" where
  "close_inbound rid proto closing s h =
     Further (set_inbound_state rid (InClosing s)
       (if closing then h else push_error (InboundErr rid proto HandlerRejected) h))"

definition drive_send ::
  "('si, 'so) stream_ops \<Rightarrow> env \<Rightarrow> substream_id \<Rightarrow> 'si \<Rightarrow> rpc_coded_response \<Rightarrow> bool \<Rightarrow> ('q, 'si, 'so) rpc_handler \<Rightarrow>
   ('q, 'si, 'so) rpc_handler drive" where
  "drive_send S e rid s message closing h =
     (case in_poll_ready S s of
        (Ready (Inr _), s1) \<Rightarrow>
          (case in_start_send S message s1 of
             (Inr _, s2) \<Rightarrow> Further (set_inbound_state rid (ResponsePendingFlush s2 closing) h)
           | (Inl _, s2) \<Rightarrow>
               if closing then Further (set_inbound_state rid (InClosing s2) h) else resume_inbound rid s2 h)
      | (Ready (Inl err), _) \<Rightarrow>
          Leave (HClose err) (update_keep_alive e (h\<lparr> inbound_substreams := hm_remove rid (inbound_substreams h) \<rparr>))
      | (Pending, s1) \<Rightarrow> Settled (set_inbound_state rid (ResponsePendingSend s1 message closing) h))"

definition drive_closing ::
  "('si, 'so) stream_ops \<Rightarrow> ('q, substream_id) delay_queue_ops \<Rightarrow> env \<Rightarrow> substream_id \<Rightarrow> dq_key option \<Rightarrow> 'si \<Rightarrow>
   ('q, 'si, 'so) rpc_handler \<Rightarrow> ('q, 'si, 'so) rpc_handler drive option" where
  "drive_closing S dq e rid key s h =
     (case in_poll_close S s of
        (Ready _, _) \<Rightarrow> drop_inbound dq e rid key h
      | (Pending, s1) \<Rightarrow> Some (Settled (set_inbound_state rid (InClosing s1) h)))"

definition drive_step ::
  "('si, 'so) stream_ops \<Rightarrow> ('q, substream_id) delay_queue_ops \<Rightarrow> env \<Rightarrow> bool \<Rightarrow> substream_id \<Rightarrow>
   ('q, 'si, 'so) rpc_handler \<Rightarrow> ('q, 'si, 'so) rpc_handler drive option" where
  "drive_step S dq e deactivated rid h =
     (case hm_get (inbound_substreams h) rid of
        None \<Rightarrow> None
      | Some (ResponsePendingSend s message closing, key, proto) \<Rightarrow>
          Some (if deactivated then close_inbound rid proto closing s h
                else drive_send S e rid s message closing h)
      | Some (ResponsePendingFlush s closing, key, proto) \<Rightarrow>
          (case in_poll_flush S s of
             (Ready (Inr _), s1) \<Rightarrow>
               Some (if closing \<or> deactivated then close_inbound rid proto closing s1 h else resume_inbound rid s1 h)
           | (Ready (Inl _), _) \<Rightarrow> drop_inbound dq e rid key h
           | (Pending, s1) \<Rightarrow> Some (Settled (set_inbound_state rid (ResponsePendingFlush s1 closing) h)))
      | Some (ResponseIdle s, key, proto) \<Rightarrow>
          Some (if \<not> deactivated then resume_inbound rid s h else Further (set_inbound_state rid (InClosing s) h))
      | Some (InClosing s, key, proto) \<Rightarrow> drive_closing S dq e rid key s h
      | Some (InPoisoned, key, proto) \<Rightarrow> None)"

partial_function (option) drive_loop ::
  "('si, 'so) stream_ops \<Rightarrow> ('q, substream_id) delay_queue_ops \<Rightarrow> env \<Rightarrow> bool \<Rightarrow> substream_id \<Rightarrow>
   ('q, 'si, 'so) rpc_handler \<Rightarrow> ('q, 'si, 'so) rpc_handler flow option" where
  "drive_loop S dq e deactivated rid h =
     (case drive_step S dq e deactivated rid h of
        None \<Rightarrow> None
      | Some (Leave ev h') \<Rightarrow> Some (Return ev h')
      | Some (Settled h') \<Rightarrow> Some (Continue h')
      | Some (Further h') \<Rightarrow> drive_loop S dq e deactivated rid h')"

fun drive_inbound ::
  "('si, 'so) stream_ops \<Rightarrow> ('q, substream_id) delay_queue_ops \<Rightarrow> env \<Rightarrow> bool \<Rightarrow> substream_id list \<Rightarrow>
   ('q, 'si, 'so) rpc_handler \<Rightarrow> ('q, 'si, 'so) rpc_handler flow option" where
  "drive_inbound S dq e deactivated [] h = Some (Continue h)"
| "drive_inbound S dq e deactivated (rid # rids) h =
     flow_bind (drive_loop S dq e deactivated rid h) (drive_inbound S dq e deactivated rids)"

text \<open>Driving one outbound substream.\<close>

definition set_outbound ::
  "substream_id \<Rightarrow> 'so outbound_info \<Rightarrow> ('q, 'si, 'so) rpc_handler \<Rightarrow> ('q, 'si, 'so) rpc_handler" where
  "set_outbound oid info h = h\<lparr> outbound_substreams := hm_insert oid info (outbound_substreams h) \<rparr>"

definition drop_outbound ::
  "('q, substream_id) delay_queue_ops \<Rightarrow> env \<Rightarrow> substream_id \<Rightarrow> 'so outbound_info \<Rightarrow> ('q, 'si, 'so) rpc_handler \<Rightarrow>
   ('q, 'si, 'so) rpc_handler option" where
  "drop_outbound dq e oid info h =
     map_option (\<lambda>q. update_keep_alive e
         (h\<lparr> outbound_substreams_delay := q, outbound_substreams := hm_remove oid (outbound_substreams h) \<rparr>))
       (dq_remove dq (oi_delay_key info) (outbound_substreams_delay h))"

definition received_event :: "'so outbound_info \<Rightarrow> rpc_coded_response \<Rightarrow> (handler_err + rpc_received) option" where
  "received_event info response =
     (let err = (\<lambda>r. map_option (\<lambda>code.
             Inl (OutboundErr (oi_req_id info) (oi_proto info) (ErrorResponse code (error_type_to_string r))))
           (error_code response))
      in (case response of
            Success resp \<Rightarrow> Some (Inr (ReceivedResponse (oi_req_id info) resp))
          | InvalidRequest r \<Rightarrow> err r
          | ServerError r \<Rightarrow> err r
          | UnknownResponse r \<Rightarrow> err r))"

definition receive_response ::
  "('q, substream_id) delay_queue_ops \<Rightarrow> env \<Rightarrow> substream_id \<Rightarrow> 'so outbound_info \<Rightarrow> 'so \<Rightarrow> rpc_request \<Rightarrow>
   rpc_coded_response \<Rightarrow> ('q, 'si, 'so) rpc_handler \<Rightarrow> ('q, 'si, 'so) rpc_handler flow option" where
  "receive_response dq e oid info s request response h =
     (let remaining_chunks = (case oi_remaining_chunks info of Some count \<Rightarrow> count - 1 | None \<Rightarrow> 0);
          h1 = (if expected_responses request > 1 \<and> \<not> is_error response \<and> remaining_chunks \<noteq> 0
                then map_option (\<lambda>q. set_outbound oid
                         (info\<lparr> oi_state := RequestPendingResponse s request,
                                oi_remaining_chunks := Some remaining_chunks \<rparr>)
                         (h\<lparr> outbound_substreams_delay := q \<rparr>))
                       (dq_reset dq (now e) (oi_delay_key info) (from_secs RESPONSE_TIMEOUT) (outbound_substreams_delay h))
                else Some (set_outbound oid (info\<lparr> oi_state := OutClosing s \<rparr>) h))
      in (case h1 of
            None \<Rightarrow> None
          | Some h' \<Rightarrow> map_option (\<lambda>received. Return (HCustom received) h') (received_event info response)))"

definition drive_outbound_one ::
  "('si, 'so) stream_ops \<Rightarrow> ('q, substream_id) delay_queue_ops \<Rightarrow> env \<Rightarrow> bool \<Rightarrow> substream_id \<Rightarrow>
   ('q, 'si, 'so) rpc_handler \<Rightarrow> ('q, 'si, 'so) rpc_handler flow option" where
  "drive_outbound_one S dq e deactivated oid h =
     (case hm_get (outbound_substreams h) oid of
        None \<Rightarrow> None
      | Some info \<Rightarrow>
          (case oi_state info of
             RequestPendingResponse s request \<Rightarrow>
               if deactivated
               then Some (Continue (push_error (OutboundErr (oi_req_id info) (oi_proto info) HandlerRejected)
                      (set_outbound oid (info\<lparr> oi_state := OutClosing s \<rparr>) h)))
               else (case out_poll_next S s of
                       (Ready (Some (Inr response)), s1) \<Rightarrow> receive_response dq e oid info s1 request response h
                     | (Ready None, _) \<Rightarrow>
                         map_option (Return (HCustom (Inl
                             (OutboundErr (oi_req_id info) (req_protocol request) IncompleteStream))))
                           (drop_outbound dq e oid info h)
                     | (Ready (Some (Inl err)), _) \<Rightarrow>
                         map_option (Return (HCustom (Inl (OutboundErr (oi_req_id info) (oi_proto info) err))))
                           (drop_outbound dq e oid info h)
                     | (Pending, s1) \<Rightarrow>
                         Some (Continue (set_outbound oid (info\<lparr> oi_state := RequestPendingResponse s1 request \<rparr>) h)))
           | OutClosing s \<Rightarrow>
               (case out_poll_close S s of
                  (Ready _, _) \<Rightarrow> map_option Continue (drop_outbound dq e oid info h)
                | (Pending, s1) \<Rightarrow> Some (Continue (set_outbound oid (info\<lparr> oi_state := OutClosing s1 \<rparr>) h)))
           | OutPoisoned \<Rightarrow> None))"

fun drive_outbound ::
  "('si, 'so) stream_ops \<Rightarrow> ('q, substream_id) delay_queue_ops \<Rightarrow> env \<Rightarrow> bool \<Rightarrow> substream_id list \<Rightarrow>
   ('q, 'si, 'so) rpc_handler \<Rightarrow> ('q, 'si, 'so) rpc_handler flow option" where
  "drive_outbound S dq e deactivated [] h = Some (Continue h)"
| "drive_outbound S dq e deactivated (oid # oids) h =
     flow_bind (drive_outbound_one S dq e deactivated oid h) (drive_outbound S dq e deactivated oids)"

definition dial_phase :: "env \<Rightarrow> ('q, 'si, 'so) rpc_handler \<Rightarrow> ('q, 'si, 'so) rpc_handler flow option" where
  "dial_phase e h =
     (case dial_queue h of
        [] \<Rightarrow> Some (Continue h)
      | info # queue \<Rightarrow>
          if dial_negotiated h < max_dial_negotiated h
          then map_option (\<lambda>dn. Return (HOutboundSubstreamRequest info)
                   (update_keep_alive e (h\<lparr> dial_negotiated := dn, dial_queue := queue \<rparr>)))
                 (rust_add e (dial_negotiated h) 1)
          else Some (Continue h))"

definition streams_phase ::
  "('si, 'so) stream_ops \<Rightarrow> ('q, substream_id) delay_queue_ops \<Rightarrow> env \<Rightarrow> ('q, 'si, 'so) rpc_handler \<Rightarrow>
   ('q, 'si, 'so) rpc_handler flow option" where
  "streams_phase S dq e h =
     (let deactivated = (h_state h = HDeactivated)
      in flow_bind (drive_inbound S dq e deactivated (map fst (inbound_substreams h)) h)
           (\<lambda>h1. drive_outbound S dq e deactivated (map fst (outbound_substreams h1)) h1))"

definition handler_poll ::
  "('si, 'so) stream_ops \<Rightarrow> ('q, substream_id) delay_queue_ops \<Rightarrow> env \<Rightarrow> ('q, 'si, 'so) rpc_handler \<Rightarrow>
   (handler_event poll \<times> ('q, 'si, 'so) rpc_handler) option" where
  "handler_poll S dq e h =
     map_option (\<lambda>r. case r of Return ev h' \<Rightarrow> (Ready ev, h') | Continue h' \<Rightarrow> (Pending, h'))
       (flow_bind (flow_bind (flow_bind (flow_bind (flow_bind (report_phase h)
          (shutdown_phase e)) (purge_inbound dq e)) (purge_outbound dq e)) (streams_phase S dq e)) (dial_phase e))"

text \<open>All that a poll does before it dials.\<close>

abbreviation before_dial ::
  "('si, 'so) stream_ops \<Rightarrow> ('q, substream_id) delay_queue_ops \<Rightarrow> env \<Rightarrow> ('q, 'si, 'so) rpc_handler \<Rightarrow>
   ('q, 'si, 'so) rpc_handler flow option" where
  "before_dial S dq e h \<equiv> flow_bind (flow_bind (flow_bind (flow_bind (report_phase h)
     (shutdown_phase e)) (purge_inbound dq e)) (purge_outbound dq e)) (streams_phase S dq e)"

declare purge_inbound.simps [code] purge_outbound.simps [code] drive_loop.simps [code]

section \<open>Invariant\<close>

text \<open>Every substream is in a proper state and its timer is in the queue; ids are below the counters.\<close>

definition in_ok ::
  "('q \<Rightarrow> dq_key \<Rightarrow> (substream_id \<times> instant) option) \<Rightarrow> 'q \<Rightarrow> substream_id \<Rightarrow>
   (substream_id \<times> 'si inbound_substream_state \<times> dq_key option \<times> protocol) list \<Rightarrow> bool" where
  "in_ok items q n m \<longleftrightarrow> hm_wf m \<and>
     (\<forall>rid st key proto. map_of m rid = Some (st, key, proto) \<longrightarrow>
        st \<noteq> InPoisoned \<and> rid < n \<and> (\<forall>k. key = Some k \<longrightarrow> (\<exists>t. items q k = Some (rid, t))))"

definition out_ok ::
  "('q \<Rightarrow> dq_key \<Rightarrow> (substream_id \<times> instant) option) \<Rightarrow> 'q \<Rightarrow> substream_id \<Rightarrow>
   (substream_id \<times> 'so outbound_info) list \<Rightarrow> bool" where
  "out_ok items q n m \<longleftrightarrow> hm_wf m \<and>
     (\<forall>oid info. map_of m oid = Some info \<longrightarrow>
        oi_state info \<noteq> OutPoisoned \<and> oid < n \<and> (\<exists>t. items q (oi_delay_key info) = Some (oid, t)))"

text \<open>Nothing in flight. A connection that is not to be kept alive is idle.\<close>

definition idle :: "('q, 'si, 'so) rpc_handler \<Rightarrow> bool" where
  "idle h \<longleftrightarrow> dial_queue h = [] \<and> outbound_substreams h = [] \<and> inbound_substreams h = [] \<and>
     events_out h = [] \<and> dial_negotiated h = 0"

definition core_inv ::
  "('q \<Rightarrow> dq_key \<Rightarrow> (substream_id \<times> instant) option) \<Rightarrow> ('q, 'si, 'so) rpc_handler \<Rightarrow> bool" where
  "core_inv items h \<longleftrightarrow>
     in_ok items (inbound_substreams_delay h) (current_inbound_substream_id h) (inbound_substreams h) \<and>
     out_ok items (outbound_substreams_delay h) (current_outbound_substream_id h) (outbound_substreams h) \<and>
     max_dial_negotiated h = 8 \<and> dial_negotiated h \<le> 8 \<and> outbound_io_error_retries h < 3 \<and> keep_alive h \<noteq> KaNo"

definition handler_inv ::
  "('q \<Rightarrow> dq_key \<Rightarrow> (substream_id \<times> instant) option) \<Rightarrow> ('q, 'si, 'so) rpc_handler \<Rightarrow> bool" where
  "handler_inv items h \<longleftrightarrow> core_inv items h \<and> (keep_alive h = KaYes \<or> idle h)"

text \<open>How many reports the handler owes for a request id: substreams that await their response, and
  errors that have not been reported yet.\<close>

fun awaits :: "request_id \<Rightarrow> 'so outbound_info \<Rightarrow> bool" where
  "awaits i info = (oi_req_id info = i \<and> (case oi_state info of RequestPendingResponse _ _ \<Rightarrow> True | _ \<Rightarrow> False))"

fun is_error_of :: "request_id \<Rightarrow> handler_err \<Rightarrow> bool" where
  "is_error_of i (OutboundErr rid _ _) = (rid = i)"
| "is_error_of i (InboundErr _ _ _) = False"

definition reports_of :: "(substream_id \<times> 'so outbound_info) list \<Rightarrow> handler_err list \<Rightarrow> request_id \<Rightarrow> nat" where
  "reports_of m errs i = count_if (awaits i) m + length (filter (is_error_of i) errs)"

abbreviation reports :: "('q, 'si, 'so) rpc_handler \<Rightarrow> request_id \<Rightarrow> nat" where
  "reports h i \<equiv> reports_of (outbound_substreams h) (pending_errors h) i"

fun outcome :: "handler_event \<Rightarrow> request_id \<Rightarrow> nat" where
  "outcome (HCustom (Inl err)) i = (if is_error_of i err then 1 else 0)"
| "outcome (HCustom (Inr (ReceivedResponse rid _))) i = (if rid = i then 1 else 0)"
| "outcome _ i = 0"

text \<open>What the phases before the dial leave alone; a report that is no longer owed has been made.\<close>

fun made :: "handler_event option \<Rightarrow> request_id \<Rightarrow> nat" where
  "made (Some ev) i = outcome ev i"
| "made None i = 0"

definition answers :: "handler_event option \<Rightarrow> ('q, 'si, 'so) rpc_handler \<Rightarrow> ('q, 'si, 'so) rpc_handler \<Rightarrow> bool" where
  "answers ev h h' \<longleftrightarrow> dial_negotiated h' = dial_negotiated h \<and> dial_queue h' = dial_queue h \<and>
     (h_state h' = h_state h \<or> h_state h \<noteq> HActive \<and> h_state h' = HDeactivated) \<and>
     (\<forall>i. reports h i \<le> reports h' i + made ev i)"

abbreviation steady :: "('q, 'si, 'so) rpc_handler \<Rightarrow> ('q, 'si, 'so) rpc_handler \<Rightarrow> bool" where
  "steady \<equiv> answers None"

lemmas steady_def = answers_def [of None, unfolded made.simps add_0_right]

lemma steady_refl [simp]: "steady h h"
  by (simp add: steady_def)

lemma steady_answers: "steady h h' \<Longrightarrow> answers ev h' h'' \<Longrightarrow> answers ev h h''"
  by (auto simp: answers_def intro: order_trans)

lemmas steady_trans = steady_answers [of _ _ None]

lemma steady_any: "steady h h' \<Longrightarrow> answers ev h h'"
  by (auto simp: answers_def intro: trans_le_add1)

lemma reports_push: "reports_of m errs i \<le> reports_of m (errs @ errs') i"
  by (simp add: reports_of_def)

lemma reports_update:
  "map_of m oid = Some info \<Longrightarrow>
   reports_of (hm_insert oid info' m) errs i + (if awaits i info then 1 else 0) =
     reports_of m errs i + (if awaits i info' then 1 else 0)"
  using count_if_insert [of "awaits i" oid info' m] by (simp add: reports_of_def)

lemma reports_remove:
  "hm_wf m \<Longrightarrow> map_of m oid = Some info \<Longrightarrow>
   reports_of (hm_remove oid m) errs i + (if awaits i info then 1 else 0) = reports_of m errs i"
  using count_if_remove [of m "awaits i" oid] by (simp add: reports_of_def)

lemma update_keep_alive_cases:
  "update_keep_alive e h = h \<or> (\<exists>k. update_keep_alive e h = h\<lparr> keep_alive := k \<rparr>)"
  by (cases "keep_alive h") (auto simp: update_keep_alive_def Let_def)

lemma update_keep_alive_fields [simp]:
  "pending_errors (update_keep_alive e h) = pending_errors h"
  "events_out (update_keep_alive e h) = events_out h"
  "dial_queue (update_keep_alive e h) = dial_queue h"
  "dial_negotiated (update_keep_alive e h) = dial_negotiated h"
  "inbound_substreams (update_keep_alive e h) = inbound_substreams h"
  "inbound_substreams_delay (update_keep_alive e h) = inbound_substreams_delay h"
  "outbound_substreams (update_keep_alive e h) = outbound_substreams h"
  "outbound_substreams_delay (update_keep_alive e h) = outbound_substreams_delay h"
  "queued_outbound_items (update_keep_alive e h) = queued_outbound_items h"
  "current_inbound_substream_id (update_keep_alive e h) = current_inbound_substream_id h"
  "current_outbound_substream_id (update_keep_alive e h) = current_outbound_substream_id h"
  "max_dial_negotiated (update_keep_alive e h) = max_dial_negotiated h"
  "h_state (update_keep_alive e h) = h_state h"
  "outbound_io_error_retries (update_keep_alive e h) = outbound_io_error_retries h"
  using update_keep_alive_cases [of e h] by auto

lemma update_keep_alive_mode:
  "keep_alive h \<noteq> KaNo \<Longrightarrow> keep_alive (update_keep_alive e h) \<noteq> KaNo \<and>
     (keep_alive (update_keep_alive e h) = KaYes \<or> idle (update_keep_alive e h))"
  by (auto simp: update_keep_alive_def idle_def Let_def split: keep_alive_mode.split)

lemma handler_inv_update: "core_inv items h \<Longrightarrow> handler_inv items (update_keep_alive e h)"
  using update_keep_alive_mode [of h e] by (simp add: handler_inv_def core_inv_def)

lemma handler_inv_update_iff [simp]: "handler_inv items (update_keep_alive e h) \<longleftrightarrow> core_inv items h"
  using handler_inv_update [of items h e] update_keep_alive_mode [of h e]
  by (auto simp: handler_inv_def core_inv_def) (simp_all add: update_keep_alive_def)

lemma handler_inv_core: "handler_inv items h \<Longrightarrow> core_inv items h"
  by (simp add: handler_inv_def)

lemma answers_update [simp]: "answers ev h (update_keep_alive e h') = answers ev h h'"
  by (simp add: answers_def)

lemma push_error_inv [simp]: "handler_inv items (push_error err h) = handler_inv items h"
  by (simp add: handler_inv_def core_inv_def idle_def push_error_def)

lemma push_error_fields [simp]:
  "inbound_substreams (push_error err h) = inbound_substreams h"
  "outbound_substreams (push_error err h) = outbound_substreams h"
  "queued_outbound_items (push_error err h) = queued_outbound_items h"
  "inbound_substreams_delay (push_error err h) = inbound_substreams_delay h"
  "outbound_substreams_delay (push_error err h) = outbound_substreams_delay h"
  "dial_negotiated (push_error err h) = dial_negotiated h" "dial_queue (push_error err h) = dial_queue h"
  "h_state (push_error err h) = h_state h" "pending_errors (push_error err h) = pending_errors h @ [err]"
  by (simp_all add: push_error_def)

lemma answers_push_error [simp]: "answers ev h0 h \<Longrightarrow> answers ev h0 (push_error err h)"
  using reports_push [of "outbound_substreams h" "pending_errors h"]
  by (auto simp: answers_def intro: order_trans)

lemma in_ok_set: "in_ok items q n m \<Longrightarrow> map_of m rid = Some (st0, key, proto) \<Longrightarrow> st \<noteq> InPoisoned \<Longrightarrow>
    in_ok items q n (hm_insert rid (st, key, proto) m)"
  unfolding in_ok_def by auto

lemma in_okI:
  "hm_wf m \<Longrightarrow>
   (\<And>rid st key proto. map_of m rid = Some (st, key, proto) \<Longrightarrow> st \<noteq> InPoisoned \<and> rid < n) \<Longrightarrow>
   (\<And>rid st k proto. map_of m rid = Some (st, Some k, proto) \<Longrightarrow> \<exists>t. items q k = Some (rid, t)) \<Longrightarrow> in_ok items q n m"
  unfolding in_ok_def by blast

lemma in_okD:
  assumes "in_ok items q n m"
  shows "hm_wf m" and "map_of m rid = Some (st, key, proto) \<Longrightarrow> st \<noteq> InPoisoned \<and> rid < n"
    and "map_of m rid = Some (st, Some k, proto) \<Longrightarrow> \<exists>t. items q k = Some (rid, t)"
  using assms unfolding in_ok_def by blast+

lemma out_okI:
  "hm_wf m \<Longrightarrow>
   (\<And>oid info. map_of m oid = Some info \<Longrightarrow> oi_state info \<noteq> OutPoisoned \<and> oid < n) \<Longrightarrow>
   (\<And>oid info. map_of m oid = Some info \<Longrightarrow> \<exists>t. items q (oi_delay_key info) = Some (oid, t)) \<Longrightarrow> out_ok items q n m"
  unfolding out_ok_def by blast

lemma out_okD:
  assumes "out_ok items q n m"
  shows "hm_wf m" and "map_of m oid = Some info \<Longrightarrow> oi_state info \<noteq> OutPoisoned \<and> oid < n"
    and "map_of m oid = Some info \<Longrightarrow> \<exists>t. items q (oi_delay_key info) = Some (oid, t)"
  using assms unfolding out_ok_def by blast+

lemma in_ok_expired:
  assumes ok: "in_ok items q n m" and h: "items q h = Some (rid, d)" and q': "items q' = (items q)(h := None)"
  shows "map_of m rid = Some (st0, key, proto) \<Longrightarrow> st \<noteq> InPoisoned \<Longrightarrow>
           in_ok items q' n (hm_insert rid (st, None, proto) m)"
    and "map_of m rid = None \<Longrightarrow> in_ok items q' n m"
proof -
  have other: "\<exists>t. items q' k = Some (x, t)" if "map_of m x = Some (s, Some k, p)" "x \<noteq> rid" for x s k p
    using in_okD(3) [OF ok that(1)] h q' that(2) by auto
  show "in_ok items q' n (hm_insert rid (st, None, proto) m)"
    if "map_of m rid = Some (st0, key, proto)" "st \<noteq> InPoisoned"
    using in_okD(1,2) [OF ok] that other by (intro in_okI) (auto split: if_splits)
  show "in_ok items q' n m" if "map_of m rid = None"
    using in_okD(1,2) [OF ok] that other by (intro in_okI) (blast, blast, metis option.distinct(1))
qed

lemma in_ok_remove: "in_ok items q n m \<Longrightarrow> in_ok items q n (hm_remove rid m)"
  unfolding in_ok_def by auto

lemma in_ok_dq_remove:
  assumes ok: "in_ok items q n m" and m: "map_of m rid = Some (st, Some k, proto)"
    and q': "items q' = (items q)(k := None)"
  shows "in_ok items q' n (hm_remove rid m)"
proof -
  from in_okD(3) [OF ok m] obtain t where t: "items q k = Some (rid, t)" ..
  show ?thesis
  proof (rule in_okI)
    show "hm_wf (hm_remove rid m)" using in_okD(1) [OF ok] by simp
    show "s \<noteq> InPoisoned \<and> x < n" if "map_of (hm_remove rid m) x = Some (s, key, p)" for x s key p
      using that in_okD(2) [OF ok] by (simp split: if_splits)
    show "\<exists>t. items q' k' = Some (x, t)" if "map_of (hm_remove rid m) x = Some (s, Some k', p)" for x s k' p
      using that in_okD(3) [OF ok, of x s k' p] t q' by (auto split: if_splits)
  qed
qed

lemma in_ok_same_items: "in_ok items q n m \<Longrightarrow> items q' = items q \<Longrightarrow> in_ok items q' n m"
  by (simp add: in_ok_def)

lemma in_ok_insert:
  assumes "in_ok items q n m" "items q k = None" "items q' = (items q)(k \<mapsto> (n, t))" "st \<noteq> InPoisoned"
  shows "in_ok items q' (Suc n) (hm_insert n (st, Some k, proto) m)"
  using assms unfolding in_ok_def by (auto, (metis less_SucI option.distinct(1))+)

lemma out_ok_set: "out_ok items q n m \<Longrightarrow> map_of m oid = Some info0 \<Longrightarrow> oi_state info \<noteq> OutPoisoned \<Longrightarrow>
    oi_delay_key info = oi_delay_key info0 \<Longrightarrow> out_ok items q n (hm_insert oid info m)"
  unfolding out_ok_def by auto

lemma out_ok_remove:
  assumes ok: "out_ok items q n m" and k: "items q k = Some (oid, t)" and q': "items q' = (items q)(k := None)"
  shows "out_ok items q' n (hm_remove oid m)" and "map_of m oid = None \<Longrightarrow> out_ok items q' n m"
proof -
  have other: "\<exists>t. items q' (oi_delay_key i) = Some (x, t)" if "map_of m x = Some i" "x \<noteq> oid" for x i
    using out_okD(3) [OF ok that(1)] k q' that(2) by auto
  show "out_ok items q' n (hm_remove oid m)"
    using out_okD(1,2) [OF ok] other by (intro out_okI) (auto split: if_splits)
  show "out_ok items q' n m" if "map_of m oid = None"
    using out_okD(1,2) [OF ok] that other by (intro out_okI) (blast, blast, metis option.distinct(1))
qed

lemma out_ok_same_items: "out_ok items q n m \<Longrightarrow> items q' = items q \<Longrightarrow> out_ok items q' n m"
  by (simp add: out_ok_def)

lemma out_ok_reset:
  "out_ok items q n m \<Longrightarrow> items q k = Some (oid, t) \<Longrightarrow> items q' = (items q)(k \<mapsto> (oid, t')) \<Longrightarrow> out_ok items q' n m"
  unfolding out_ok_def by (auto, metis fst_conv option.inject)

lemma out_ok_insert:
  assumes "out_ok items q n m" "items q k = None" "items q' = (items q)(k \<mapsto> (n, t))"
    and "oi_state info \<noteq> OutPoisoned" "oi_delay_key info = k"
  shows "out_ok items q' (Suc n) (hm_insert n info m)"
  using assms unfolding out_ok_def by (auto, (metis less_SucI option.distinct(1))+)

section \<open>Poll returns\<close>

text \<open>A phase does not panic and ends; what holds when it returns and when it goes on.\<close>

definition flow_ok :: "(handler_event \<Rightarrow> 'h \<Rightarrow> bool) \<Rightarrow> ('h \<Rightarrow> bool) \<Rightarrow> 'h flow option \<Rightarrow> bool" where
  "flow_ok R C m = (case m of None \<Rightarrow> False | Some (Return ev h) \<Rightarrow> R ev h | Some (Continue h) \<Rightarrow> C h)"

fun quiet :: "handler_event \<Rightarrow> bool" where
  "quiet (HOutboundSubstreamRequest _) = False"
| "quiet _ = True"

lemma flow_bind_simps [simp]:
  "flow_bind None f = None" "flow_bind (Some (Return ev h)) f = Some (Return ev h)"
  "flow_bind (Some (Continue h)) f = f h"
  by (simp_all add: flow_bind_def)

lemma flow_ok_bind:
  "flow_ok R C m \<Longrightarrow> (\<And>h. C h \<Longrightarrow> flow_ok R D (f h)) \<Longrightarrow> flow_ok R D (flow_bind m f)"
  by (force simp: flow_ok_def flow_bind_def split: option.splits flow.splits)

lemma flow_ok_mono:
  "flow_ok R C m \<Longrightarrow> (\<And>ev h. R ev h \<Longrightarrow> R' ev h) \<Longrightarrow> (\<And>h. C h \<Longrightarrow> C' h) \<Longrightarrow> flow_ok R' C' m"
  by (auto simp: flow_ok_def split: option.splits flow.splits)

lemma flow_ok_simps [simp]:
  "flow_ok R C (Some (Return ev h)) = R ev h" "flow_ok R C (Some (Continue h)) = C h" "\<not> flow_ok R C None"
  by (simp_all add: flow_ok_def)

abbreviation in_keys :: "('q, 'si, 'so) rpc_handler \<Rightarrow> substream_id set" where
  "in_keys h \<equiv> dom (map_of (inbound_substreams h))"

abbreviation out_keys :: "('q, 'si, 'so) rpc_handler \<Rightarrow> substream_id set" where
  "out_keys h \<equiv> dom (map_of (outbound_substreams h))"

lemma set_inbound_state_cases:
  "set_inbound_state rid st h = h \<or>
   (\<exists>st0 key proto. hm_get (inbound_substreams h) rid = Some (st0, key, proto) \<and>
      set_inbound_state rid st h = h\<lparr> inbound_substreams := hm_insert rid (st, key, proto) (inbound_substreams h) \<rparr>)"
  by (auto simp: set_inbound_state_def split: option.splits)

lemma set_inbound_state_fields [simp]:
  "outbound_substreams (set_inbound_state rid st h) = outbound_substreams h"
  "queued_outbound_items (set_inbound_state rid st h) = queued_outbound_items h"
  "pending_errors (set_inbound_state rid st h) = pending_errors h"
  "inbound_substreams_delay (set_inbound_state rid st h) = inbound_substreams_delay h"
  "h_state (set_inbound_state rid st h) = h_state h"
  "steady h0 (set_inbound_state rid st h) = steady h0 h"
  "in_keys (set_inbound_state rid st h) = in_keys h"
  using set_inbound_state_cases [of rid st h]
  by (auto simp: steady_def hm_insert_map split: if_splits)

lemma map_of_set_inbound_state:
  "hm_get (inbound_substreams (set_inbound_state rid st h)) x =
     (if x = rid then map_option (\<lambda>(_, rest). (st, rest)) (hm_get (inbound_substreams h) rid)
      else hm_get (inbound_substreams h) x)"
  by (auto simp: set_inbound_state_def split: option.splits)

lemma set_inbound_state_inv:
  assumes "handler_inv items h" "st \<noteq> InPoisoned"
  shows "handler_inv items (set_inbound_state rid st h)"
  using set_inbound_state_cases [of rid st h]
proof
  assume "set_inbound_state rid st h = h"
  with assms show ?thesis by simp
next
  assume "\<exists>st0 key proto. hm_get (inbound_substreams h) rid = Some (st0, key, proto) \<and>
      set_inbound_state rid st h = h\<lparr> inbound_substreams := hm_insert rid (st, key, proto) (inbound_substreams h) \<rparr>"
  with assms show ?thesis
    by (auto simp: handler_inv_def core_inv_def idle_def intro: in_ok_set simp del: map_of_eq_Some_iff)
qed

lemma queued_items_inv [simp]:
  "handler_inv items (h\<lparr> queued_outbound_items := x \<rparr>) = handler_inv items h"
  "steady h0 (h\<lparr> queued_outbound_items := x \<rparr>) = steady h0 h"
  by (simp_all add: handler_inv_def core_inv_def idle_def steady_def)

text \<open>How far a substream is from being settled.\<close>

fun state_rank :: "'si inbound_substream_state \<Rightarrow> nat" where
  "state_rank (ResponsePendingSend _ _ _) = 3"
| "state_rank (ResponsePendingFlush _ _) = 2"
| "state_rank (ResponseIdle _) = 2"
| "state_rank (InClosing _) = 1"
| "state_rank InPoisoned = 0"

definition drive_rank :: "substream_id \<Rightarrow> ('q, 'si, 'so) rpc_handler \<Rightarrow> nat" where
  "drive_rank rid h =
     4 * length (case hm_get (queued_outbound_items h) rid of Some q \<Rightarrow> q | None \<Rightarrow> []) +
     (case hm_get (inbound_substreams h) rid of Some (st, _) \<Rightarrow> state_rank st | None \<Rightarrow> 0)"

definition drive_ok ::
  "('q \<Rightarrow> dq_key \<Rightarrow> (substream_id \<times> instant) option) \<Rightarrow> substream_id \<Rightarrow> ('q, 'si, 'so) rpc_handler \<Rightarrow>
   ('q, 'si, 'so) rpc_handler \<Rightarrow> bool" where
  "drive_ok items rid h h' \<longleftrightarrow> handler_inv items h' \<and> steady h h' \<and>
     outbound_substreams h' = outbound_substreams h \<and> in_keys h - {rid} \<subseteq> in_keys h'"

lemma drive_ok_trans: "drive_ok items rid h h1 \<Longrightarrow> drive_ok items rid h1 h2 \<Longrightarrow> drive_ok items rid h h2"
  unfolding drive_ok_def by (intro conjI) (blast, blast intro: steady_trans steady_answers steady_any, simp, blast)

definition drive_result ::
  "('q \<Rightarrow> dq_key \<Rightarrow> (substream_id \<times> instant) option) \<Rightarrow> substream_id \<Rightarrow> ('q, 'si, 'so) rpc_handler \<Rightarrow>
   ('q, 'si, 'so) rpc_handler drive \<Rightarrow> bool" where
  "drive_result items rid h r =
     (case r of
        Leave ev h' \<Rightarrow> quiet ev \<and> drive_ok items rid h h'
      | Settled h' \<Rightarrow> drive_ok items rid h h'
      | Further h' \<Rightarrow> drive_ok items rid h h' \<and> rid \<in> in_keys h' \<and> drive_rank rid h' < drive_rank rid h)"

lemma drive_result_simps [simp]:
  "drive_result items rid h (Leave ev h') \<longleftrightarrow> quiet ev \<and> drive_ok items rid h h'"
  "drive_result items rid h (Settled h') \<longleftrightarrow> drive_ok items rid h h'"
  by (simp_all add: drive_result_def)

text \<open>A dial takes the first queued request and one of the eight slots.\<close>

definition dialed :: "request_id \<times> rpc_request \<Rightarrow> ('q, 'si, 'so) rpc_handler \<Rightarrow> ('q, 'si, 'so) rpc_handler \<Rightarrow> bool" where
  "dialed info h h' \<longleftrightarrow> dial_queue h = info # dial_queue h' \<and> dial_negotiated h < 8 \<and>
     dial_negotiated h' = dial_negotiated h + 1 \<and>
     (h_state h' = h_state h \<or> h_state h \<noteq> HActive \<and> h_state h' = HDeactivated) \<and>
     (\<forall>i. reports h i \<le> reports h' i)"

fun poll_effect :: "handler_event poll \<Rightarrow> ('q, 'si, 'so) rpc_handler \<Rightarrow> ('q, 'si, 'so) rpc_handler \<Rightarrow> bool" where
  "poll_effect (Ready (HOutboundSubstreamRequest info)) h h' = dialed info h h'"
| "poll_effect (Ready ev) h h' = answers (Some ev) h h'"
| "poll_effect Pending h h' = steady h h'"

locale handler_env = delay_queue dq items
  for dq :: "('q, substream_id) delay_queue_ops" and items :: "'q \<Rightarrow> dq_key \<Rightarrow> (substream_id \<times> instant) option" +
  fixes S :: "('si, 'so) stream_ops"
begin

lemma drop_inbound_ok:
  assumes inv: "handler_inv items h" and m: "hm_get (inbound_substreams h) rid = Some (st, key, proto)"
  shows "\<exists>h'. drop_inbound dq e rid key h = Some (Settled h') \<and> drive_ok items rid h h'"
proof -
  note ok = handler_inv_core [OF inv, unfolded core_inv_def, THEN conjunct1]
  have "\<exists>q'. (case key of Some delay_key \<Rightarrow> dq_remove dq delay_key (inbound_substreams_delay h)
        | None \<Rightarrow> Some (inbound_substreams_delay h)) = Some q' \<and>
      in_ok items q' (current_inbound_substream_id h) (hm_remove rid (inbound_substreams h))"
  proof (cases key)
    case None
    with ok show ?thesis by (simp add: in_ok_remove)
  next
    case (Some k)
    with in_okD(3) [OF ok] m obtain t where "items (inbound_substreams_delay h) k = Some (rid, t)" by blast
    from items_remove [OF this] obtain q' where
      "dq_remove dq k (inbound_substreams_delay h) = Some q'" "items q' = (items (inbound_substreams_delay h))(k := None)"
      by blast
    with Some in_ok_dq_remove [OF ok] m show ?thesis by auto
  qed
  then obtain q' where q': "(case key of Some delay_key \<Rightarrow> dq_remove dq delay_key (inbound_substreams_delay h)
        | None \<Rightarrow> Some (inbound_substreams_delay h)) = Some q'"
      "in_ok items q' (current_inbound_substream_id h) (hm_remove rid (inbound_substreams h))" by blast
  have "handler_inv items (update_keep_alive e (h\<lparr> inbound_substreams_delay := q',
          queued_outbound_items := hm_remove rid (queued_outbound_items h),
          inbound_substreams := hm_remove rid (inbound_substreams h) \<rparr>))"
    by (rule handler_inv_update) (use inv q'(2) in \<open>simp add: handler_inv_def core_inv_def\<close>)
  with q'(1) show ?thesis
    by (auto simp: drop_inbound_def drive_ok_def steady_def hm_remove_map)
qed

lemma resume_inbound_ok:
  assumes inv: "handler_inv items h" and m: "hm_get (inbound_substreams h) rid = Some (st, key, proto)"
    and rank: "2 \<le> state_rank st"
  shows "drive_result items rid h (resume_inbound rid s h)"
  using inv m rank
  by (cases "(s, hm_get (queued_outbound_items h) rid)" rule: apply_queued_responses.cases)
    (auto simp: resume_inbound_def drive_result_def drive_ok_def drive_rank_def map_of_set_inbound_state
       set_inbound_state_inv)

lemma close_inbound_ok:
  assumes inv: "handler_inv items h" and m: "hm_get (inbound_substreams h) rid = Some (st, key, proto')"
    and rank: "2 \<le> state_rank st"
  shows "drive_result items rid h (close_inbound rid proto closing s h)"
  using inv m rank
  by (auto simp: close_inbound_def drive_result_def drive_ok_def drive_rank_def map_of_set_inbound_state
      set_inbound_state_inv)

lemma set_inbound_ok:
  assumes inv: "handler_inv items h" and m: "hm_get (inbound_substreams h) rid = Some (st0, key, proto)"
    and st: "st \<noteq> InPoisoned"
  shows "drive_ok items rid h (set_inbound_state rid st h)"
    and "state_rank st < state_rank st0 \<Longrightarrow> drive_result items rid h (Further (set_inbound_state rid st h))"
  using inv m st
  by (auto simp: drive_ok_def drive_result_def drive_rank_def map_of_set_inbound_state set_inbound_state_inv)

lemma drive_send_ok:
  assumes inv: "handler_inv items h"
    and m: "hm_get (inbound_substreams h) rid = Some (ResponsePendingSend s0 message closing, key, proto)"
  shows "drive_result items rid h (drive_send S e rid s message closing h)"
proof -
  have rm: "drive_ok items rid h (update_keep_alive e (h\<lparr> inbound_substreams := hm_remove rid (inbound_substreams h) \<rparr>))"
    unfolding drive_ok_def
    by (intro conjI handler_inv_update)
      (use inv in \<open>auto simp: handler_inv_def core_inv_def in_ok_remove steady_def hm_remove_map\<close>)
  then show ?thesis
    using resume_inbound_ok [OF inv m] set_inbound_ok [OF inv m]
    by (simp add: drive_send_def split: prod.split poll.split sum.split)
qed

lemma drive_step_ok:
  assumes inv: "handler_inv items h" and rid: "rid \<in> in_keys h"
  shows "\<exists>r. drive_step S dq e deactivated rid h = Some r \<and> drive_result items rid h r"
proof -
  from rid obtain st key proto where m: "hm_get (inbound_substreams h) rid = Some (st, key, proto)" by auto
  note rules = resume_inbound_ok [OF inv m] close_inbound_ok [OF inv m] set_inbound_ok [OF inv m]
  from drop_inbound_ok [OF inv m, of e] obtain h1 where
    drop: "drop_inbound dq e rid key h = Some (Settled h1)" "drive_ok items rid h h1" by blast
  have "st \<noteq> InPoisoned"
    using inv in_okD(2) [OF _ m] by (auto simp: handler_inv_def core_inv_def)
  then show ?thesis
    using rules m drop drive_send_ok [OF inv, of rid]
    by (cases st) (auto simp: drive_step_def drive_closing_def split: prod.split poll.split sum.split)
qed

lemma drive_loop_ok:
  "handler_inv items h \<Longrightarrow> rid \<in> in_keys h \<Longrightarrow>
   flow_ok (\<lambda>ev h'. quiet ev \<and> drive_ok items rid h h') (drive_ok items rid h) (drive_loop S dq e deactivated rid h)"
proof (induction "drive_rank rid h" arbitrary: h rule: less_induct)
  case less
  from drive_step_ok [OF less.prems, of e deactivated] obtain r where
    r: "drive_step S dq e deactivated rid h = Some r" "drive_result items rid h r" by blast
  show ?case
  proof (cases r)
    case (Further h1)
    with r have h1: "drive_ok items rid h h1" "rid \<in> in_keys h1" "drive_rank rid h1 < drive_rank rid h"
      by (auto simp: drive_result_def)
    then have "handler_inv items h1" by (simp add: drive_ok_def)
    from less.hyps [OF h1(3) this h1(2)]
    have "flow_ok (\<lambda>ev h'. quiet ev \<and> drive_ok items rid h h') (drive_ok items rid h) (drive_loop S dq e deactivated rid h1)"
      by (rule flow_ok_mono) (use h1(1) in \<open>auto intro: drive_ok_trans\<close>)
    then show ?thesis by (subst drive_loop.simps) (simp add: r(1) Further)
  qed (use r in \<open>(subst drive_loop.simps, simp)+\<close>)
qed

text \<open>The substreams in turn: none but the one that is driven goes away.\<close>

lemma drive_inbound_ok:
  "handler_inv items h \<Longrightarrow> distinct rids \<Longrightarrow> set rids \<subseteq> in_keys h \<Longrightarrow>
   flow_ok (\<lambda>ev h'. quiet ev \<and> handler_inv items h' \<and> answers (Some ev) h h')
     (\<lambda>h'. handler_inv items h' \<and> steady h h' \<and> outbound_substreams h' = outbound_substreams h)
     (drive_inbound S dq e deactivated rids h)"
proof (induction rids arbitrary: h)
  case (Cons rid rids)
  show ?case
    unfolding drive_inbound.simps
  proof (rule flow_ok_bind)
    show "flow_ok (\<lambda>ev h'. quiet ev \<and> handler_inv items h' \<and> answers (Some ev) h h') (drive_ok items rid h)
            (drive_loop S dq e deactivated rid h)"
      by (rule flow_ok_mono [OF drive_loop_ok]) (use Cons.prems in \<open>auto simp: drive_ok_def intro: steady_any\<close>)
    show "flow_ok (\<lambda>ev h'. quiet ev \<and> handler_inv items h' \<and> answers (Some ev) h h')
            (\<lambda>h'. handler_inv items h' \<and> steady h h' \<and> outbound_substreams h' = outbound_substreams h)
            (drive_inbound S dq e deactivated rids h1)" if "drive_ok items rid h h1" for h1
      by (rule flow_ok_mono [OF Cons.IH])
        (use that Cons.prems in \<open>auto simp: drive_ok_def intro: steady_trans steady_answers steady_any\<close>)
  qed
qed simp

lemma drop_outbound_ok:
  assumes inv: "handler_inv items h" and m: "hm_get (outbound_substreams h) oid = Some info"
  shows "\<exists>h'. drop_outbound dq e oid info h = Some h' \<and> handler_inv items h' \<and> out_keys h' = out_keys h - {oid} \<and>
           (\<forall>ev. (\<forall>i. awaits i info \<longrightarrow> 1 \<le> made ev i) \<longrightarrow> answers ev h h')"
proof -
  note ok = handler_inv_core [OF inv, unfolded core_inv_def, THEN conjunct2, THEN conjunct1]
  from out_okD(3) [OF ok m] obtain t where t: "items (outbound_substreams_delay h) (oi_delay_key info) = Some (oid, t)" ..
  from items_remove [OF t] obtain q' where q': "dq_remove dq (oi_delay_key info) (outbound_substreams_delay h) = Some q'"
    "items q' = (items (outbound_substreams_delay h))(oi_delay_key info := None)" by blast
  define h1 where "h1 = h\<lparr> outbound_substreams_delay := q', outbound_substreams := hm_remove oid (outbound_substreams h) \<rparr>"
  have "handler_inv items (update_keep_alive e h1)"
    by (rule handler_inv_update)
      (use inv out_ok_remove(1) [OF ok t q'(2)] in \<open>simp add: handler_inv_def core_inv_def h1_def\<close>)
  moreover have "answers ev h h1" if "\<forall>i. awaits i info \<longrightarrow> 1 \<le> made ev i" for ev
    unfolding answers_def
  proof (intro conjI allI)
    show "reports h i \<le> reports h1 i + made ev i" for i
      using reports_remove [OF out_okD(1) [OF ok] m, of "pending_errors h" i] that by (auto simp: h1_def split: if_splits)
  qed (simp_all add: h1_def)
  ultimately show ?thesis
    using q'(1) by (auto simp: drop_outbound_def h1_def hm_remove_map)
qed

lemma set_outbound_answers:
  assumes m: "hm_get (outbound_substreams h) oid = Some info"
    and aw: "\<And>i. awaits i info \<Longrightarrow> awaits i info' \<or> 1 \<le> made ev i"
  shows "answers ev h (set_outbound oid info' h)"
  unfolding answers_def
proof (intro conjI allI)
  show "reports h i \<le> reports (set_outbound oid info' h) i + made ev i" for i
    using reports_update [OF m, of info' "pending_errors h" i] aw [of i]
    by (auto simp: set_outbound_def split: if_splits)
qed (simp_all add: set_outbound_def)

lemma set_outbound_ok:
  assumes inv: "handler_inv items h" and m: "hm_get (outbound_substreams h) oid = Some info"
    and info': "oi_state info' \<noteq> OutPoisoned" "oi_delay_key info' = oi_delay_key info"
  shows "handler_inv items (set_outbound oid info' h) \<and> out_keys (set_outbound oid info' h) = out_keys h"
proof -
  have "out_ok items (outbound_substreams_delay h) (current_outbound_substream_id h)
          (hm_insert oid info' (outbound_substreams h))"
    by (rule out_ok_set [OF _ m info']) (use inv in \<open>simp add: handler_inv_def core_inv_def\<close>)
  moreover have "\<not> idle h" using m by (auto simp: idle_def)
  ultimately show ?thesis
    using inv m by (auto simp: set_outbound_def handler_inv_def core_inv_def hm_insert_map)
qed

lemma received_event_total: "\<exists>r. received_event info response = Some r \<and> outcome (HCustom r) (oi_req_id info) = 1"
  by (cases response) (auto simp: received_event_def)

lemma response_timeout_fits: "from_secs RESPONSE_TIMEOUT \<le> dq_max dq"
  using max_minutes by (simp add: RESPONSE_TIMEOUT_def)

lemma response_timer:
  obtains q k where "dq_insert dq t rid (from_secs RESPONSE_TIMEOUT) q0 = Some (q, k)"
    "items q0 k = None" "items q = (items q0)(k \<mapsto> (rid, t + from_secs RESPONSE_TIMEOUT))"
  using insert_fits [OF response_timeout_fits, of t rid q0] items_insert [of t rid "from_secs RESPONSE_TIMEOUT" q0]
  by fastforce

lemma reset_outbound_ok:
  assumes inv: "handler_inv items h" and m: "hm_get (outbound_substreams h) oid = Some info" and d: "d \<le> dq_max dq"
  shows "\<exists>q. dq_reset dq t (oi_delay_key info) d (outbound_substreams_delay h) = Some q \<and>
           handler_inv items (h\<lparr> outbound_substreams_delay := q \<rparr>) \<and> steady h (h\<lparr> outbound_substreams_delay := q \<rparr>)"
proof -
  note ok = handler_inv_core [OF inv, unfolded core_inv_def, THEN conjunct2, THEN conjunct1]
  from out_okD(3) [OF ok m] obtain t0 where t0: "items (outbound_substreams_delay h) (oi_delay_key info) = Some (oid, t0)" ..
  from items_reset [OF t0 d, of t] obtain q where q: "dq_reset dq t (oi_delay_key info) d (outbound_substreams_delay h) = Some q"
    "items q = (items (outbound_substreams_delay h))(oi_delay_key info \<mapsto> (oid, t + d))" by blast
  have "handler_inv items (h\<lparr> outbound_substreams_delay := q \<rparr>)"
    using inv out_ok_reset [OF ok t0 q(2)] by (simp add: handler_inv_def core_inv_def idle_def)
  with q(1) show ?thesis by (simp add: steady_def)
qed

lemma receive_response_ok:
  assumes inv: "handler_inv items h" and m: "hm_get (outbound_substreams h) oid = Some info"
  shows "\<exists>ev h'. receive_response dq e oid info s request response h = Some (Return (HCustom ev) h') \<and>
           handler_inv items h' \<and> answers (Some (HCustom ev)) h h'"
proof -
  obtain r where r: "received_event info response = Some r" "outcome (HCustom r) (oi_req_id info) = 1"
    using received_event_total by blast
  from reset_outbound_ok [OF assms response_timeout_fits, of "now e"] obtain q where
    q: "dq_reset dq (now e) (oi_delay_key info) (from_secs RESPONSE_TIMEOUT) (outbound_substreams_delay h) = Some q"
      "handler_inv items (h\<lparr> outbound_substreams_delay := q \<rparr>)" "steady h (h\<lparr> outbound_substreams_delay := q \<rparr>)" by blast
  have m': "hm_get (outbound_substreams (h\<lparr> outbound_substreams_delay := q \<rparr>)) oid = Some info" using m by simp
  have "answers (Some (HCustom r)) h0 (set_outbound oid i h0)" if "hm_get (outbound_substreams h0) oid = Some info" for i h0
    using that r(2) by (intro set_outbound_answers) auto
  from this [OF m] steady_answers [OF q(3) this [OF m']] show ?thesis
    using set_outbound_ok [OF q(2) m'] set_outbound_ok [OF inv m] r(1) q(1)
    by (auto simp: receive_response_def Let_def)
qed

lemma drive_outbound_one_ok:
  assumes inv: "handler_inv items h" and oid: "oid \<in> out_keys h"
  shows "flow_ok (\<lambda>ev h'. quiet ev \<and> handler_inv items h' \<and> answers (Some ev) h h')
           (\<lambda>h'. handler_inv items h' \<and> steady h h' \<and> out_keys h - {oid} \<subseteq> out_keys h')
           (drive_outbound_one S dq e deactivated oid h)"
proof -
  from oid obtain info where m: "hm_get (outbound_substreams h) oid = Some info" by auto
  have st: "oi_state info \<noteq> OutPoisoned"
    using inv out_okD(2) [OF _ m] by (auto simp: handler_inv_def core_inv_def)
  from drop_outbound_ok [OF inv m, of e] obtain h1 where drop: "drop_outbound dq e oid info h = Some h1"
    "handler_inv items h1" "out_keys h1 = out_keys h - {oid}"
    "\<And>ev. (\<forall>i. awaits i info \<longrightarrow> 1 \<le> made ev i) \<Longrightarrow> answers ev h h1" by blast
  note set = set_outbound_ok [OF inv m]
  have same: "steady h (set_outbound oid info' h)" if "\<And>i. awaits i info \<Longrightarrow> awaits i info'" for info'
    by (rule set_outbound_answers [OF m]) (use that in blast)
  have reject: "steady h (push_error (OutboundErr (oi_req_id info) proto err) (set_outbound oid info' h))" for proto err info'
    unfolding steady_def
  proof (intro conjI allI)
    show "reports h i \<le> reports (push_error (OutboundErr (oi_req_id info) proto err) (set_outbound oid info' h)) i" for i
      using reports_update [OF m, of info' "pending_errors h" i]
      by (auto simp: set_outbound_def push_error_def reports_of_def split: if_splits)
  qed (simp_all add: set_outbound_def)
  have recv: "flow_ok (\<lambda>ev h'. quiet ev \<and> handler_inv items h' \<and> answers (Some ev) h h')
           (\<lambda>h'. handler_inv items h' \<and> steady h h' \<and> out_keys h - {oid} \<subseteq> out_keys h')
           (receive_response dq e oid info s request response h)" for s request response
    using receive_response_ok [OF inv m, of e s request response] by auto
  show ?thesis
  proof (cases "oi_state info")
    case (RequestPendingResponse s request)
    then show ?thesis
      using m set recv drop reject same
      by (auto simp: drive_outbound_one_def split: prod.split poll.split option.split sum.split)
  next
    case (OutClosing s)
    then show ?thesis
      using m set drop same by (auto simp: drive_outbound_one_def split: prod.split poll.split)
  qed (use st in simp)
qed

lemma drive_outbound_ok:
  "handler_inv items h \<Longrightarrow> distinct oids \<Longrightarrow> set oids \<subseteq> out_keys h \<Longrightarrow>
   flow_ok (\<lambda>ev h'. quiet ev \<and> handler_inv items h' \<and> answers (Some ev) h h') (\<lambda>h'. handler_inv items h' \<and> steady h h')
     (drive_outbound S dq e deactivated oids h)"
proof (induction oids arbitrary: h)
  case (Cons oid oids)
  show ?case
    unfolding drive_outbound.simps
  proof (rule flow_ok_bind [OF drive_outbound_one_ok])
    show "flow_ok (\<lambda>ev h'. quiet ev \<and> handler_inv items h' \<and> answers (Some ev) h h') (\<lambda>h'. handler_inv items h' \<and> steady h h')
            (drive_outbound S dq e deactivated oids h1)"
      if "handler_inv items h1 \<and> steady h h1 \<and> out_keys h - {oid} \<subseteq> out_keys h1" for h1
      by (rule flow_ok_mono [OF Cons.IH]) (use that Cons.prems in \<open>auto intro: steady_trans steady_answers steady_any\<close>)
  qed (use Cons.prems in auto)
qed simp

lemma expire_inbound_ok:
  assumes inv: "handler_inv items h" and k: "items (inbound_substreams_delay h) k = Some (rid, d)"
    and q': "items q' = (items (inbound_substreams_delay h))(k := None)"
  shows "\<exists>h'. expire_inbound rid (h\<lparr> inbound_substreams_delay := q' \<rparr>) = Some h' \<and> handler_inv items h' \<and> steady h h' \<and>
           inbound_substreams_delay h' = q'"
proof (cases "hm_get (inbound_substreams h) rid")
  note ok = handler_inv_core [OF inv, unfolded core_inv_def, THEN conjunct1]
  case None
  with inv in_ok_expired(2) [OF ok k q' None] show ?thesis
    by (simp add: expire_inbound_def handler_inv_def core_inv_def idle_def steady_def)
next
  note ok = handler_inv_core [OF inv, unfolded core_inv_def, THEN conjunct1]
  case (Some entry)
  obtain st key proto where entry: "entry = (st, key, proto)" by (cases entry)
  have "\<not> idle h" using Some by (auto simp: idle_def)
  moreover have "\<exists>st' queue'. inbound_close st queue = Some (st', queue') \<and> st' \<noteq> InPoisoned" for queue
    using in_okD(2) [OF ok Some [unfolded entry]] by (cases st) auto
  then obtain st' queue' where "inbound_close st (case hm_get (queued_outbound_items h) rid of Some q \<Rightarrow> q | None \<Rightarrow> []) =
      Some (st', queue')" "st' \<noteq> InPoisoned" by blast
  moreover note in_ok_expired(1) [OF ok k q' Some [unfolded entry] this(2)]
  ultimately show ?thesis
    using inv Some entry
    by (simp add: expire_inbound_def Let_def handler_inv_def core_inv_def steady_def push_error_def reports_push)
qed

text \<open>Each round of the purge loops takes an item out of the queue.\<close>

lemma purge_inbound_ok:
  "handler_inv items h \<Longrightarrow>
   flow_ok (\<lambda>ev h'. quiet ev \<and> handler_inv items h' \<and> answers (Some ev) h h') (\<lambda>h'. handler_inv items h' \<and> steady h h')
     (purge_inbound dq e h)"
proof (induction "card (dom (items (inbound_substreams_delay h)))" arbitrary: h rule: less_induct)
  case less
  obtain r q where poll: "dq_poll dq (now e) (inbound_substreams_delay h) = (r, q)" by force
  have same: "items q = items (inbound_substreams_delay h) \<Longrightarrow> handler_inv items (h\<lparr> inbound_substreams_delay := q \<rparr>)"
    using less.prems by (auto simp: handler_inv_def core_inv_def idle_def intro: in_ok_same_items)
  show ?case
  proof (cases "\<exists>rid. r = Ready (Some (Inr rid))")
    case True
    then obtain rid where rid: "r = Ready (Some (Inr rid))" ..
    from items_expired [OF poll [unfolded rid]] obtain k d where k: "items (inbound_substreams_delay h) k = Some (rid, d)"
      "items q = (items (inbound_substreams_delay h))(k := None)" by blast
    from expire_inbound_ok [OF less.prems k] obtain h1 where
      h1: "expire_inbound rid (h\<lparr> inbound_substreams_delay := q \<rparr>) = Some h1" "handler_inv items h1" "steady h h1"
        "inbound_substreams_delay h1 = q" by blast
    have "card (dom (items q)) < card (dom (items (inbound_substreams_delay h)))"
      using k items_finite [of "inbound_substreams_delay h"] by (auto intro!: psubset_card_mono)
    then have "flow_ok (\<lambda>ev h'. quiet ev \<and> handler_inv items h' \<and> answers (Some ev) h1 h') (\<lambda>h'. handler_inv items h' \<and> steady h1 h')
        (purge_inbound dq e h1)"
      using less.hyps [of h1] h1 by simp
    then have "flow_ok (\<lambda>ev h'. quiet ev \<and> handler_inv items h' \<and> answers (Some ev) h h') (\<lambda>h'. handler_inv items h' \<and> steady h h')
        (purge_inbound dq e h1)"
      by (rule flow_ok_mono) (use h1(3) in \<open>auto intro: steady_trans steady_answers steady_any\<close>)
    then show ?thesis by (subst purge_inbound.simps) (simp add: poll rid h1(1))
  next
    case False
    then have "items q = items (inbound_substreams_delay h)" using items_poll_other [OF poll] by blast
    from same [OF this] False show ?thesis
      by (subst purge_inbound.simps) (auto simp: poll answers_def split: poll.split option.split sum.split)
  qed
qed

lemma purge_outbound_ok:
  "handler_inv items h \<Longrightarrow>
   flow_ok (\<lambda>ev h'. quiet ev \<and> handler_inv items h' \<and> answers (Some ev) h h') (\<lambda>h'. handler_inv items h' \<and> steady h h')
     (purge_outbound dq e h)"
proof (induction "card (dom (items (outbound_substreams_delay h)))" arbitrary: h rule: less_induct)
  case less
  note ok = handler_inv_core [OF less.prems, unfolded core_inv_def, THEN conjunct2, THEN conjunct1]
  obtain r q where poll: "dq_poll dq (now e) (outbound_substreams_delay h) = (r, q)" by force
  have same: "items q = items (outbound_substreams_delay h) \<Longrightarrow> handler_inv items (h\<lparr> outbound_substreams_delay := q \<rparr>)"
    using less.prems by (auto simp: handler_inv_def core_inv_def idle_def intro: out_ok_same_items)
  show ?case
  proof (cases "\<exists>oid. r = Ready (Some (Inr oid))")
    case True
    then obtain oid where oid: "r = Ready (Some (Inr oid))" ..
    from items_expired [OF poll [unfolded oid]] obtain k d where k: "items (outbound_substreams_delay h) k = Some (oid, d)"
      "items q = (items (outbound_substreams_delay h))(k := None)" by blast
    note removed = out_ok_remove [OF ok k]
    show ?thesis
    proof (cases "hm_get (outbound_substreams h) oid")
      case None
      have h1: "handler_inv items (h\<lparr> outbound_substreams_delay := q \<rparr>)"
        using less.prems removed(2) [OF None] by (simp add: handler_inv_def core_inv_def idle_def)
      have "card (dom (items q)) < card (dom (items (outbound_substreams_delay h)))"
        using k items_finite [of "outbound_substreams_delay h"] by (auto intro!: psubset_card_mono)
      from less.hyps [of "h\<lparr> outbound_substreams_delay := q \<rparr>"] this h1
      have "flow_ok (\<lambda>ev h'. quiet ev \<and> handler_inv items h' \<and> answers (Some ev) h h') (\<lambda>h'. handler_inv items h' \<and> steady h h')
          (purge_outbound dq e (h\<lparr> outbound_substreams_delay := q \<rparr>))"
        by (simp add: answers_def)
      with None show ?thesis by (subst purge_outbound.simps) (simp add: poll oid)
    next
      case (Some info)
      have "handler_inv items (update_keep_alive e (h\<lparr> outbound_substreams_delay := q,
              outbound_substreams := hm_remove oid (outbound_substreams h) \<rparr>))"
        by (rule handler_inv_update) (use less.prems removed(1) in \<open>simp add: handler_inv_def core_inv_def\<close>)
      moreover have "reports h i \<le> reports_of (hm_remove oid (outbound_substreams h)) (pending_errors h) i +
              (if oi_req_id info = i then 1 else 0)" for i
        using reports_remove [OF out_okD(1) [OF ok] Some, of "pending_errors h" i] by (auto split: if_splits)
      ultimately show ?thesis
        using Some by (subst purge_outbound.simps) (simp add: poll oid answers_def)
    qed
  next
    case False
    then have "items q = items (outbound_substreams_delay h)" using items_poll_other [OF poll] by blast
    from same [OF this] False show ?thesis
      by (subst purge_outbound.simps) (auto simp: poll answers_def split: poll.split option.split sum.split)
  qed
qed

lemma streams_phase_ok:
  assumes "handler_inv items h"
  shows "flow_ok (\<lambda>ev h'. quiet ev \<and> handler_inv items h' \<and> answers (Some ev) h h') (\<lambda>h'. handler_inv items h' \<and> steady h h')
           (streams_phase S dq e h)"
proof -
  have wf: "hm_wf (inbound_substreams h')" "hm_wf (outbound_substreams h')" if "handler_inv items h'" for h'
    using that by (auto simp: handler_inv_def core_inv_def in_ok_def out_ok_def)
  show ?thesis
    unfolding streams_phase_def Let_def
  proof (rule flow_ok_bind [OF drive_inbound_ok])
    show "flow_ok (\<lambda>ev h'. quiet ev \<and> handler_inv items h' \<and> answers (Some ev) h h') (\<lambda>h'. handler_inv items h' \<and> steady h h')
        (drive_outbound S dq e (h_state h = HDeactivated) (map fst (outbound_substreams h1)) h1)"
      if "handler_inv items h1 \<and> steady h h1 \<and> outbound_substreams h1 = outbound_substreams h" for h1
      by (rule flow_ok_mono [OF drive_outbound_ok])
        (use that wf [of h1] in \<open>auto simp: dom_map_of_conv_image_fst intro: steady_trans steady_answers steady_any\<close>)
  qed (use assms wf [of h] in \<open>auto simp: dom_map_of_conv_image_fst\<close>)
qed

lemma before_dial_ok:
  assumes inv: "handler_inv items h"
  shows "flow_ok (\<lambda>ev h'. quiet ev \<and> handler_inv items h' \<and> answers (Some ev) h h') (\<lambda>h'. handler_inv items h' \<and> steady h h')
           (before_dial S dq e h)"
proof -
  define Q where "Q ev h' \<longleftrightarrow> quiet ev \<and> handler_inv items h' \<and> answers (Some ev) h h'" for ev h'
  define I where "I h' \<longleftrightarrow> handler_inv items h' \<and> steady h h'" for h'
  have go: "flow_ok Q I (f h1)"
    if "I h1" "\<And>h0. handler_inv items h0 \<Longrightarrow> flow_ok (\<lambda>ev h'. quiet ev \<and> handler_inv items h' \<and> answers (Some ev) h0 h')
                   (\<lambda>h'. handler_inv items h' \<and> steady h0 h') (f h0)" for f h1
    using that by (auto simp: Q_def I_def intro!: flow_ok_mono [OF that(2)] intro: steady_trans steady_answers steady_any)
  have report: "flow_ok Q I (report_phase h)"
    using inv by (auto simp: report_phase_def Q_def I_def handler_inv_def core_inv_def idle_def answers_def reports_of_def split: list.split)
  have shut: "flow_ok (\<lambda>ev h'. quiet ev \<and> handler_inv items h' \<and> answers (Some ev) h0 h')
                   (\<lambda>h'. handler_inv items h' \<and> steady h0 h') (shutdown_phase e h0)" if "handler_inv items h0" for h0
    using that by (auto simp: shutdown_phase_def handler_inv_def core_inv_def idle_def steady_def split: handler_state.split)
  have "flow_ok Q I (before_dial S dq e h)"
    by (intro flow_ok_bind [of _ I] report go shut purge_inbound_ok purge_outbound_ok streams_phase_ok)
  then show ?thesis unfolding Q_def I_def .
qed

lemma handler_poll_ok:
  assumes inv: "handler_inv items h"
  shows "\<exists>r h'. handler_poll S dq e h = Some (r, h') \<and> handler_inv items h' \<and> poll_effect r h h'"
proof -
  obtain r where r: "before_dial S dq e h = Some r"
    "case r of Return ev h' \<Rightarrow> quiet ev \<and> handler_inv items h' \<and> answers (Some ev) h h' | Continue h' \<Rightarrow> handler_inv items h' \<and> steady h h'"
    using before_dial_ok [OF inv, of e] by (auto simp: flow_ok_def split: option.splits flow.splits)
  show ?thesis
  proof (cases r)
    case (Return ev h1)
    with r show ?thesis
      by (cases ev) (simp_all add: handler_poll_def)
  next
    case (Continue h1)
    with r have h1: "handler_inv items h1" "steady h h1" by simp_all
    then have d: "dial_negotiated h1 \<le> 8" "max_dial_negotiated h1 = 8" by (simp_all add: handler_inv_def core_inv_def)
    show ?thesis
    proof (cases "dial_queue h1 = [] \<or> \<not> dial_negotiated h1 < 8")
      case True
      with h1 d r(1) Continue show ?thesis
        by (auto simp: handler_poll_def dial_phase_def split: list.split)
    next
      case False
      then obtain info queue where q: "dial_queue h1 = info # queue" "dial_negotiated h1 < 8"
        by (cases "dial_queue h1") auto
      then have unat: "unat (dial_negotiated h1) < 8" by (simp add: word_less_nat_alt)
      then have add: "rust_add e (dial_negotiated h1) 1 = Some (dial_negotiated h1 + 1)"
        by (simp add: rust_add_def)
      from unat have "dial_negotiated h1 + 1 \<le> 8" by (simp add: word_le_nat_alt unat_word_ariths)
      with h1(1) q have "handler_inv items (update_keep_alive e (h1\<lparr> dial_negotiated := dial_negotiated h1 + 1, dial_queue := queue \<rparr>))"
        by (intro handler_inv_update) (simp add: handler_inv_def core_inv_def)
      moreover have "handler_poll S dq e h = Some (Ready (HOutboundSubstreamRequest info),
          update_keep_alive e (h1\<lparr> dial_negotiated := dial_negotiated h1 + 1, dial_queue := queue \<rparr>))"
        by (simp add: handler_poll_def r(1) Continue dial_phase_def q d add)
      moreover have "dialed info h (h1\<lparr> dial_negotiated := dial_negotiated h1 + 1, dial_queue := queue \<rparr>)"
        using h1(2) q by (auto simp: steady_def dialed_def)
      ultimately show ?thesis by (simp add: dialed_def)
    qed
  qed
qed

end

section \<open>The handler as a machine\<close>

text \<open>
  The swarm calls the handler. Each substream that \<open>poll\<close> asks for is opened or fails once, so the
  calls that report on it take their request from the list of the outstanding ones (an index outside
  of the list stands for no call).
\<close>

datatype ('si, 'so) handler_call =
    HcShutdown env "(request_id \<times> rpc_request) option"
  | HcInbound env rpc_request 'si
  | HcOutbound env 'so nat
  | HcDialError env "rpc_error upgr_err" nat
  | HcEvent env rpc_send
  | HcPoll env

definition without :: "nat \<Rightarrow> 'a list \<Rightarrow> 'a list" where
  "without n xs = take n xs @ drop (Suc n) xs"

type_synonym ('q, 'si, 'so) handler_machine = "('q, 'si, 'so) rpc_handler \<times> (request_id \<times> rpc_request) list"

fun handler_step ::
  "('si, 'so) stream_ops \<Rightarrow> ('q, substream_id) delay_queue_ops \<Rightarrow> ('si, 'so) handler_call \<Rightarrow>
   ('q, 'si, 'so) handler_machine \<Rightarrow> (handler_event list \<times> ('q, 'si, 'so) handler_machine) option" where
  "handler_step S dq (HcShutdown e final_msg) (h, outs) = Some ([], shutdown e final_msg h, outs)"
| "handler_step S dq (HcInbound e req s) (h, outs) =
     map_option (\<lambda>h'. ([], h', outs)) (inject_fully_negotiated_inbound dq e (req, s) h)"
| "handler_step S dq (HcOutbound e s n) (h, outs) =
     (if n < length outs
      then map_option (\<lambda>h'. ([], h', without n outs)) (inject_fully_negotiated_outbound dq e s (outs ! n) h)
      else Some ([], h, outs))"
| "handler_step S dq (HcDialError e err n) (h, outs) =
     (if n < length outs
      then map_option (\<lambda>h'. ([], h', without n outs)) (inject_dial_upgrade_error e (outs ! n) err h)
      else Some ([], h, outs))"
| "handler_step S dq (HcEvent e ev) (h, outs) = map_option (\<lambda>h'. ([], h', outs)) (inject_event e ev h)"
| "handler_step S dq (HcPoll e) (h, outs) =
     map_option (\<lambda>(r, h').
         (case r of
            Ready (HOutboundSubstreamRequest info) \<Rightarrow> ([HOutboundSubstreamRequest info], h', outs @ [info])
          | Ready ev \<Rightarrow> ([ev], h', outs)
          | Pending \<Rightarrow> ([], h', outs)))
       (handler_poll S dq e h)"

definition machine_inv ::
  "('q \<Rightarrow> dq_key \<Rightarrow> (substream_id \<times> instant) option) \<Rightarrow> ('q, 'si, 'so) handler_machine \<Rightarrow> bool" where
  "machine_inv items m \<longleftrightarrow> handler_inv items (fst m) \<and> length (snd m) \<le> unat (dial_negotiated (fst m))"

lemma length_without [simp]: "n < length xs \<Longrightarrow> length (without n xs) = length xs - 1"
  by (simp add: without_def)

context handler_env
begin

lemma handler_new_inv: "handler_inv items (handler_new dq timeout)"
  by (simp add: handler_inv_def core_inv_def handler_new_def in_ok_def out_ok_def)

lemma shutdown_inv: "handler_inv items h \<Longrightarrow> handler_inv items (shutdown e final_msg h)"
  unfolding shutdown_def by (rule handler_inv_update) (simp add: handler_inv_def core_inv_def)

lemma shutdown_dials [simp]: "dial_negotiated (shutdown e final_msg h) = dial_negotiated h"
  by (simp add: shutdown_def)

lemma send_request_inv: "handler_inv items h \<Longrightarrow> handler_inv items (send_request e rid req h)"
  by (frule handler_inv_core) (auto simp: send_request_def core_inv_def split: handler_state.split)

lemma send_request_dials [simp]: "dial_negotiated (send_request e rid req h) = dial_negotiated h"
  by (simp add: send_request_def split: handler_state.split)

lemma report_error_response_ok:
  "\<exists>h'. report_error_response rid proto response h = Some h' \<and>
     inbound_substreams h' = inbound_substreams h \<and> h_state h' = h_state h \<and> steady h h' \<and>
     (handler_inv items h \<longrightarrow> handler_inv items h')"
  by (cases response) (auto simp: report_error_response_def)

lemma send_response_ok:
  assumes inv: "handler_inv items h"
  shows "\<exists>h'. send_response rid response h = Some h' \<and> handler_inv items h' \<and> steady h h'"
proof (cases "hm_get (inbound_substreams h) rid")
  case None
  with inv show ?thesis by (simp add: send_response_def)
next
  case (Some entry)
  obtain st key proto where entry: "entry = (st, key, proto)" by (cases entry)
  from report_error_response_ok [of rid proto response h] inv obtain h1 where
    h1: "report_error_response rid proto response h = Some h1" "steady h h1" "handler_inv items h1" by blast
  have "st \<noteq> InPoisoned"
    using inv in_okD(2) [OF _ Some [unfolded entry]] by (auto simp: handler_inv_def core_inv_def)
  with Some entry h1 show ?thesis
    by (cases st) (auto simp: send_response_def queue_response_def intro: set_inbound_state_inv)
qed

lemma inject_inbound_dials:
  "inject_fully_negotiated_inbound dq e substream h = Some h' \<Longrightarrow> dial_negotiated h' = dial_negotiated h"
  by (auto simp: inject_fully_negotiated_inbound_def Let_def split: prod.splits if_splits)

lemma inject_inbound_inv:
  assumes inv: "handler_inv items h"
  shows "\<exists>h'. inject_fully_negotiated_inbound dq e (req, s) h = Some h' \<and> handler_inv items h' \<and>
           dial_negotiated h' = dial_negotiated h"
proof -
  obtain q k where ins: "dq_insert dq (now e) (current_inbound_substream_id h) (from_secs RESPONSE_TIMEOUT)
      (inbound_substreams_delay h) = Some (q, k)" by (rule response_timer)
  note ok = handler_inv_core [OF inv, unfolded core_inv_def, THEN conjunct1]
  from items_insert [OF ins] have
    "in_ok items q (Suc (current_inbound_substream_id h))
       (hm_insert (current_inbound_substream_id h) (ResponseIdle s, Some k, req_protocol req) (inbound_substreams h))"
    by (intro in_ok_insert [OF ok]) auto
  moreover have "in_ok items (inbound_substreams_delay h) (Suc (current_inbound_substream_id h)) (inbound_substreams h)"
    using ok by (auto simp: in_ok_def less_SucI)
  ultimately show ?thesis
    using inv handler_inv_core [OF inv]
    by (simp add: inject_fully_negotiated_inbound_def Let_def ins core_inv_def)
qed

lemma dial_finished:
  assumes "handler_inv items h" "0 < unat (dial_negotiated h)"
  shows "\<exists>dn. rust_sub e (dial_negotiated h) 1 = Some dn \<and> unat dn = unat (dial_negotiated h) - 1 \<and>
           core_inv items (h\<lparr> dial_negotiated := dn \<rparr>) \<and> (keep_alive h = KaYes \<or> idle h)"
proof -
  have le: "1 \<le> dial_negotiated h" using assms(2) by (simp add: word_le_nat_alt)
  then have "unat (dial_negotiated h - 1) = unat (dial_negotiated h) - 1" by (simp add: unat_sub)
  with assms(1) le show ?thesis
    by (auto simp: rust_sub_def handler_inv_def core_inv_def word_le_nat_alt)
qed

lemma inject_outbound_ok:
  assumes inv: "handler_inv items h" and pos: "0 < unat (dial_negotiated h)"
  shows "\<exists>h'. inject_fully_negotiated_outbound dq e s (rid, req) h = Some h' \<and> handler_inv items h' \<and>
           unat (dial_negotiated h') = unat (dial_negotiated h) - 1"
proof -
  from dial_finished [OF assms, of e] obtain dn where dn: "rust_sub e (dial_negotiated h) 1 = Some dn"
    "unat dn = unat (dial_negotiated h) - 1" "core_inv items (h\<lparr> dial_negotiated := dn \<rparr>)" by blast
  have yes: "keep_alive h = KaYes" using inv pos by (auto simp: handler_inv_def idle_def)
  obtain q k where ins: "dq_insert dq (now e) (current_outbound_substream_id h) (from_secs RESPONSE_TIMEOUT)
      (outbound_substreams_delay h) = Some (q, k)" by (rule response_timer)
  note ok = dn(3) [unfolded core_inv_def, simplified, THEN conjunct2, THEN conjunct1]
  from items_insert [OF ins] have "out_ok items q (Suc (current_outbound_substream_id h))
       (hm_insert (current_outbound_substream_id h)
          \<lparr> oi_state = RequestPendingResponse s req, oi_delay_key = k, oi_proto = req_protocol req,
            oi_remaining_chunks = c, oi_req_id = rid \<rparr> (outbound_substreams h))" for c
    by (intro out_ok_insert [OF ok]) auto
  with dn yes show ?thesis
    by (simp add: inject_fully_negotiated_outbound_def Let_def ins core_inv_def handler_inv_def [of _ "h\<lparr> dial_negotiated := dn \<rparr>"])
qed

lemma dial_failed_ok:
  assumes inv: "handler_inv items (h\<lparr> outbound_io_error_retries := r \<rparr>)" and pos: "0 < unat (dial_negotiated h)"
  shows "\<exists>h'. dial_failed e info err (h\<lparr> outbound_io_error_retries := r' \<rparr>) = Some h' \<and> handler_inv items h' \<and>
           unat (dial_negotiated h') = unat (dial_negotiated h) - 1"
proof -
  from dial_finished [OF inv, of e] pos obtain dn where dn: "rust_sub e (dial_negotiated h) 1 = Some dn"
    "unat dn = unat (dial_negotiated h) - 1" "core_inv items (h\<lparr> outbound_io_error_retries := r, dial_negotiated := dn \<rparr>)"
    by auto
  define h1 where "h1 = h\<lparr> outbound_io_error_retries := r', dial_negotiated := dn \<rparr>"
  have "keep_alive h1 \<noteq> KaNo" using dn(3) by (simp add: core_inv_def h1_def)
  note mode = update_keep_alive_mode [OF this, of e]
  have "handler_inv items ((update_keep_alive e h1)\<lparr> outbound_io_error_retries := 0 \<rparr>)"
    using mode dn(3) by (auto simp: handler_inv_def core_inv_def idle_def h1_def)
  then show ?thesis
    using dn by (simp add: dial_failed_def h1_def)
qed

lemma inject_dial_upgrade_error_ok:
  assumes inv: "handler_inv items h" and pos: "0 < unat (dial_negotiated h)"
  shows "\<exists>h'. inject_dial_upgrade_error e info err h = Some h' \<and> handler_inv items h' \<and>
           unat (dial_negotiated h) - 1 \<le> unat (dial_negotiated h')"
proof -
  have lt: "outbound_io_error_retries h < 3" using inv by (simp add: handler_inv_def core_inv_def)
  then have add: "rust_add e (outbound_io_error_retries h) 1 = Some (outbound_io_error_retries h + 1)"
    by (simp add: rust_add_def word_less_nat_alt)
  have retry: "handler_inv items (h\<lparr> outbound_io_error_retries := r \<rparr>)" if "r < 3" for r
    using inv that by (simp add: handler_inv_def core_inv_def idle_def)
  have same: "h\<lparr> outbound_io_error_retries := outbound_io_error_retries h \<rparr> = h" by simp
  from dial_failed_ok [OF retry [OF lt] pos] have failed: "\<exists>h'. dial_failed e info err (h\<lparr> outbound_io_error_retries := r' \<rparr>) = Some h' \<and>
      handler_inv items h' \<and> unat (dial_negotiated h) - 1 \<le> unat (dial_negotiated h')" for r'
    by (metis order_refl)
  show ?thesis
    using failed [of "outbound_io_error_retries h"] failed [of "outbound_io_error_retries h + 1"]
      send_request_inv [OF retry, of "outbound_io_error_retries h + 1" e "fst info" "snd info"]
    by (simp add: inject_dial_upgrade_error_def add IO_ERROR_RETRIES_def Let_def)
qed

lemma handler_step_ok:
  assumes "machine_inv items m"
  shows "\<exists>out m'. handler_step S dq c m = Some (out, m') \<and> machine_inv items m'"
proof -
  obtain h outs where m: "m = (h, outs)" by (cases m)
  with assms have inv: "handler_inv items h" and le: "length outs \<le> unat (dial_negotiated h)"
    by (simp_all add: machine_inv_def)
  have steady: "machine_inv items (h', outs)" if "handler_inv items h'" "steady h h'" for h'
    using that le by (simp add: machine_inv_def steady_def)
  show ?thesis
  proof (cases c)
    case (HcInbound e req s)
    from inject_inbound_inv [OF inv, of e req s] le show ?thesis by (auto simp: HcInbound m machine_inv_def)
  next
    case (HcOutbound e s n)
    obtain rid req where rq: "outs ! n = (rid, req)" by (cases "outs ! n")
    from inject_outbound_ok [OF inv, of e s rid req] le show ?thesis
      using inv by (force simp: HcOutbound m rq machine_inv_def)
  next
    case (HcDialError e err n)
    from inject_dial_upgrade_error_ok [OF inv, of e "outs ! n" err] le show ?thesis
      using inv by (force simp: HcDialError m machine_inv_def)
  next
    case (HcEvent e ev)
    show ?thesis
    proof (cases ev)
      case (SendRequest rid req)
      with inv le show ?thesis by (simp add: HcEvent m inject_event_def machine_inv_def send_request_inv)
    next
      case (SendResponse rid response)
      from send_response_ok [OF inv, of rid response] steady show ?thesis
        by (auto simp: HcEvent m inject_event_def SendResponse)
    qed
  next
    case (HcPoll e)
    from handler_poll_ok [OF inv, of e] obtain r h' where r: "handler_poll S dq e h = Some (r, h')" "handler_inv items h'"
      "poll_effect r h h'" by blast
    show ?thesis
    proof (cases "\<exists>info. r = Ready (HOutboundSubstreamRequest info)")
      case True
      then obtain info where info: "r = Ready (HOutboundSubstreamRequest info)" ..
      with r(3) have "unat (dial_negotiated h') = Suc (unat (dial_negotiated h))"
        by (simp add: dialed_def word_less_nat_alt unat_word_ariths)
      with r info le show ?thesis by (simp add: HcPoll m machine_inv_def)
    next
      case False
      with r(3) have "dial_negotiated h' = dial_negotiated h" by (cases "(r, h, h')" rule: poll_effect.cases) (auto simp: answers_def)
      with r le show ?thesis using False
        by (auto simp: HcPoll m machine_inv_def split: poll.split handler_event.split)
    qed
  qed (use inv le in \<open>simp add: m machine_inv_def shutdown_inv\<close>)
qed

end

sublocale handler_env \<subseteq> hm: op_machine "handler_step S dq" "machine_inv items" "\<lambda>_. True"
  by unfold_locales (rule handler_step_ok)

section \<open>No request is lost\<close>

definition queued :: "request_id \<Rightarrow> (request_id \<times> rpc_request) list \<Rightarrow> nat" where
  "queued i xs = length (filter (\<lambda>(rid, req). rid = i \<and> 0 < expected_responses req) xs)"

definition owed :: "request_id \<Rightarrow> ('q, 'si, 'so) handler_machine \<Rightarrow> nat" where
  "owed i m = queued i (dial_queue (fst m)) + queued i (snd m) + reports (fst m) i"

fun submitted :: "request_id \<Rightarrow> ('si, 'so) handler_call \<Rightarrow> nat" where
  "submitted i (HcEvent e (SendRequest rid req)) = queued i [(rid, req)]"
| "submitted i _ = 0"

definition reported :: "request_id \<Rightarrow> handler_event list \<Rightarrow> nat" where
  "reported i evs = sum_list (map (\<lambda>ev. outcome ev i) evs)"

lemma reported_Nil [simp]: "reported i [] = 0"
  by (simp add: reported_def)

lemma queued_append [simp]: "queued i (xs @ ys) = queued i xs + queued i ys"
  by (simp add: queued_def)

lemma queued_Nil [simp]: "queued i [] = 0"
  by (simp add: queued_def)

lemma queued_Cons: "queued i (x # xs) = queued i [x] + queued i xs"
  by (simp add: queued_def)

lemma queued_without: "n < length xs \<Longrightarrow> queued i (without n xs) + queued i [xs ! n] = queued i xs"
proof -
  assume n: "n < length xs"
  have "queued i xs = queued i (take n xs @ xs ! n # drop (Suc n) xs)"
    using n by (simp add: id_take_nth_drop [symmetric])
  then show ?thesis by (simp add: without_def queued_Cons [of i "xs ! n" "drop (Suc n) xs"])
qed

lemma queued_le_1: "queued i [x] \<le> (if fst x = i then 1 else 0)"
  by (simp add: queued_def split: prod.split)

lemma reports_error: "reports_of m (errs @ [OutboundErr rid proto err]) i = reports_of m errs i + (if rid = i then 1 else 0)"
  by (simp add: reports_of_def)

lemma reports_errors:
  "reports_of m errs i + queued i xs \<le>
   reports_of m (errs @ map (\<lambda>(rid, req). OutboundErr rid (req_protocol req) err) (rev xs)) i"
  by (induction xs) (auto simp: reports_of_def queued_def)

context handler_env
begin

lemma shutdown_owed: "owed i (h, outs) \<le> owed i (shutdown e final_msg h, outs)"
  using reports_errors [of "outbound_substreams h" "pending_errors h" i "dial_queue h" HandlerRejected]
  by (auto simp: shutdown_def owed_def split: option.split)

lemma send_request_owed: "owed i (h, outs) + queued i [(rid, req)] \<le> owed i (send_request e rid req h, outs)"
  using queued_le_1 [of i "(rid, req)"]
  by (auto simp: send_request_def owed_def push_error_def reports_error split: handler_state.split)

lemma inject_outbound_owed:
  assumes inv: "handler_inv items h" and inj: "inject_fully_negotiated_outbound dq e s (rid, req) h = Some h'"
  shows "owed i (h, outs) + queued i [(rid, req)] \<le> owed i (h', outs)"
proof -
  have "hm_get (outbound_substreams h) (current_outbound_substream_id h) = None"
    using out_okD(2) [OF handler_inv_core [OF inv, unfolded core_inv_def, THEN conjunct2, THEN conjunct1]]
    by (metis less_irrefl option.exhaust)
  then have "reports_of (hm_insert (current_outbound_substream_id h) info (outbound_substreams h)) errs i =
      reports_of (outbound_substreams h) errs i + (if awaits i info then 1 else 0)" for info errs
    using count_if_insert [of "awaits i" "current_outbound_substream_id h" info "outbound_substreams h"]
    by (simp add: reports_of_def)
  then show ?thesis
    using inj queued_le_1 [of i "(rid, req)"]
    by (auto simp: inject_fully_negotiated_outbound_def Let_def owed_def push_error_def reports_error queued_def
        split: option.splits if_splits prod.splits)
qed

lemma dial_failed_owed:
  "dial_failed e info err h = Some h' \<Longrightarrow> owed i (h, outs) + queued i [info] \<le> owed i (h', outs)"
  using queued_le_1 [of i info]
  by (auto simp: dial_failed_def owed_def push_error_def reports_error split: option.splits)

lemma inject_dial_upgrade_error_owed:
  assumes "inject_dial_upgrade_error e info err h = Some h'"
  shows "owed i (h, outs) + queued i [info] \<le> owed i (h', outs)"
proof -
  have same: "owed i (h\<lparr> outbound_io_error_retries := r \<rparr>, outs) = owed i (h, outs)" for r
    by (simp add: owed_def)
  show ?thesis
    using assms send_request_owed [of i "h\<lparr> outbound_io_error_retries := _ \<rparr>" outs "fst info" "snd info" e]
      dial_failed_owed [of e info err _ h' i outs]
    by (force simp: inject_dial_upgrade_error_def Let_def same split: if_splits option.splits)
qed

lemma poll_owed:
  assumes "handler_inv items h" "handler_step S dq (HcPoll e) (h, outs) = Some (out, m')"
  shows "owed i (h, outs) \<le> owed i m' + reported i out"
proof -
  from handler_poll_ok [OF assms(1), of e] obtain r h' where r: "handler_poll S dq e h = Some (r, h')" "poll_effect r h h'"
    by blast
  from r(2) show ?thesis
    using assms(2) r(1)
    by (cases "(r, h, h')" rule: poll_effect.cases)
      (auto simp: owed_def reported_def dialed_def answers_def queued_Cons [of i _ "dial_queue h'"] add.commute)
qed

lemma send_response_owed:
  assumes "handler_inv items h" "send_response rid response h = Some h'"
  shows "owed i (h, outs) \<le> owed i (h', outs)"
  using send_response_ok [OF assms(1), of rid response] assms(2) by (auto simp: owed_def steady_def)

lemma inject_inbound_owed:
  "inject_fully_negotiated_inbound dq e substream h = Some h' \<Longrightarrow> owed i (h', outs) = owed i (h, outs)"
  by (auto simp: inject_fully_negotiated_inbound_def Let_def owed_def split: prod.splits if_splits)

lemma handler_step_owed:
  assumes inv: "machine_inv items m" and step: "handler_step S dq c m = Some (out, m')"
  shows "owed i m + submitted i c \<le> owed i m' + reported i out"
proof -
  obtain h outs where m: "m = (h, outs)" by (cases m)
  with inv have h: "handler_inv items h" by (simp add: machine_inv_def)
  have gone: "owed i (h, outs) = owed i (h, without n outs) + queued i [outs ! n]" if "n < length outs" for n
    using queued_without [OF that, of i] by (simp add: owed_def)
  show ?thesis
  proof (cases c)
    case (HcOutbound e s n)
    obtain rid req where rq: "outs ! n = (rid, req)" by (cases "outs ! n")
    show ?thesis
    proof (cases "n < length outs")
      case True
      then show ?thesis
        using step HcOutbound m rq gone [OF True] inject_outbound_owed [OF h, of e s rid req _ i "without n outs"] by auto
    qed (use step HcOutbound m in simp)
  next
    case (HcDialError e err n)
    then show ?thesis
      using step m gone [of n] inject_dial_upgrade_error_owed [of e "outs ! n" err h _ i "without n outs"]
      by (auto split: if_splits)
  next
    case (HcEvent e ev)
    then show ?thesis
      using step m send_request_owed [of i h outs] send_response_owed [OF h, of _ _ _ i outs]
      by (cases ev) (auto simp: inject_event_def)
  next
    case (HcPoll e)
    with step m poll_owed [OF h, of e outs out m' i] show ?thesis by simp
  qed (use step m shutdown_owed [of i h outs] in \<open>auto simp: inject_inbound_owed\<close>)
qed

lemma machine_start_inv: "machine_inv items (handler_new dq timeout, [])"
  by (simp add: machine_inv_def handler_new_inv)

lemma run_owed:
  assumes "machine_inv items m0" and "run_calls (handler_step S dq) cs m0 = Some (evs, m)"
  shows "owed i m0 + sum_list (map (submitted i) cs) \<le> owed i m + sum_list (map (reported i) evs)"
  by (rule hm.run_conserves [where f = "owed i" and a = "submitted i" and b = "reported i", OF handler_step_owed])
    (simp_all add: list_all_iff assms)

end

section \<open>Reference streams\<close>

text \<open>
  An inbound stream that is always ready and records what it is given; an outbound stream that
  delivers a script. With the list queue they are an instance of the environment of the handler.
\<close>

fun script_next :: "(rpc_error + rpc_coded_response) list \<Rightarrow>
   (rpc_error + rpc_coded_response) option poll \<times> (rpc_error + rpc_coded_response) list" where
  "script_next [] = (Pending, [])"
| "script_next (x # xs) = (Ready (Some x), xs)"

definition ref_streams :: "(rpc_coded_response list, (rpc_error + rpc_coded_response) list) stream_ops" where
  "ref_streams =
     \<lparr> in_poll_ready = (\<lambda>s. (Ready (Inr ()), s)), in_start_send = (\<lambda>r s. (Inr (), s @ [r])),
       in_poll_flush = (\<lambda>s. (Ready (Inr ()), s)), in_poll_close = (\<lambda>s. (Ready (Inr ()), s)),
       out_poll_next = script_next, out_poll_close = (\<lambda>s. (Ready (Inr ()), s)) \<rparr>"

interpretation ref_handler: handler_env lq_ops map_of ref_streams
  by unfold_locales

end
