(* ===== verification/Rpc_Behaviour.thy ===== *)
theory Rpc_Behaviour
  imports Peer_Info Rpc_Handler
begin

text \<open>
  \<open>core/network/src/rpc/mod.rs\<close>: the RPC part of the network behaviour, a queue of actions for the
  swarm: events for the handlers of connections, and messages that came from them.
  \<open>nb_action\<close> is libp2p's \<open>NetworkBehaviourAction\<close>.
\<close>

type_synonym conn_id = nat

datatype notify_handler = NotifyOne conn_id | NotifyAny | NotifyAll

datatype dial_condition = CondDisconnected | CondNotDialing

datatype ('i, 'o) nb_action =
    GenerateEvent 'o
  | DialAddress multiaddr
  | DialPeer peer_id dial_condition
  | NotifyHandler peer_id notify_handler 'i
  | ReportObservedAddr multiaddr

record rpc_message =
  rm_peer_id :: peer_id
  rm_conn_id :: conn_id
  rm_event :: "handler_err + rpc_received"

record rpc_behaviour =
  rpc_events :: "(rpc_send, rpc_message) nb_action list"

fun show_request_id :: "request_id \<Rightarrow> string" where
  "show_request_id Router = ''Router''"
| "show_request_id (Sync n) = ''Sync('' @ show_nat n @ '')''"
| "show_request_id Behaviour = ''Behaviour''"

text \<open>The derived \<open>Debug\<close> of \<open>SubstreamId(usize)\<close> prints the constructor.\<close>

fun show_rpc_send :: "rpc_send \<Rightarrow> string" where
  "show_rpc_send (SendRequest rid req) = ''RPC Request(id: '' @ show_request_id rid @ '', '' @ show_request req @ '')''"
| "show_rpc_send (SendResponse sid res) =
     ''RPC Response(id: SubstreamId('' @ show_nat sid @ ''), '' @ show_coded_response res @ '')''"

definition rpc_new :: rpc_behaviour where
  "rpc_new = \<lparr> rpc_events = [] \<rparr>"

definition rpc_push :: "(rpc_send, rpc_message) nb_action \<Rightarrow> rpc_behaviour \<Rightarrow> rpc_behaviour" where
  "rpc_push a r = r\<lparr> rpc_events := rpc_events r @ [a] \<rparr>"

definition rpc_send_response ::
  "peer_id \<Rightarrow> conn_id \<times> substream_id \<Rightarrow> rpc_coded_response \<Rightarrow> rpc_behaviour \<Rightarrow> rpc_behaviour" where
  "rpc_send_response p rid response r =
     rpc_push (NotifyHandler p (NotifyOne (fst rid)) (SendResponse (snd rid) response)) r"

definition rpc_send_request :: "peer_id \<Rightarrow> request_id \<Rightarrow> rpc_request \<Rightarrow> rpc_behaviour \<Rightarrow> rpc_behaviour" where
  "rpc_send_request p rid req r = rpc_push (NotifyHandler p NotifyAny (SendRequest rid req)) r"

definition rpc_new_handler :: "('q, substream_id) delay_queue_ops \<Rightarrow> ('q, 'si, 'so) rpc_handler" where
  "rpc_new_handler dq = handler_new dq (from_secs 30)"

definition rpc_inject_connected :: "peer_id \<Rightarrow> rpc_behaviour \<Rightarrow> rpc_behaviour" where
  "rpc_inject_connected p r = rpc_push (NotifyHandler p NotifyAny (SendRequest Behaviour MetaDataRequest)) r"

definition rpc_inject_event :: "peer_id \<Rightarrow> conn_id \<Rightarrow> handler_err + rpc_received \<Rightarrow> rpc_behaviour \<Rightarrow> rpc_behaviour" where
  "rpc_inject_event p c ev r =
     rpc_push (GenerateEvent \<lparr> rm_peer_id = p, rm_conn_id = c, rm_event = ev \<rparr>) r"

definition rpc_poll :: "rpc_behaviour \<Rightarrow> (rpc_send, rpc_message) nb_action poll \<times> rpc_behaviour" where
  "rpc_poll r = (case rpc_events r of a # as \<Rightarrow> (Ready a, r\<lparr> rpc_events := as \<rparr>) | [] \<Rightarrow> (Pending, r))"

lemma rpc_events_push [simp]: "rpc_events (rpc_push a r) = rpc_events r @ [a]"
  by (simp add: rpc_push_def)

lemmas rpc_push_ops = rpc_send_response_def rpc_send_request_def rpc_inject_connected_def rpc_inject_event_def

end
