(* ===== verification/Handler_Answers.thy ===== *)
theory Handler_Answers
  imports Rpc_Handler
begin

text \<open>
  How an inbound substream is answered. \<open>multiple_responses\<close> holds of no successful response, so
  whichever response comes first is the last one of its substream: a substream that is sending or
  flushing is also closing, and one that is still idle has nothing queued and is watched by a timer.
  \<open>answers_ok\<close> says this of a handler, and every call keeps it.
\<close>

section \<open>The invariant\<close>

fun answer_ok :: "'si inbound_substream_state \<Rightarrow> dq_key option \<Rightarrow> rpc_coded_response list \<Rightarrow> bool" where
  "answer_ok (ResponseIdle s) key queue = (key \<noteq> None \<and> queue = [])"
| "answer_ok (ResponsePendingSend s message closing) key queue = closing"
| "answer_ok (ResponsePendingFlush s closing) key queue = closing"
| "answer_ok _ key queue = True"

definition queue_of :: "substream_id \<Rightarrow> ('q, 'si, 'so) rpc_handler \<Rightarrow> rpc_coded_response list" where
  "queue_of rid h = (case hm_get (queued_outbound_items h) rid of Some q \<Rightarrow> q | None \<Rightarrow> [])"

definition answers_ok :: "('q, 'si, 'so) rpc_handler \<Rightarrow> bool" where
  "answers_ok h \<longleftrightarrow>
     (\<forall>rid st key proto. hm_get (inbound_substreams h) rid = Some (st, key, proto) \<longrightarrow> answer_ok st key (queue_of rid h)) \<and>
     (\<forall>rid. hm_get (inbound_substreams h) rid \<noteq> None \<or> hm_get (queued_outbound_items h) rid \<noteq> None \<longrightarrow>
        rid < current_inbound_substream_id h)"

text \<open>The last answer is in hand: being sent, being flushed, or the substream is being closed.\<close>

fun last_answer :: "'si inbound_substream_state \<Rightarrow> bool" where
  "last_answer (ResponsePendingSend s message closing) = closing"
| "last_answer (ResponsePendingFlush s closing) = closing"
| "last_answer (InClosing s) = True"
| "last_answer _ = False"

lemma answer_okD: "answers_ok h \<Longrightarrow> hm_get (inbound_substreams h) rid = Some (st, key, proto) \<Longrightarrow> answer_ok st key (queue_of rid h)"
  by (simp add: answers_ok_def)

lemma last_answer_ok: "last_answer st \<Longrightarrow> answer_ok st key queue"
  by (cases st) auto

lemma multiple_is_error: "multiple_responses response \<Longrightarrow> is_error response"
  by (cases response) (auto split: rpc_response.splits)

lemma queue_of_keep_alive [simp]: "queue_of rid (update_keep_alive e h) = queue_of rid h"
  by (simp add: queue_of_def)

lemma queue_of_push_error [simp]: "queue_of rid (push_error err h) = queue_of rid h"
  by (simp add: queue_of_def push_error_def)

lemma queue_of_set_state [simp]: "queue_of rid (set_inbound_state x st h) = queue_of rid h"
  by (simp add: queue_of_def set_inbound_state_def split: option.split)

text \<open>The invariant depends on three fields only.\<close>

lemma answers_ok_cong:
  assumes "inbound_substreams h' = inbound_substreams h" "queued_outbound_items h' = queued_outbound_items h"
    "current_inbound_substream_id h' = current_inbound_substream_id h"
  shows "answers_ok h' = answers_ok h"
  by (simp add: answers_ok_def queue_of_def assms)

lemma answers_ok_fields [simp]:
  "answers_ok (h\<lparr> pending_errors := errs \<rparr>) = answers_ok h"
  "answers_ok (h\<lparr> events_out := evs \<rparr>) = answers_ok h"
  "answers_ok (h\<lparr> dial_queue := reqs \<rparr>) = answers_ok h"
  "answers_ok (h\<lparr> dial_negotiated := n \<rparr>) = answers_ok h"
  "answers_ok (h\<lparr> inbound_substreams_delay := q \<rparr>) = answers_ok h"
  "answers_ok (h\<lparr> outbound_substreams := m \<rparr>) = answers_ok h"
  "answers_ok (h\<lparr> outbound_substreams_delay := q \<rparr>) = answers_ok h"
  "answers_ok (h\<lparr> current_outbound_substream_id := i \<rparr>) = answers_ok h"
  "answers_ok (h\<lparr> h_state := st \<rparr>) = answers_ok h"
  "answers_ok (h\<lparr> outbound_io_error_retries := r \<rparr>) = answers_ok h"
  by (simp_all add: answers_ok_def queue_of_def)

lemma answers_ok_keep_alive [simp]: "answers_ok (update_keep_alive e h) = answers_ok h"
  by (rule answers_ok_cong) simp_all

lemma answers_ok_push_error [simp]: "answers_ok (push_error err h) = answers_ok h"
  by (rule answers_ok_cong) (simp_all add: push_error_def)

lemma answers_ok_new: "answers_ok (handler_new dq timeout)"
  by (simp add: answers_ok_def handler_new_def)

lemma answers_ok_set:
  assumes "answers_ok h"
    and "\<And>st0 key proto. hm_get (inbound_substreams h) rid = Some (st0, key, proto) \<Longrightarrow> answer_ok st key (queue_of rid h)"
  shows "answers_ok (set_inbound_state rid st h)"
proof -
  have "queued_outbound_items (set_inbound_state rid st h) = queued_outbound_items h"
    "current_inbound_substream_id (set_inbound_state rid st h) = current_inbound_substream_id h"
    by (simp_all add: set_inbound_state_def split: option.split)
  with assms show ?thesis
    by (auto simp: answers_ok_def map_of_set_inbound_state split: if_splits option.splits)
qed

lemma answers_ok_set_last: "answers_ok h \<Longrightarrow> last_answer st \<Longrightarrow> answers_ok (set_inbound_state rid st h)"
  by (rule answers_ok_set) (auto simp: last_answer_ok)

lemma answers_ok_drop:
  "answers_ok h \<Longrightarrow> answers_ok (h\<lparr> inbound_substreams := hm_remove rid (inbound_substreams h) \<rparr>)"
  "answers_ok h \<Longrightarrow> answers_ok (h\<lparr> inbound_substreams_delay := q, queued_outbound_items := hm_remove rid (queued_outbound_items h),
     inbound_substreams := hm_remove rid (inbound_substreams h) \<rparr>)"
  by (auto simp: answers_ok_def queue_of_def split: if_splits)

section \<open>The calls other than poll\<close>

text \<open>The errors that \<open>report_error_response\<close> adds.\<close>

definition error_report :: "substream_id \<Rightarrow> protocol \<Rightarrow> rpc_coded_response \<Rightarrow> handler_err list" where
  "error_report rid proto response =
     (case response of
        Success _ \<Rightarrow> []
      | InvalidRequest reason \<Rightarrow> [InboundErr rid proto (ErrorResponse InvalidRequestCode (error_type_to_string reason))]
      | ServerError reason \<Rightarrow> [InboundErr rid proto (ErrorResponse ServerErrorCode (error_type_to_string reason))]
      | UnknownResponse reason \<Rightarrow> [InboundErr rid proto (ErrorResponse UnknownCode (error_type_to_string reason))])"

lemma report_error_response_eq:
  "report_error_response rid proto response h =
   Some (h\<lparr> pending_errors := pending_errors h @ error_report rid proto response \<rparr>)"
  by (cases response) (simp_all add: report_error_response_def error_report_def push_error_def)

lemma first_response_closes: "\<not> multiple_responses response \<or> is_error response"
  using multiple_is_error by blast

lemma send_response_answers:
  assumes ok: "answers_ok h" and send: "send_response rid response h = Some h'"
  shows "answers_ok h'"
proof (cases "hm_get (inbound_substreams h) rid")
  case None
  with send ok show ?thesis by (simp add: send_response_def)
next
  case (Some entry)
  obtain st key proto where entry: "entry = (st, key, proto)" by (cases entry)
  define h1 where "h1 = h\<lparr> pending_errors := pending_errors h @ error_report rid proto response \<rparr>"
  have ok1: "answers_ok h1" using ok by (simp add: h1_def)
  have closing: "answer_ok st key (queue_of rid h)" using answer_okD [OF ok] Some entry by simp
  have queue: "answers_ok (queue_response rid response h1)" if "\<And>s. st \<noteq> ResponseIdle s"
    using ok1 Some entry that
    by (auto simp: answers_ok_def queue_of_def queue_response_def h1_def split: if_splits)
      (metis answer_ok.simps(2-5) inbound_substream_state.exhaust)+
  have set: "answers_ok (set_inbound_state rid st' h1)" if "last_answer st'" for st'
    using ok1 that by (rule answers_ok_set_last)
  show ?thesis
    using send Some entry ok1 queue set closing first_response_closes [of response]
    by (cases st) (auto simp: send_response_def report_error_response_eq h1_def [symmetric] split: if_splits)
qed

lemma inject_inbound_answers:
  assumes ok: "answers_ok h" and inj: "inject_fully_negotiated_inbound dq e (req, s) h = Some h'"
  shows "answers_ok h'"
proof -
  have fresh: "queue_of (current_inbound_substream_id h) h = []"
    using ok unfolding answers_ok_def queue_of_def
    by (metis (no_types, lifting) less_irrefl option.simps(4))
  show ?thesis
    using ok inj fresh
    by (auto simp: inject_fully_negotiated_inbound_def Let_def answers_ok_def queue_of_def less_Suc_eq split: if_splits)
qed

lemma inject_outbound_answers:
  "answers_ok h \<Longrightarrow> inject_fully_negotiated_outbound dq e s info h = Some h' \<Longrightarrow> answers_ok h'"
  by (auto simp: inject_fully_negotiated_outbound_def Let_def
      split: option.splits if_splits prod.splits)

lemma send_request_answers: "answers_ok (send_request e rid req h) = answers_ok h"
  by (auto simp: send_request_def split: handler_state.split)

lemma inject_dial_error_answers:
  "answers_ok h \<Longrightarrow> inject_dial_upgrade_error e info err h = Some h' \<Longrightarrow> answers_ok h'"
  by (auto simp: inject_dial_upgrade_error_def dial_failed_def Let_def send_request_answers
      split: option.splits if_splits)

lemma shutdown_answers: "answers_ok (shutdown e final_msg h) = answers_ok h"
  by (simp add: shutdown_def)

section \<open>Poll\<close>

lemma expire_inbound_answers:
  assumes ok: "answers_ok h" and step: "expire_inbound rid h = Some h'"
  shows "answers_ok h' \<and> (\<forall>x. queue_of x h' = queue_of x h)"
proof (cases "hm_get (inbound_substreams h) rid")
  case None
  with step ok show ?thesis by (simp add: expire_inbound_def)
next
  case (Some entry)
  obtain st key proto where entry: "entry = (st, key, proto)" by (cases entry)
  have a: "answer_ok st key (queue_of rid h)" using answer_okD [OF ok] Some entry by simp
  from step Some entry obtain st' queue' where c: "inbound_close st (queue_of rid h) = Some (st', queue')"
    and h': "h' = (push_error (InboundErr rid proto StreamTimeout) h)
       \<lparr> inbound_substreams := hm_insert rid (st', None, proto) (inbound_substreams h),
         queued_outbound_items := hm_insert rid queue' (queued_outbound_items h) \<rparr>"
    by (auto simp: expire_inbound_def Let_def push_error_def queue_of_def split: option.splits)
  have st': "last_answer st' \<and> queue' = queue_of rid h" using a c by (cases st) auto
  have qs: "queue_of x h' = queue_of x h" for x using st' by (simp add: h' queue_of_def push_error_def)
  have "answers_ok h'" unfolding answers_ok_def qs
    using ok Some entry st' by (auto simp: h' answers_ok_def last_answer_ok push_error_def split: if_splits)
  with qs show ?thesis by simp
qed

text \<open>A predicate on the handler a phase leaves behind.\<close>

fun flow_all :: "('h \<Rightarrow> bool) \<Rightarrow> 'h flow \<Rightarrow> bool" where
  "flow_all P (Return ev h) = P h"
| "flow_all P (Continue h) = P h"

fun drive_all :: "('h \<Rightarrow> bool) \<Rightarrow> 'h drive \<Rightarrow> bool" where
  "drive_all P (Leave ev h) = P h"
| "drive_all P (Settled h) = P h"
| "drive_all P (Further h) = P h"

lemma flow_bind_all:
  assumes "flow_bind m f = Some r" and "\<And>r. m = Some r \<Longrightarrow> flow_all P r" and "\<And>h r. P h \<Longrightarrow> f h = Some r \<Longrightarrow> flow_all P r"
  shows "flow_all P r"
  using assms by (fastforce simp: flow_bind_def split: option.splits flow.splits)

lemma purge_inbound_answers:
  assumes "purge_inbound dq e h = Some r"
  shows "answers_ok h \<longrightarrow> flow_all (\<lambda>h'. answers_ok h' \<and> (\<forall>x. queue_of x h' = queue_of x h)) r"
proof (rule purge_inbound.raw_induct [OF _ assms], intro impI)
  fix purge dq e h r
  assume IH: "\<And>dq e h r. purge dq e h = Some r \<Longrightarrow>
      answers_ok h \<longrightarrow> flow_all (\<lambda>h'. answers_ok h' \<and> (\<forall>x. queue_of x h' = queue_of x h)) r"
    and body: "(case dq_poll dq (now e) (inbound_substreams_delay h) of
        (Ready (Some (Inr rid)), q) \<Rightarrow>
          (case expire_inbound rid (h\<lparr> inbound_substreams_delay := q \<rparr>) of
             None \<Rightarrow> None
           | Some h' \<Rightarrow> purge dq e h')
      | (Ready (Some (Inl _)), q) \<Rightarrow>
          Some (Return (HClose (InternalError ''Could not poll inbound stream timer'')) (h\<lparr> inbound_substreams_delay := q \<rparr>))
      | (Ready None, q) \<Rightarrow> Some (Continue (h\<lparr> inbound_substreams_delay := q \<rparr>))
      | (Pending, q) \<Rightarrow> Some (Continue (h\<lparr> inbound_substreams_delay := q \<rparr>))) = Some r"
    and ok: "answers_ok h"
  have q: "queue_of x (h\<lparr> inbound_substreams_delay := q \<rparr>) = queue_of x h" for x q by (simp add: queue_of_def)
  have more: "flow_all (\<lambda>h'. answers_ok h' \<and> (\<forall>x. queue_of x h' = queue_of x h)) r"
    if "expire_inbound rid (h\<lparr> inbound_substreams_delay := q' \<rparr>) = Some h'" "purge dq e h' = Some r" for rid q' h'
    using expire_inbound_answers [OF _ that(1)] IH [OF that(2)] ok q by simp
  show "flow_all (\<lambda>h'. answers_ok h' \<and> (\<forall>x. queue_of x h' = queue_of x h)) r"
    using body ok more by (auto simp: q split: prod.splits poll.splits option.splits sum.splits)
qed

lemma purge_outbound_answers:
  assumes "purge_outbound dq e h = Some r"
  shows "answers_ok h \<longrightarrow> flow_all answers_ok r"
proof (rule purge_outbound.raw_induct [OF _ assms], intro impI)
  fix purge dq e h r
  assume IH: "\<And>dq e h r. purge dq e h = Some r \<Longrightarrow> answers_ok h \<longrightarrow> flow_all answers_ok r"
    and body: "(case dq_poll dq (now e) (outbound_substreams_delay h) of
        (Ready (Some (Inr oid)), q) \<Rightarrow>
          (let h1 = h\<lparr> outbound_substreams_delay := q \<rparr>
           in (case hm_get (outbound_substreams h1) oid of
                 Some info \<Rightarrow>
                   Some (Return (HCustom (Inl (OutboundErr (oi_req_id info) (oi_proto info) StreamTimeout)))
                     (update_keep_alive e (h1\<lparr> outbound_substreams := hm_remove oid (outbound_substreams h1) \<rparr>)))
               | None \<Rightarrow> purge dq e h1))
      | (Ready (Some (Inl _)), q) \<Rightarrow>
          Some (Return (HClose (InternalError ''Could not poll outbound stream timer'')) (h\<lparr> outbound_substreams_delay := q \<rparr>))
      | (Ready None, q) \<Rightarrow> Some (Continue (h\<lparr> outbound_substreams_delay := q \<rparr>))
      | (Pending, q) \<Rightarrow> Some (Continue (h\<lparr> outbound_substreams_delay := q \<rparr>))) = Some r"
    and ok: "answers_ok h"
  show "flow_all answers_ok r"
    using body ok by (auto simp: Let_def dest!: IH split: prod.splits poll.splits option.splits sum.splits)
qed

lemma resume_idle_answers:
  assumes "answers_ok h" "hm_get (inbound_substreams h) rid = Some (ResponseIdle s0, key, proto)"
  shows "drive_all answers_ok (resume_inbound rid s h)"
proof -
  have q: "hm_get (queued_outbound_items h) rid = None \<or> hm_get (queued_outbound_items h) rid = Some []" "key \<noteq> None"
    using answer_okD [OF assms] by (auto simp: queue_of_def split: option.splits)
  then have "queue_of rid h = []" by (auto simp: queue_of_def)
  moreover have "answers_ok (h\<lparr> queued_outbound_items := hm_insert rid [] (queued_outbound_items h) \<rparr>)"
    using assms q by (auto simp: answers_ok_def queue_of_def split: if_splits option.splits)
  ultimately show ?thesis
    using q assms by (auto simp: resume_inbound_def queue_of_def intro!: answers_ok_set)
qed

lemma drop_inbound_answers: "answers_ok h \<Longrightarrow> drop_inbound dq e rid key h = Some r \<Longrightarrow> drive_all answers_ok r"
  by (auto simp: drop_inbound_def answers_ok_drop)

lemma drive_step_answers:
  assumes ok: "answers_ok h" and step: "drive_step S dq e d rid h = Some r"
  shows "drive_all answers_ok r"
proof -
  from step obtain st key proto where m: "hm_get (inbound_substreams h) rid = Some (st, key, proto)"
    by (auto simp: drive_step_def split: option.splits)
  note a = answer_okD [OF ok m]
  have set: "last_answer st' \<Longrightarrow> answers_ok (set_inbound_state rid st' h)" for st'
    using ok by (rule answers_ok_set_last)
  show ?thesis
  proof (cases st)
    case (ResponsePendingSend s message closing)
    then show ?thesis
      using step m a ok set by (auto simp: drive_step_def close_inbound_def drive_send_def answers_ok_drop
          split: prod.splits poll.splits sum.splits if_splits)
  next
    case (ResponsePendingFlush s closing)
    then show ?thesis
      using step m a set drop_inbound_answers [OF ok]
      by (auto simp: drive_step_def close_inbound_def split: prod.splits poll.splits sum.splits)
  next
    case (ResponseIdle s)
    then show ?thesis
      using step m set resume_idle_answers [OF ok] by (auto simp: drive_step_def)
  next
    case (InClosing s)
    then show ?thesis
      using step m set drop_inbound_answers [OF ok]
      by (auto simp: drive_step_def drive_closing_def split: prod.splits poll.splits)
  qed (use step m in \<open>simp add: drive_step_def\<close>)
qed

lemma drive_loop_answers:
  assumes "drive_loop S dq e d rid h = Some r"
  shows "answers_ok h \<longrightarrow> flow_all answers_ok r"
proof (rule drive_loop.raw_induct [OF _ assms], intro impI)
  fix loop S dq e d rid h r
  assume IH: "\<And>S dq e d rid h r. loop S dq e d rid h = Some r \<Longrightarrow> answers_ok h \<longrightarrow> flow_all answers_ok r"
    and body: "(case drive_step S dq e d rid h of
        None \<Rightarrow> None
      | Some (Leave ev h') \<Rightarrow> Some (Return ev h')
      | Some (Settled h') \<Rightarrow> Some (Continue h')
      | Some (Further h') \<Rightarrow> loop S dq e d rid h') = Some r"
    and ok: "answers_ok h"
  from body obtain dr where dr: "drive_step S dq e d rid h = Some dr" by (auto split: option.splits)
  from drive_step_answers [OF ok dr] body dr show "flow_all answers_ok r"
    by (cases dr) (auto dest: IH)
qed

lemma drive_inbound_answers:
  "answers_ok h \<Longrightarrow> drive_inbound S dq e d rids h = Some r \<Longrightarrow> flow_all answers_ok r"
proof (induction rids arbitrary: h r)
  case (Cons rid rids)
  show ?case
    by (rule flow_bind_all [OF Cons.prems(2) [unfolded drive_inbound.simps]])
      (use drive_loop_answers Cons in blast)+
qed auto

lemma drive_outbound_one_answers:
  "answers_ok h \<Longrightarrow> drive_outbound_one S dq e d oid h = Some r \<Longrightarrow> flow_all answers_ok r"
  by (auto simp: drive_outbound_one_def receive_response_def drop_outbound_def set_outbound_def Let_def
      split: option.splits outbound_substream_state.splits if_splits prod.splits poll.splits sum.splits)

lemma drive_outbound_answers:
  "answers_ok h \<Longrightarrow> drive_outbound S dq e d oids h = Some r \<Longrightarrow> flow_all answers_ok r"
proof (induction oids arbitrary: h r)
  case (Cons oid oids)
  show ?case
    by (rule flow_bind_all [OF Cons.prems(2) [unfolded drive_outbound.simps]])
      (use drive_outbound_one_answers Cons in blast)+
qed auto

lemma streams_phase_answers: "answers_ok h \<Longrightarrow> streams_phase S dq e h = Some r \<Longrightarrow> flow_all answers_ok r"
  unfolding streams_phase_def Let_def
  by (erule flow_bind_all) (blast intro: drive_inbound_answers drive_outbound_answers)+

lemma answer_ok_emptied: "answer_ok st key queue \<Longrightarrow> answer_ok st key []"
  by (cases st) auto

lemma shutdown_phase_answers:
  assumes "answers_ok h" "shutdown_phase e h = Some r"
  shows "flow_all answers_ok r"
proof -
  have "answers_ok (h\<lparr> queued_outbound_items := [] \<rparr>)"
    using assms(1) answer_ok_emptied by (fastforce simp: answers_ok_def queue_of_def)
  with assms show ?thesis
    by (auto simp: shutdown_phase_def answers_ok_def queue_of_def split: handler_state.splits)
qed

lemma report_phase_answers: "answers_ok h \<Longrightarrow> report_phase h = Some r \<Longrightarrow> flow_all answers_ok r"
  by (auto simp: report_phase_def split: list.splits)

lemma dial_phase_answers: "answers_ok h \<Longrightarrow> dial_phase e h = Some r \<Longrightarrow> flow_all answers_ok r"
  by (auto simp: dial_phase_def split: list.splits if_splits)

lemma purge_inbound_keeps: "answers_ok h \<Longrightarrow> purge_inbound dq e h = Some r \<Longrightarrow> flow_all answers_ok r"
  using purge_inbound_answers [of dq e h r] by (cases r) auto

lemma purge_outbound_keeps: "answers_ok h \<Longrightarrow> purge_outbound dq e h = Some r \<Longrightarrow> flow_all answers_ok r"
  using purge_outbound_answers by blast

lemmas phases_answers = report_phase_answers shutdown_phase_answers purge_inbound_keeps purge_outbound_keeps
  streams_phase_answers dial_phase_answers

lemma poll_answers:
  assumes ok: "answers_ok h" and poll: "handler_poll S dq e h = Some (p, h')"
  shows "answers_ok h'"
proof -
  from poll obtain r where r: "flow_bind (flow_bind (flow_bind (flow_bind (flow_bind (report_phase h)
          (shutdown_phase e)) (purge_inbound dq e)) (purge_outbound dq e)) (streams_phase S dq e)) (dial_phase e) = Some r"
    and h': "(case r of Return ev h' \<Rightarrow> (Ready ev, h') | Continue h' \<Rightarrow> (Pending, h')) = (p, h')"
    by (auto simp: handler_poll_def)
  note chain = flow_bind_all [where P = answers_ok]
  have "flow_all answers_ok r"
    by (rule chain [OF r], rule chain, assumption, rule chain, assumption, rule chain, assumption, rule chain, assumption)
      (erule (1) phases_answers | rule report_phase_answers [OF ok], assumption)+
  with h' show ?thesis by (cases r) auto
qed

lemma handler_step_answers:
  assumes ok: "answers_ok h" and step: "handler_step S dq c (h, outs) = Some (out, h', outs')"
  shows "answers_ok h'"
proof (cases c)
  case (HcEvent e ev)
  with ok step show ?thesis
    by (cases ev) (auto simp: inject_event_def send_request_answers intro: send_response_answers)
next
  case (HcPoll e)
  with step obtain p g where p: "handler_poll S dq e h = Some (p, g)" by auto
  with step HcPoll have "h' = g" by (cases p) (auto split: handler_event.splits)
  with poll_answers [OF ok p] show ?thesis by simp
qed (use ok step in \<open>auto simp: shutdown_answers split: if_splits
       intro: inject_inbound_answers inject_outbound_answers inject_dial_error_answers\<close>)

text \<open>In every state a handler can reach, the first response to a request is its last.\<close>

lemma run_answers:
  "answers_ok h \<Longrightarrow> run_calls (handler_step S dq) cs (h, outs) = Some (evs, h', outs') \<Longrightarrow> answers_ok h'"
proof (induction cs arbitrary: h outs evs)
  case (Cons c cs)
  then obtain out h1 outs1 evs1 where "handler_step S dq c (h, outs) = Some (out, h1, outs1)"
    and "run_calls (handler_step S dq) cs (h1, outs1) = Some (evs1, h', outs')"
    by (auto split: option.splits)
  with Cons.IH handler_step_answers [OF Cons.prems(1)] show ?case by blast
qed simp

lemmas reachable_answers = run_answers [OF answers_ok_new]

end
