(* ===== verification/Handler_Properties.thy ===== *)
theory Handler_Properties
  imports Handler_Answers "HOL-Library.Code_Target_Numeral"
begin

text \<open>
  What the handler of a connection guarantees, over runs of its machine: it never panics and always
  returns, dials at most eight substreams at a time, keeps every request until its outcome is
  reported, stops dialing when it is shut down, closes everything when it is deactivated, answers a
  request exactly once or times out. Two of the theorems are about defects: dial slots that are lost when a dial is retried, and
  a second outcome for a request whose substream is slow to close.
\<close>

section \<open>Dials of a run\<close>

fun dial_of :: "handler_event \<Rightarrow> (request_id \<times> rpc_request) list" where
  "dial_of (HOutboundSubstreamRequest info) = [info]"
| "dial_of _ = []"

definition dials1 :: "handler_event list \<Rightarrow> (request_id \<times> rpc_request) list" where
  "dials1 out = concat (map dial_of out)"

definition dials :: "handler_event list list \<Rightarrow> (request_id \<times> rpc_request) list" where
  "dials evs = concat (map dials1 evs)"

lemma dials_simps [simp]:
  "dials [] = []" "dials (out # evs) = dials1 out @ dials evs" "dials1 [] = []" "dials1 [ev] = dial_of ev"
  by (simp_all add: dials_def dials1_def)

context handler_env
begin

lemma send_response_steady: "handler_inv items h \<Longrightarrow> send_response rid response h = Some h' \<Longrightarrow> steady h h'"
  using send_response_ok [of h rid response] by auto

lemma poll_dials:
  assumes "handler_inv items h" and step: "handler_step S dq (HcPoll e) (h, outs) = Some (out, h', outs')"
  shows "dials1 out @ dial_queue h' = dial_queue h \<and> outs' = outs @ dials1 out \<and>
         (h_state h' = h_state h \<or> h_state h \<noteq> HActive \<and> h_state h' = HDeactivated) \<and>
         (out = [] \<or> (\<exists>ev. out = [ev])) \<and>
         (dials1 out = [] \<longrightarrow> dial_negotiated h' = dial_negotiated h) \<and> (dials1 out \<noteq> [] \<longrightarrow> dial_negotiated h < 8)"
proof -
  from handler_poll_ok [OF assms(1), of e] obtain r h1 where r: "handler_poll S dq e h = Some (r, h1)" "poll_effect r h h1"
    by blast
  with step show ?thesis
    by (cases "(r, h, h1)" rule: poll_effect.cases) (auto simp: dialed_def answers_def)
qed

text \<open>Once the handler has left the active state its dial queue only shrinks.\<close>

lemma inactive_step:
  assumes inv: "machine_inv items (h, outs)" and off: "h_state h \<noteq> HActive"
    and step: "handler_step S dq c (h, outs) = Some (out, h', outs')"
  shows "h_state h' \<noteq> HActive \<and> dials1 out @ dial_queue h' = dial_queue h"
proof (cases c)
  case (HcOutbound e s n)
  then show ?thesis
    using step off
    by (auto simp: inject_fully_negotiated_outbound_def Let_def split: if_splits option.splits prod.splits)
next
  case (HcDialError e err n)
  then show ?thesis
    using step off
    by (auto simp: inject_dial_upgrade_error_def dial_failed_def Let_def send_request_def
        split: if_splits option.splits handler_state.splits)
next
  case (HcEvent e ev)
  then show ?thesis
    using step off inv send_response_steady [of h _ _ h']
    by (cases ev) (auto simp: inject_event_def send_request_def machine_inv_def steady_def split: handler_state.splits)
next
  case (HcPoll e)
  with poll_dials [of h e outs out h' outs'] inv off step show ?thesis by (auto simp: machine_inv_def)
qed (use step off in \<open>auto simp: shutdown_def inject_fully_negotiated_inbound_def split: if_splits\<close>)

lemma inactive_run:
  "machine_inv items (h, outs) \<Longrightarrow> h_state h \<noteq> HActive \<Longrightarrow>
   run_calls (handler_step S dq) cs (h, outs) = Some (evs, h', outs') \<Longrightarrow>
   h_state h' \<noteq> HActive \<and> dials evs @ dial_queue h' = dial_queue h"
proof (induction cs arbitrary: h outs evs)
  case (Cons c cs)
  then obtain out h1 outs1 evs1 where step: "handler_step S dq c (h, outs) = Some (out, h1, outs1)"
    and rest: "run_calls (handler_step S dq) cs (h1, outs1) = Some (evs1, h', outs')" and evs: "evs = out # evs1"
    by (auto split: option.splits)
  from handler_step_ok [OF Cons.prems(1), of c] step have "machine_inv items (h1, outs1)" by auto
  with Cons.IH [OF this _ rest] inactive_step [OF Cons.prems(1,2) step] evs show ?case by auto
qed simp

text \<open>With all slots taken and nothing outstanding, nothing is dialed any more.\<close>

lemma stuck_step:
  assumes inv: "machine_inv items (h, [])" and full: "dial_negotiated h = 8"
    and step: "handler_step S dq c (h, []) = Some (out, h', outs')"
  shows "dials1 out = [] \<and> outs' = [] \<and> dial_negotiated h' = 8"
proof (cases c)
  case (HcEvent e ev)
  then show ?thesis
    using step full inv send_response_steady [of h _ _ h']
    by (cases ev) (auto simp: inject_event_def machine_inv_def steady_def)
next
  case (HcPoll e)
  with poll_dials [of h e "[]" out h' outs'] inv full step show ?thesis by (auto simp: machine_inv_def)
qed (use step full in \<open>auto dest: inject_inbound_dials\<close>)

lemma stuck_run:
  "machine_inv items (h, []) \<Longrightarrow> dial_negotiated h = 8 \<Longrightarrow>
   run_calls (handler_step S dq) cs (h, []) = Some (evs, h', outs') \<Longrightarrow>
   dials evs = [] \<and> outs' = [] \<and> dial_negotiated h' = 8"
proof (induction cs arbitrary: h evs)
  case (Cons c cs)
  then obtain out h1 outs1 evs1 where step: "handler_step S dq c (h, []) = Some (out, h1, outs1)"
    and rest: "run_calls (handler_step S dq) cs (h1, outs1) = Some (evs1, h', outs')" and evs: "evs = out # evs1"
    by (auto split: option.splits)
  from stuck_step [OF Cons.prems(1,2) step] have s: "dials1 out = []" "outs1 = []" "dial_negotiated h1 = 8" by auto
  from handler_step_ok [OF Cons.prems(1), of c] step s have "machine_inv items (h1, [])" by auto
  from Cons.IH [OF this s(3) rest [unfolded s]] s evs show ?case by auto
qed simp

end

section \<open>Driving a substream\<close>

text \<open>A sink that takes everything at once: \<open>put\<close> is what it does with a message.\<close>

definition ready_sink :: "('si, 'so) stream_ops \<Rightarrow> (rpc_coded_response \<Rightarrow> 'si \<Rightarrow> 'si) \<Rightarrow> bool" where
  "ready_sink S put \<longleftrightarrow> (\<forall>s r. in_poll_ready S s = (Ready (Inr ()), s) \<and> in_start_send S r s = (Inr (), put r s) \<and>
     in_poll_flush S s = (Ready (Inr ()), s))"

lemma drive_loop_further:
  "drive_step S dq e d rid h = Some (Further h') \<Longrightarrow> drive_loop S dq e d rid h = drive_loop S dq e d rid h'"
  by (subst drive_loop.simps) simp

lemma drive_loop_settled:
  "drive_step S dq e d rid h = Some (Settled h') \<Longrightarrow> drive_loop S dq e d rid h = Some (Continue h')"
  by (subst drive_loop.simps) simp

text \<open>A message after which the stream is to be closed: it is sent and flushed, then the stream is
  closed, which may take longer than this round.\<close>

lemma drive_sends_then_closes:
  assumes sink: "ready_sink S put" and m: "hm_get (inbound_substreams h) rid = Some (ResponsePendingSend s msg True, key, proto)"
  shows "drive_loop S dq e False rid h =
     drive_loop S dq e False rid (set_inbound_state rid (InClosing (put msg s))
       (set_inbound_state rid (ResponsePendingFlush (put msg s) True) h))"
proof -
  define h1 where "h1 = set_inbound_state rid (ResponsePendingFlush (put msg s) True) h"
  have "drive_step S dq e False rid h = Some (Further h1)"
    using m sink by (simp add: drive_step_def drive_send_def ready_sink_def h1_def)
  moreover have "drive_step S dq e False rid h1 = Some (Further (set_inbound_state rid (InClosing (put msg s)) h1))"
    using m sink by (simp add: drive_step_def close_inbound_def ready_sink_def h1_def map_of_set_inbound_state)
  ultimately show ?thesis by (simp add: drive_loop_further h1_def)
qed

lemma drive_sends_and_closes:
  assumes sink: "ready_sink S put" and m: "hm_get (inbound_substreams h) rid = Some (ResponsePendingSend s msg True, Some k, proto)"
    and timer: "dq_remove dq k (inbound_substreams_delay h) = Some q"
  shows "\<exists>h'. drive_loop S dq e False rid h = Some (Continue h') \<and>
           (case in_poll_close S (put msg s) of
              (Ready _, _) \<Rightarrow> hm_get (inbound_substreams h') rid = None \<and> queue_of rid h' = [] \<and> inbound_substreams_delay h' = q
            | (Pending, s') \<Rightarrow> hm_get (inbound_substreams h') rid = Some (InClosing s', Some k, proto)) \<and>
           (\<forall>x. x \<noteq> rid \<longrightarrow> hm_get (inbound_substreams h') x = hm_get (inbound_substreams h) x) \<and>
           pending_errors h' = pending_errors h"
proof -
  define h2 where "h2 = set_inbound_state rid (InClosing (put msg s)) (set_inbound_state rid (ResponsePendingFlush (put msg s) True) h)"
  have h2: "hm_get (inbound_substreams h2) x = (if x = rid then Some (InClosing (put msg s), Some k, proto) else hm_get (inbound_substreams h) x)"
    "inbound_substreams_delay h2 = inbound_substreams_delay h" "pending_errors h2 = pending_errors h" for x
    using m by (simp_all add: h2_def map_of_set_inbound_state)
  obtain c s' where c: "in_poll_close S (put msg s) = (c, s')" by force
  obtain h3 where "drive_step S dq e False rid h2 = Some (Settled h3)" and
    h3: "case c of Ready _ \<Rightarrow> hm_get (inbound_substreams h3) rid = None \<and> queue_of rid h3 = [] \<and> inbound_substreams_delay h3 = q
         | Pending \<Rightarrow> hm_get (inbound_substreams h3) rid = Some (InClosing s', Some k, proto)"
      "\<forall>x. x \<noteq> rid \<longrightarrow> hm_get (inbound_substreams h3) x = hm_get (inbound_substreams h) x" "pending_errors h3 = pending_errors h"
    using h2 c timer
    by (cases c) (auto simp: drive_step_def drive_closing_def drop_inbound_def map_of_set_inbound_state queue_of_def)
  with c show ?thesis
    unfolding drive_sends_then_closes [OF sink m] h2_def [symmetric]
    by (auto simp: drive_loop_settled split: poll.splits)
qed

text \<open>Responses that follow the first one are reported when they are errors, and change nothing else
  about the substream.\<close>

lemma later_responses:
  assumes "hm_get (inbound_substreams h) rid = Some (ResponsePendingSend s r True, key, proto)" and "h_state h \<noteq> HDeactivated"
  shows "\<exists>h1. run_calls (handler_step S dq) (map (\<lambda>r. HcEvent e (SendResponse rid r)) rs) (h, outs) =
             Some (replicate (length rs) [], h1, outs) \<and>
           (\<forall>x. hm_get (inbound_substreams h1) x = hm_get (inbound_substreams h) x) \<and>
           inbound_substreams_delay h1 = inbound_substreams_delay h \<and>
           pending_errors h1 = pending_errors h @ concat (map (error_report rid proto) rs)"
  using assms
proof (induction rs arbitrary: h)
  case (Cons r' rs)
  define h0 where "h0 = h\<lparr> pending_errors := pending_errors h @ error_report rid proto r' \<rparr>"
  define h1 where "h1 = (if multiple_responses r' then queue_response rid r' h0
      else set_inbound_state rid (ResponsePendingSend s r True) h0)"
  have send: "send_response rid r' h = Some h1"
    using Cons.prems by (simp add: send_response_def report_error_response_eq h1_def h0_def)
  have h1: "hm_get (inbound_substreams h1) x = hm_get (inbound_substreams h) x" "h_state h1 = h_state h"
    "inbound_substreams_delay h1 = inbound_substreams_delay h"
    "pending_errors h1 = pending_errors h @ error_report rid proto r'" for x
    using Cons.prems by (simp_all add: h1_def h0_def queue_response_def map_of_set_inbound_state)
  from Cons.IH [of h1] Cons.prems obtain h2 where
    "run_calls (handler_step S dq) (map (\<lambda>r. HcEvent e (SendResponse rid r)) rs) (h1, outs) = Some (replicate (length rs) [], h2, outs)"
    "\<forall>x. hm_get (inbound_substreams h2) x = hm_get (inbound_substreams h1) x"
    "inbound_substreams_delay h2 = inbound_substreams_delay h1"
    "pending_errors h2 = pending_errors h1 @ concat (map (error_report rid proto) rs)"
    unfolding h1 by blast
  with h1 send show ?case by (auto simp: inject_event_def)
qed simp

lemma first_response:
  assumes "hm_get (inbound_substreams h) rid = Some (ResponseIdle s, key, proto)" and "h_state h \<noteq> HDeactivated"
  shows "send_response rid r h = Some (set_inbound_state rid (ResponsePendingSend s r True)
           (h\<lparr> pending_errors := pending_errors h @ error_report rid proto r \<rparr>))"
  using assms first_response_closes [of r] by (auto simp: send_response_def report_error_response_eq)

section \<open>Deactivation\<close>

text \<open>A substream that is winding up; with \<open>answers_ok\<close> the message that is still being flushed is the
  last one (\<open>shut_in\<close>).\<close>

fun winding_up :: "'si inbound_substream_state \<Rightarrow> bool" where
  "winding_up (InClosing _) = True"
| "winding_up (ResponsePendingFlush _ _) = True"
| "winding_up _ = False"

fun shut_in :: "'si inbound_substream_state \<Rightarrow> bool" where
  "shut_in (InClosing _) = True"
| "shut_in (ResponsePendingFlush _ closing) = closing"
| "shut_in _ = False"

lemma shut_in_winding_up: "winding_up st \<Longrightarrow> answer_ok st key queue \<Longrightarrow> shut_in st"
  by (cases st) auto

fun shut_out :: "'so outbound_substream_state \<Rightarrow> bool" where
  "shut_out (OutClosing _) = True"
| "shut_out _ = False"

context handler_env
begin

definition others_kept :: "substream_id \<Rightarrow> ('q, 'si, 'so) rpc_handler \<Rightarrow> ('q, 'si, 'so) rpc_handler \<Rightarrow> bool" where
  "others_kept rid h h' \<longleftrightarrow> (\<forall>x. x \<noteq> rid \<longrightarrow> hm_get (inbound_substreams h') x = hm_get (inbound_substreams h) x)"

definition rid_shut :: "substream_id \<Rightarrow> ('q, 'si, 'so) rpc_handler \<Rightarrow> bool" where
  "rid_shut rid h \<longleftrightarrow> (\<forall>st rest. hm_get (inbound_substreams h) rid = Some (st, rest) \<longrightarrow> winding_up st)"

lemma drop_inbound_shut:
  "drop_inbound dq e rid key h = Some (Settled h') \<Longrightarrow> others_kept rid h h' \<and> rid_shut rid h'"
  by (auto simp: drop_inbound_def others_kept_def rid_shut_def)

lemma drop_inbound_settled: "drop_inbound dq e rid key h = Some r \<Longrightarrow> \<exists>h'. r = Settled h'"
  by (auto simp: drop_inbound_def)

lemma drive_step_deactivated:
  assumes "drive_step S dq e True rid h = Some r"
  shows "case r of Leave ev h' \<Rightarrow> False | Settled h' \<Rightarrow> others_kept rid h h' \<and> rid_shut rid h' | Further h' \<Rightarrow> others_kept rid h h'"
proof -
  from assms obtain st key proto where m: "hm_get (inbound_substreams h) rid = Some (st, key, proto)"
    by (auto simp: drive_step_def split: option.splits)
  have set: "others_kept rid h (set_inbound_state rid st' h)" "winding_up st' \<Longrightarrow> rid_shut rid (set_inbound_state rid st' h)" for st'
    using m by (auto simp: others_kept_def rid_shut_def map_of_set_inbound_state)
  have close: "others_kept rid h (set_inbound_state rid st' (push_error err h))" for st' err
    by (auto simp: others_kept_def map_of_set_inbound_state)
  from assms m show ?thesis
    using drop_inbound_settled [of e rid key h r] drop_inbound_shut [of e rid key h]
    by (cases st) (auto simp: drive_step_def drive_closing_def close_inbound_def set close
        split: prod.splits poll.splits sum.splits if_splits drive.split)
qed

lemma drive_loop_deactivated:
  "handler_inv items h \<Longrightarrow> rid \<in> in_keys h \<Longrightarrow>
   \<exists>h'. drive_loop S dq e True rid h = Some (Continue h') \<and> others_kept rid h h' \<and> rid_shut rid h' \<and> drive_ok items rid h h'"
proof (induction "drive_rank rid h" arbitrary: h rule: less_induct)
  case less
  from drive_step_ok [OF less.prems, of e True] obtain r where
    r: "drive_step S dq e True rid h = Some r" "drive_result items rid h r" by blast
  note deact = drive_step_deactivated [OF r(1)]
  show ?case
  proof (cases r)
    case (Further h1)
    with r have h1: "drive_ok items rid h h1" "rid \<in> in_keys h1" "drive_rank rid h1 < drive_rank rid h"
      by (auto simp: drive_result_def)
    then have "handler_inv items h1" by (simp add: drive_ok_def)
    from less.hyps [OF h1(3) this h1(2)] obtain h' where
      h': "drive_loop S dq e True rid h1 = Some (Continue h')" "others_kept rid h1 h'" "rid_shut rid h'" "drive_ok items rid h1 h'"
      by blast
    moreover have "others_kept rid h h'" using deact h'(2) Further by (simp add: others_kept_def)
    ultimately show ?thesis
      using drive_ok_trans [OF h1(1) h'(4)] drive_loop_further [OF r(1) [unfolded Further]] by auto
  next
    case (Settled h1)
    with r deact show ?thesis by (auto simp: drive_loop_settled)
  qed (use deact in auto)
qed

lemma drive_inbound_deactivated:
  "handler_inv items h \<Longrightarrow> distinct rids \<Longrightarrow> set rids \<subseteq> in_keys h \<Longrightarrow>
   \<exists>h'. drive_inbound S dq e True rids h = Some (Continue h') \<and>
     (\<forall>x. x \<notin> set rids \<longrightarrow> hm_get (inbound_substreams h') x = hm_get (inbound_substreams h) x) \<and>
     (\<forall>x \<in> set rids. rid_shut x h')"
proof (induction rids arbitrary: h)
  case (Cons rid rids)
  from drive_loop_deactivated [OF Cons.prems(1), of rid e] Cons.prems obtain h1 where
    h1: "drive_loop S dq e True rid h = Some (Continue h1)" "others_kept rid h h1" "rid_shut rid h1" "drive_ok items rid h h1" by auto
  then have "handler_inv items h1" "set rids \<subseteq> in_keys h1" using Cons.prems by (auto simp: drive_ok_def)
  with Cons.IH [of h1] Cons.prems obtain h' where
    h': "drive_inbound S dq e True rids h1 = Some (Continue h')"
      "\<forall>x. x \<notin> set rids \<longrightarrow> hm_get (inbound_substreams h') x = hm_get (inbound_substreams h1) x"
      "\<forall>x \<in> set rids. rid_shut x h'" by auto
  moreover have "rid_shut rid h'" using h1(3) h'(2) Cons.prems(2) by (simp add: rid_shut_def)
  ultimately show ?case using h1 by (auto simp: others_kept_def)
qed simp

lemma drive_outbound_one_deactivated:
  assumes inv: "handler_inv items h" and m: "hm_get (outbound_substreams h) oid = Some info"
  shows "\<exists>h'. drive_outbound_one S dq e True oid h = Some (Continue h') \<and> inbound_substreams h' = inbound_substreams h \<and>
     (\<forall>x. x \<noteq> oid \<longrightarrow> hm_get (outbound_substreams h') x = hm_get (outbound_substreams h) x) \<and>
     (\<forall>i. hm_get (outbound_substreams h') oid = Some i \<longrightarrow> shut_out (oi_state i)) \<and>
     set (pending_errors h) \<subseteq> set (pending_errors h') \<and>
     (\<not> shut_out (oi_state info) \<longrightarrow> OutboundErr (oi_req_id info) (oi_proto info) HandlerRejected \<in> set (pending_errors h'))"
proof -
  have st: "oi_state info \<noteq> OutPoisoned"
    using inv out_okD(2) [OF _ m] by (auto simp: handler_inv_def core_inv_def)
  from drop_outbound_ok [OF inv m, of e] obtain h1 where "drop_outbound dq e oid info h = Some h1" by blast
  with st m show ?thesis
    by (cases "oi_state info")
      (auto simp: drive_outbound_one_def drop_outbound_def set_outbound_def split: prod.split poll.split)
qed

lemma drive_outbound_deactivated:
  "handler_inv items h \<Longrightarrow> distinct oids \<Longrightarrow> set oids \<subseteq> out_keys h \<Longrightarrow>
   \<exists>h'. drive_outbound S dq e True oids h = Some (Continue h') \<and> inbound_substreams h' = inbound_substreams h \<and>
     (\<forall>x. x \<notin> set oids \<longrightarrow> hm_get (outbound_substreams h') x = hm_get (outbound_substreams h) x) \<and>
     (\<forall>x \<in> set oids. \<forall>i. hm_get (outbound_substreams h') x = Some i \<longrightarrow> shut_out (oi_state i)) \<and>
     set (pending_errors h) \<subseteq> set (pending_errors h') \<and>
     (\<forall>x \<in> set oids. \<forall>i. hm_get (outbound_substreams h) x = Some i \<longrightarrow> \<not> shut_out (oi_state i) \<longrightarrow>
        OutboundErr (oi_req_id i) (oi_proto i) HandlerRejected \<in> set (pending_errors h'))"
proof (induction oids arbitrary: h)
  case (Cons oid oids)
  then obtain info where m: "hm_get (outbound_substreams h) oid = Some info" by auto
  from drive_outbound_one_deactivated [OF Cons.prems(1) m, of e] obtain h1 where
    h1: "drive_outbound_one S dq e True oid h = Some (Continue h1)" "inbound_substreams h1 = inbound_substreams h"
      "\<forall>x. x \<noteq> oid \<longrightarrow> hm_get (outbound_substreams h1) x = hm_get (outbound_substreams h) x"
      "\<forall>i. hm_get (outbound_substreams h1) oid = Some i \<longrightarrow> shut_out (oi_state i)"
      "set (pending_errors h) \<subseteq> set (pending_errors h1)"
      "\<not> shut_out (oi_state info) \<longrightarrow> OutboundErr (oi_req_id info) (oi_proto info) HandlerRejected \<in> set (pending_errors h1)"
    by blast
  have "handler_inv items h1" and "out_keys h - {oid} \<subseteq> out_keys h1"
    using drive_outbound_one_ok [OF Cons.prems(1), of oid e True] h1(1) m by auto
  moreover have "set oids \<subseteq> out_keys h - {oid}" using Cons.prems(2,3) by auto
  then have "set oids \<subseteq> out_keys h1" using calculation(2) by (rule order_trans)
  ultimately obtain h' where
    h': "drive_outbound S dq e True oids h1 = Some (Continue h')" "inbound_substreams h' = inbound_substreams h1"
      "\<forall>x. x \<notin> set oids \<longrightarrow> hm_get (outbound_substreams h') x = hm_get (outbound_substreams h1) x"
      "\<forall>x \<in> set oids. \<forall>i. hm_get (outbound_substreams h') x = Some i \<longrightarrow> shut_out (oi_state i)"
      "set (pending_errors h1) \<subseteq> set (pending_errors h')"
      "\<forall>x \<in> set oids. \<forall>i. hm_get (outbound_substreams h1) x = Some i \<longrightarrow> \<not> shut_out (oi_state i) \<longrightarrow>
        OutboundErr (oi_req_id i) (oi_proto i) HandlerRejected \<in> set (pending_errors h')"
    using Cons.IH [of h1] Cons.prems(2) by auto
  have notin: "oid \<notin> set oids" using Cons.prems(2) by simp
  show ?case
  proof (intro exI conjI)
    show "drive_outbound S dq e True (oid # oids) h = Some (Continue h')" using h1(1) h'(1) by simp
    show "set (pending_errors h) \<subseteq> set (pending_errors h')" using h1(5) h'(5) by blast
    show "\<forall>x \<in> set (oid # oids). \<forall>i. hm_get (outbound_substreams h') x = Some i \<longrightarrow> shut_out (oi_state i)"
      using h1(4) h'(3,4) notin by auto
    show "\<forall>x \<in> set (oid # oids). \<forall>i. hm_get (outbound_substreams h) x = Some i \<longrightarrow> \<not> shut_out (oi_state i) \<longrightarrow>
        OutboundErr (oi_req_id i) (oi_proto i) HandlerRejected \<in> set (pending_errors h')"
    proof (intro ballI allI impI)
      fix x i
      assume x: "x \<in> set (oid # oids)" "hm_get (outbound_substreams h) x = Some i" "\<not> shut_out (oi_state i)"
      show "OutboundErr (oi_req_id i) (oi_proto i) HandlerRejected \<in> set (pending_errors h')"
        using x h1(3,6) h'(5,6) notin m by (cases "x = oid") auto
    qed
  qed (use h1 h' in auto)
qed simp

end

lemma expire_inbound_outbound: "expire_inbound rid h = Some h' \<Longrightarrow> outbound_substreams h' = outbound_substreams h"
  by (auto simp: expire_inbound_def Let_def split: option.splits prod.splits)

lemma purge_inbound_outbound:
  assumes "purge_inbound dq e h = Some r"
  shows "\<forall>h'. r = Continue h' \<longrightarrow> outbound_substreams h' = outbound_substreams h"
proof (rule purge_inbound.raw_induct [OF _ assms], intro allI impI)
  fix purge dq e h r h'
  assume IH: "\<And>dq e h r. purge dq e h = Some r \<Longrightarrow> \<forall>h'. r = Continue h' \<longrightarrow> outbound_substreams h' = outbound_substreams h"
    and body: "(case dq_poll dq (now e) (inbound_substreams_delay h) of
        (Ready (Some (Inr rid)), q) \<Rightarrow>
          (case expire_inbound rid (h\<lparr> inbound_substreams_delay := q \<rparr>) of
             None \<Rightarrow> None
           | Some h' \<Rightarrow> purge dq e h')
      | (Ready (Some (Inl _)), q) \<Rightarrow>
          Some (Return (HClose (InternalError ''Could not poll inbound stream timer'')) (h\<lparr> inbound_substreams_delay := q \<rparr>))
      | (Ready None, q) \<Rightarrow> Some (Continue (h\<lparr> inbound_substreams_delay := q \<rparr>))
      | (Pending, q) \<Rightarrow> Some (Continue (h\<lparr> inbound_substreams_delay := q \<rparr>))) = Some r"
    and r: "r = Continue h'"
  show "outbound_substreams h' = outbound_substreams h"
    using body r by (auto dest!: IH expire_inbound_outbound split: prod.splits poll.splits option.splits sum.splits)
qed

lemma purge_outbound_outbound:
  assumes "purge_outbound dq e h = Some r"
  shows "\<forall>h'. r = Continue h' \<longrightarrow> outbound_substreams h' = outbound_substreams h"
proof (rule purge_outbound.raw_induct [OF _ assms], intro allI impI)
  fix purge dq e h r h'
  assume IH: "\<And>dq e h r. purge dq e h = Some r \<Longrightarrow> \<forall>h'. r = Continue h' \<longrightarrow> outbound_substreams h' = outbound_substreams h"
    and body: "(case dq_poll dq (now e) (outbound_substreams_delay h) of
        (Ready (Some (Inr oid)), q) \<Rightarrow>
          (let h1 = h\<lparr> outbound_substreams_delay := q \<rparr>
           in (case hm_get (outbound_substreams h1) oid of
                 Some info \<Rightarrow>
                   Some (Return (HCustom (Inl (OutboundErr (oi_req_id info) (oi_proto info) StreamTimeout)))
                     (update_keep_alive e (h1\<lparr> outbound_substreams := hm_remove oid (outbound_substreams h1) \<rparr>)))
               | None \<Rightarrow> purge dq e h1))
      | (Ready (Some (Inl _)), q) \<Rightarrow>
          Some (Return (HClose (InternalError ''Could not poll outbound stream timer'')) (h\<lparr> outbound_substreams_delay := q \<rparr>))
      | (Ready None, q) \<Rightarrow> Some (Continue (h\<lparr> outbound_substreams_delay := q \<rparr>))
      | (Pending, q) \<Rightarrow> Some (Continue (h\<lparr> outbound_substreams_delay := q \<rparr>))) = Some r"
    and r: "r = Continue h'"
  show "outbound_substreams h' = outbound_substreams h"
    using body r by (auto simp: Let_def dest!: IH split: prod.splits poll.splits option.splits sum.splits)
qed

lemma flow_bind_Continue:
  "flow_bind m f = Some (Continue h') \<longleftrightarrow> (\<exists>h1. m = Some (Continue h1) \<and> f h1 = Some (Continue h'))"
  by (auto simp: flow_bind_def split: option.splits flow.splits)

lemma flow_pending:
  "map_option (\<lambda>r. case r of Return ev h \<Rightarrow> (Ready ev, h) | Continue h \<Rightarrow> (Pending, h)) m = Some (Pending, h') \<longleftrightarrow>
   m = Some (Continue h')"
  by (cases m) (auto split: flow.splits)

text \<open>A poll that has nothing to report: it is pending or asks for a dial.\<close>

fun no_report :: "handler_event poll \<Rightarrow> bool" where
  "no_report Pending = True"
| "no_report (Ready (HOutboundSubstreamRequest _)) = True"
| "no_report _ = False"

definition shutdown_over :: "env \<Rightarrow> ('q, 'si, 'so) rpc_handler \<Rightarrow> bool" where
  "shutdown_over e h \<longleftrightarrow>
     (case h_state h of HActive \<Rightarrow> False | HShuttingDown deadline \<Rightarrow> deadline \<le> now e | HDeactivated \<Rightarrow> True)"

definition all_shut :: "('q, 'si, 'so) rpc_handler \<Rightarrow> bool" where
  "all_shut h \<longleftrightarrow> (\<forall>(rid, st, rest) \<in> set (inbound_substreams h). shut_in st) \<and>
     (\<forall>(oid, info) \<in> set (outbound_substreams h). shut_out (oi_state info))"

context handler_env
begin

text \<open>The phases of such a poll.\<close>

lemma poll_no_report:
  assumes "handler_inv items h" "handler_poll S dq e h = Some (r, h')" "no_report r"
  obtains h1 h2 h3 h4 where "shutdown_phase e h = Some (Continue h1)" "purge_inbound dq e h1 = Some (Continue h2)"
    "purge_outbound dq e h2 = Some (Continue h3)" "streams_phase S dq e h3 = Some (Continue h4)"
    "inbound_substreams h' = inbound_substreams h4" "outbound_substreams h' = outbound_substreams h4"
    "pending_errors h' = pending_errors h4"
proof -
  have quiet: "quiet ev" if "before_dial S dq e h = Some (Return ev h0)" for ev h0
    using before_dial_ok [OF assms(1), of e] that by (simp add: flow_ok_def)
  from assms(2) obtain f where f: "flow_bind (before_dial S dq e h) (dial_phase e) = Some f"
    "(case f of Return ev h \<Rightarrow> (Ready ev, h) | Continue h \<Rightarrow> (Pending, h)) = (r, h')"
    by (auto simp: handler_poll_def)
  have "\<exists>h4. before_dial S dq e h = Some (Continue h4) \<and> dial_phase e h4 = Some f"
  proof (rule ccontr)
    assume "\<not> ?thesis"
    with f(1) obtain ev h0 where "before_dial S dq e h = Some (Return ev h0)" "f = Return ev h0"
      unfolding flow_bind_def [of "before_dial S dq e h"] by (auto split: option.splits flow.splits)
    with quiet [of ev h0] f(2) assms(3) show False by (cases ev) auto
  qed
  then obtain h4 where h4: "before_dial S dq e h = Some (Continue h4)" "dial_phase e h4 = Some f" by blast
  from h4(1) obtain h0 h1 h2 h3 where steps: "report_phase h = Some (Continue h0)" "shutdown_phase e h0 = Some (Continue h1)"
      "purge_inbound dq e h1 = Some (Continue h2)" "purge_outbound dq e h2 = Some (Continue h3)"
      "streams_phase S dq e h3 = Some (Continue h4)"
    by (auto simp: flow_bind_Continue)
  moreover have "h0 = h" using steps(1) by (auto simp: report_phase_def split: list.splits)
  moreover have "inbound_substreams h' = inbound_substreams h4" "outbound_substreams h' = outbound_substreams h4"
    "pending_errors h' = pending_errors h4"
    using h4(2) f(2) by (auto simp: dial_phase_def split: list.splits if_splits)
  ultimately show thesis using that by blast
qed

lemma streams_phase_deactivated:
  assumes inv: "handler_inv items h" and "h_state h = HDeactivated" and step: "streams_phase S dq e h = Some (Continue h')"
    and ok: "answers_ok h"
  shows "all_shut h' \<and> (\<forall>oid info. hm_get (outbound_substreams h) oid = Some info \<longrightarrow> \<not> shut_out (oi_state info) \<longrightarrow>
           OutboundErr (oi_req_id info) (oi_proto info) HandlerRejected \<in> set (pending_errors h'))"
proof -
  have wf: "hm_wf (inbound_substreams g)" "hm_wf (outbound_substreams g)" if "handler_inv items g" for g
    using that by (auto simp: handler_inv_def core_inv_def in_ok_def out_ok_def)
  obtain h1 where h1: "drive_inbound S dq e True (map fst (inbound_substreams h)) h = Some (Continue h1)"
    "drive_outbound S dq e True (map fst (outbound_substreams h1)) h1 = Some (Continue h')"
    using step assms(2) by (auto simp: streams_phase_def flow_bind_Continue)
  have inv1: "handler_inv items h1" and out1: "outbound_substreams h1 = outbound_substreams h"
    using drive_inbound_ok [OF inv, of "map fst (inbound_substreams h)" e True] h1(1) wf(1) [OF inv]
    by (auto simp: dom_map_of_conv_image_fst)
  have inv': "handler_inv items h'"
    using streams_phase_ok [OF inv, of e] step by simp
  have ins: "\<forall>x. (x \<notin> in_keys h \<longrightarrow> hm_get (inbound_substreams h1) x = None) \<and> (x \<in> in_keys h \<longrightarrow> rid_shut x h1)"
    using drive_inbound_deactivated [OF inv, of "map fst (inbound_substreams h)" e] wf(1) [OF inv] h1(1)
    by (auto simp: dom_map_of_conv_image_fst map_of_eq_None_iff)
  have outs: "inbound_substreams h' = inbound_substreams h1"
    "\<forall>x. (x \<notin> out_keys h1 \<longrightarrow> hm_get (outbound_substreams h') x = None) \<and>
         (x \<in> out_keys h1 \<longrightarrow> (\<forall>i. hm_get (outbound_substreams h') x = Some i \<longrightarrow> shut_out (oi_state i)))"
    "\<forall>x i. hm_get (outbound_substreams h1) x = Some i \<longrightarrow> \<not> shut_out (oi_state i) \<longrightarrow>
        OutboundErr (oi_req_id i) (oi_proto i) HandlerRejected \<in> set (pending_errors h')"
    using drive_outbound_deactivated [OF inv1, of "map fst (outbound_substreams h1)" e] wf(2) [OF inv1] h1(2)
    by (auto simp: dom_map_of_conv_image_fst map_of_eq_None_iff dest: map_of_SomeD)
  have ok': "answers_ok h'" using streams_phase_answers [OF ok step] by simp
  have "shut_in st" if "(rid, st, key, proto) \<in> set (inbound_substreams h')" for rid st key proto
  proof -
    have m: "hm_get (inbound_substreams h1) rid = Some (st, key, proto)" using that outs(1) wf(1) [OF inv1] by simp
    with ins have "winding_up st" by (metis option.distinct(1) rid_shut_def)
    then show ?thesis by (rule shut_in_winding_up [OF _ answer_okD [OF ok', unfolded outs(1), OF m]])
  qed
  moreover have "shut_out (oi_state info)" if "(oid, info) \<in> set (outbound_substreams h')" for oid info
    using that outs(2) wf(2) [OF inv'] by (metis map_of_is_SomeI option.distinct(1))
  ultimately show ?thesis using outs(3) out1 by (auto simp: all_shut_def)
qed

lemma poll_after_shutdown:
  assumes inv: "handler_inv items h" and ok: "answers_ok h" and over: "shutdown_over e h"
    and poll: "handler_poll S dq e h = Some (r, h')" "no_report r"
  shows "all_shut h' \<and> (\<forall>oid info. hm_get (outbound_substreams h) oid = Some info \<longrightarrow> \<not> shut_out (oi_state info) \<longrightarrow>
           OutboundErr (oi_req_id info) (oi_proto info) HandlerRejected \<in> set (pending_errors h'))"
proof -
  from inv poll obtain h1 h2 h3 h4 where steps: "shutdown_phase e h = Some (Continue h1)"
    "purge_inbound dq e h1 = Some (Continue h2)" "purge_outbound dq e h2 = Some (Continue h3)"
    "streams_phase S dq e h3 = Some (Continue h4)"
    and h': "inbound_substreams h' = inbound_substreams h4" "outbound_substreams h' = outbound_substreams h4"
      "pending_errors h' = pending_errors h4"
    by (rule poll_no_report)
  have ok3: "answers_ok h3"
    using shutdown_phase_answers [OF ok steps(1)] purge_inbound_keeps [OF _ steps(2)] purge_outbound_keeps [OF _ steps(3)] by simp
  have h1: "h_state h1 = HDeactivated" "outbound_substreams h1 = outbound_substreams h" "handler_inv items h1"
    using steps(1) over inv
    by (auto simp: shutdown_phase_def shutdown_over_def handler_inv_def core_inv_def idle_def split: handler_state.splits if_splits)
  have h2: "handler_inv items h2" "steady h1 h2" using purge_inbound_ok [OF h1(3), of e] steps(2) by auto
  have h3: "handler_inv items h3" "steady h2 h3" using purge_outbound_ok [OF h2(1), of e] steps(3) by auto
  have "h_state h3 = HDeactivated" using h1(1) h2(2) h3(2) by (auto simp: steady_def)
  moreover have "outbound_substreams h3 = outbound_substreams h"
    using purge_inbound_outbound [OF steps(2)] purge_outbound_outbound [OF steps(3)] h1(2) by simp
  ultimately show ?thesis using streams_phase_deactivated [OF h3(1) _ steps(4) ok3] h' by (simp add: all_shut_def)
qed

end

section \<open>Timeouts of inbound substreams\<close>

text \<open>The state of a substream that has timed out: an idle one is given the error as its only answer, one
  that has its last answer in hand goes on with it.\<close>

fun timed_out :: "'si inbound_substream_state \<Rightarrow> 'si inbound_substream_state" where
  "timed_out (ResponseIdle s) = ResponsePendingSend s timed_out_response True"
| "timed_out st = st"

lemma timed_out_last: "answer_ok st key queue \<Longrightarrow> st \<noteq> InPoisoned \<Longrightarrow>
  (\<exists>s. st = ResponseIdle s \<and> timed_out st = ResponsePendingSend s timed_out_response True) \<or> last_answer st \<and> timed_out st = st"
  by (cases st) auto

text \<open>How a purge changes an entry.\<close>

definition purged :: "('q, 'si, 'so) rpc_handler \<Rightarrow> ('q, 'si, 'so) rpc_handler \<Rightarrow> bool" where
  "purged h h' \<longleftrightarrow> set (pending_errors h) \<subseteq> set (pending_errors h') \<and>
     (\<forall>rid st key proto. hm_get (inbound_substreams h) rid = Some (st, key, proto) \<longrightarrow>
        hm_get (inbound_substreams h') rid = Some (st, key, proto) \<or>
        hm_get (inbound_substreams h') rid = Some (timed_out st, None, proto) \<and>
        InboundErr rid proto StreamTimeout \<in> set (pending_errors h'))"

lemma purgedD:
  "purged h h' \<Longrightarrow> hm_get (inbound_substreams h) rid = Some (st, key, proto) \<Longrightarrow>
   hm_get (inbound_substreams h') rid = Some (st, key, proto) \<or>
   hm_get (inbound_substreams h') rid = Some (timed_out st, None, proto) \<and>
   InboundErr rid proto StreamTimeout \<in> set (pending_errors h')"
  unfolding purged_def by blast

lemma timed_out_twice [simp]: "timed_out (timed_out st) = timed_out st"
  by (cases st) auto

lemma purged_refl: "purged h (h\<lparr> inbound_substreams_delay := q \<rparr>)"
  by (simp add: purged_def)

lemma purged_trans:
  assumes "purged h h1" "purged h1 h2"
  shows "purged h h2"
proof -
  have "hm_get (inbound_substreams h2) rid = Some (st, key, proto) \<or>
      hm_get (inbound_substreams h2) rid = Some (timed_out st, None, proto) \<and>
      InboundErr rid proto StreamTimeout \<in> set (pending_errors h2)"
    if m: "hm_get (inbound_substreams h) rid = Some (st, key, proto)" for rid st key proto
  proof -
    consider "hm_get (inbound_substreams h1) rid = Some (st, key, proto)"
      | "hm_get (inbound_substreams h1) rid = Some (timed_out st, None, proto)" "InboundErr rid proto StreamTimeout \<in> set (pending_errors h1)"
      using purgedD [OF assms(1) m] by blast
    then show ?thesis
    proof cases
      case 2
      from purgedD [OF assms(2) this(1)] have "hm_get (inbound_substreams h2) rid = Some (timed_out st, None, proto)"
        by auto
      with 2 assms(2) show ?thesis by (auto simp: purged_def)
    qed (rule purgedD [OF assms(2)])
  qed
  with assms show ?thesis by (auto simp: purged_def)
qed

lemma inbound_close_timed_out: "inbound_close st queue = Some (st', queue') \<Longrightarrow> st' = timed_out st"
  by (cases st) auto

lemma expire_purged:
  assumes "expire_inbound rid h = Some h'"
  shows "purged h h'"
proof (cases "hm_get (inbound_substreams h) rid")
  case None
  with assms show ?thesis by (simp add: expire_inbound_def purged_def)
next
  case (Some entry)
  obtain st key proto where entry: "entry = (st, key, proto)" by (cases entry)
  with assms Some obtain st' queue' where
    c: "inbound_close st (case hm_get (queued_outbound_items h) rid of Some q \<Rightarrow> q | None \<Rightarrow> []) = Some (st', queue')"
    and h': "h' = (push_error (InboundErr rid proto StreamTimeout) h)
       \<lparr> inbound_substreams := hm_insert rid (st', None, proto) (inbound_substreams h),
         queued_outbound_items := hm_insert rid queue' (queued_outbound_items h) \<rparr>"
    by (auto simp: expire_inbound_def Let_def split: option.splits)
  from inbound_close_timed_out [OF c] Some entry show ?thesis
    by (auto simp: h' purged_def)
qed

context handler_env
begin

lemma purge_inbound_purged:
  "handler_inv items h \<Longrightarrow> purge_inbound dq e h = Some (Continue h') \<Longrightarrow>
   purged h h' \<and> (\<exists>q r. items q = items (inbound_substreams_delay h') \<and> items q \<subseteq>\<^sub>m items (inbound_substreams_delay h) \<and>
     dq_poll dq (now e) q = (r, inbound_substreams_delay h') \<and> (\<forall>x. r \<noteq> Ready (Some x)))"
proof (induction "card (dom (items (inbound_substreams_delay h)))" arbitrary: h rule: less_induct)
  case less
  obtain r q where poll: "dq_poll dq (now e) (inbound_substreams_delay h) = (r, q)" by force
  show ?case
  proof (cases "\<exists>rid. r = Ready (Some (Inr rid))")
    case True
    then obtain rid where rid: "r = Ready (Some (Inr rid))" ..
    from items_expired [OF poll [unfolded rid]] obtain k d where k: "items (inbound_substreams_delay h) k = Some (rid, d)"
      "items q = (items (inbound_substreams_delay h))(k := None)" by blast
    from expire_inbound_ok [OF less.prems(1) k] obtain h1 where
      h1: "expire_inbound rid (h\<lparr> inbound_substreams_delay := q \<rparr>) = Some h1" "handler_inv items h1"
        "inbound_substreams_delay h1 = q" by blast
    have lt: "card (dom (items (inbound_substreams_delay h1))) < card (dom (items (inbound_substreams_delay h)))"
      using k items_finite [of "inbound_substreams_delay h"] h1(3) by (auto intro!: psubset_card_mono)
    have rest: "purge_inbound dq e h1 = Some (Continue h')"
      using less.prems(2) by (subst (asm) purge_inbound.simps) (simp add: poll rid h1(1))
    have le: "items q \<subseteq>\<^sub>m items (inbound_substreams_delay h)" using k by (auto simp: map_le_def)
    have "purged h h1" by (rule purged_trans [OF purged_refl expire_purged [OF h1(1)]])
    with less.hyps [OF lt h1(2) rest] le h1(3) show ?thesis
      by (meson map_le_trans purged_trans)
  next
    case False
    with less.prems(2) have "h' = h\<lparr> inbound_substreams_delay := q \<rparr>" "\<forall>x. r \<noteq> Ready (Some x)"
      by (subst (asm) purge_inbound.simps, auto simp: poll split: poll.splits option.splits sum.splits)+
    with items_poll_other [OF poll] False poll show ?thesis
      by (auto simp: purged_refl intro!: exI [of _ "inbound_substreams_delay h"])
  qed
qed

lemma due_substreams_expire:
  assumes inv: "handler_inv items h" and purge: "purge_inbound dq e h = Some (Continue h')" and prompt: "prompt_queue dq items"
    and m: "hm_get (inbound_substreams h) rid = Some (st, Some k, proto)"
    and due: "items (inbound_substreams_delay h) k = Some (rid, t)" "t \<le> now e"
  shows "hm_get (inbound_substreams h') rid = Some (timed_out st, None, proto) \<and>
           InboundErr rid proto StreamTimeout \<in> set (pending_errors h')"
proof (rule ccontr)
  assume not: "\<not> ?thesis"
  from purge_inbound_purged [OF inv purge] obtain q r where pq: "purged h h'" "items q = items (inbound_substreams_delay h')"
    "items q \<subseteq>\<^sub>m items (inbound_substreams_delay h)" "dq_poll dq (now e) q = (r, inbound_substreams_delay h')"
    "\<forall>x. r \<noteq> Ready (Some x)" by blast
  with not purgedD [OF pq(1) m] have m': "hm_get (inbound_substreams h') rid = Some (st, Some k, proto)" by blast
  have "handler_inv items h'" using purge_inbound_ok [OF inv, of e] purge by simp
  with m' obtain t' where t': "items q k = Some (rid, t')"
    using pq(2) in_okD(3) [of items "inbound_substreams_delay h'" _ "inbound_substreams h'" rid st k proto]
    by (auto simp: handler_inv_def core_inv_def)
  with map_leD [OF pq(3) t'] due(1) have "t' = t" by simp
  moreover have "now e < t'" using prompt pq(4,5) t' unfolding prompt_queue_def by blast
  ultimately show False using due(2) by simp
qed

lemma axioms_machine: "op_machine (handler_step S dq) (machine_inv items) (\<lambda>_. True)"
  by (rule hm.op_machine_axioms)

end

lemma env_run_ok:
  "delay_queue dq items \<Longrightarrow> \<exists>evs m. run_calls (handler_step S dq) cs (handler_new dq timeout, []) = Some (evs, m) \<and> machine_inv items m"
  by (rule op_machine.run_ok [OF handler_env.axioms_machine handler_env.machine_start_inv])
    (auto intro: handler_env.intro simp: list_all_iff)

lemma env_run_inv:
  "delay_queue dq items \<Longrightarrow> run_calls (handler_step S dq) cs (handler_new dq timeout, []) = Some (evs, h, outs) \<Longrightarrow>
   machine_inv items (h, outs)"
  using env_run_ok [of dq items S cs timeout] by auto

text \<open>A request that has not been answered yet is watched by a timer.\<close>

lemma idle_timer:
  assumes "delay_queue dq items"
    and "run_calls (handler_step S dq) cs (handler_new dq timeout, []) = Some (evs, h, outs)"
    and "hm_get (inbound_substreams h) rid = Some (ResponseIdle s, key, proto)"
  obtains k t where "key = Some k" "items (inbound_substreams_delay h) k = Some (rid, t)"
proof -
  from answer_okD [OF reachable_answers [OF assms(2)] assms(3)] obtain k where k: "key = Some k" by auto
  from env_run_inv [OF assms(1,2)] assms(3) k have "\<exists>t. items (inbound_substreams_delay h) k = Some (rid, t)"
    by (fastforce simp: machine_inv_def handler_inv_def core_inv_def in_ok_def)
  with k that show thesis by blast
qed

section \<open>Properties\<close>

text \<open>C1. Whatever the swarm, the peer and the application do, no call of the handler panics and every
  \<open>poll\<close> returns; at most eight substreams are being dialed, and the counter of dials covers them.\<close>

theorem handler_never_panics:
  assumes "delay_queue dq items"
  shows "\<exists>evs h outs. run_calls (handler_step S dq) cs (handler_new dq timeout, []) = Some (evs, h, outs) \<and>
           length outs \<le> unat (dial_negotiated h) \<and> unat (dial_negotiated h) \<le> 8"
  using env_run_ok [OF assms, of S cs timeout]
  by (auto simp: machine_inv_def handler_inv_def core_inv_def word_le_nat_alt)

definition e_at :: "nat \<Rightarrow> env" where
  "e_at t = \<lparr> now = t, overflow_checks = True \<rparr>"

definition a_status :: rpc_request where "a_status = StatusRequest [1, 2]"

theorem handler_never_panics_witness:
  "\<exists>evs h outs. run_calls (handler_step ref_streams lq_ops)
       [HcEvent (e_at 0) (SendRequest Router a_status), HcPoll (e_at 0), HcOutbound (e_at 1) [Inr (Success (StatusResponse [7]))] 0,
        HcPoll (e_at 2), HcPoll (e_at 3), HcShutdown (e_at 4) None, HcPoll (e_at 20000)]
       (handler_new lq_ops 5000, []) = Some (evs, h, outs) \<and>
     length outs \<le> unat (dial_negotiated h) \<and> unat (dial_negotiated h) \<le> 8"
  by (rule handler_never_panics [OF lq.delay_queue_axioms])

text \<open>C2. No request is lost: every request that expects a response and was handed to the handler is still
  on its way (queued, being dialed, awaiting its response, or with an error to be reported), or an
  outcome (the response or an error) has been reported under its id.\<close>

theorem no_request_lost:
  assumes "delay_queue dq items"
    and "run_calls (handler_step S dq) cs (handler_new dq timeout, []) = Some (evs, m)"
  shows "sum_list (map (submitted i) cs) \<le> owed i m + sum_list (map (reported i) evs)"
proof -
  note env = handler_env.intro [OF assms(1)]
  from handler_env.run_owed [OF env handler_env.machine_start_inv [OF env] assms(2), of i] show ?thesis by linarith
qed

definition lost_run :: "(rpc_coded_response list, (rpc_error + rpc_coded_response) list) handler_call list" where
  "lost_run = [HcEvent (e_at 0) (SendRequest Router a_status), HcPoll (e_at 0),
     HcOutbound (e_at 1) [Inr (Success (StatusResponse [7]))] 0, HcPoll (e_at 2)]"

theorem no_request_lost_witness:
  "\<exists>evs m. run_calls (handler_step ref_streams lq_ops) lost_run (handler_new lq_ops 5000, []) = Some (evs, m) \<and>
     sum_list (map (submitted Router) lost_run) \<le> owed Router m + sum_list (map (reported Router) evs)"
proof -
  obtain evs m where run: "run_calls (handler_step ref_streams lq_ops) lost_run (handler_new lq_ops 5000, []) = Some (evs, m)"
    using env_run_ok [OF lq.delay_queue_axioms, of ref_streams lost_run 5000] by auto
  from no_request_lost [OF lq.delay_queue_axioms run, of Router] run show ?thesis by blast
qed

text \<open>C8. Shutting down an active handler rejects every request that is still queued; from then on, in any
  continuation, the only request that is dialed is the final message, at most once.\<close>

theorem shutdown_stops_dialing:
  assumes "delay_queue dq items"
    and "run_calls (handler_step S dq) cs (handler_new dq timeout, []) = Some (evs, h, outs)" and "h_state h = HActive"
    and "run_calls (handler_step S dq) cs' (shutdown e final_msg h, outs) = Some (evs', h', outs')"
  shows "dials evs' @ dial_queue h' = (case final_msg of Some m \<Rightarrow> [m] | None \<Rightarrow> []) \<and> h_state h' \<noteq> HActive \<and>
         (\<forall>(rid, req) \<in> set (dial_queue h).
            OutboundErr rid (req_protocol req) HandlerRejected \<in> set (pending_errors (shutdown e final_msg h)))"
proof -
  note env = handler_env.intro [OF assms(1)]
  have "machine_inv items (shutdown e final_msg h, outs)"
    using env_run_inv [OF assms(1,2)]
    by (simp add: machine_inv_def handler_env.shutdown_inv [OF env] handler_env.shutdown_dials [OF env])
  moreover have "h_state (shutdown e final_msg h) \<noteq> HActive" "dial_queue (shutdown e final_msg h) = (case final_msg of Some m \<Rightarrow> [m] | None \<Rightarrow> [])"
    using assms(3) by (simp_all add: shutdown_def)
  moreover have "\<forall>(rid, req) \<in> set (dial_queue h). OutboundErr rid (req_protocol req) HandlerRejected \<in> set (pending_errors (shutdown e final_msg h))"
    using assms(3) by (force simp: shutdown_def)
  ultimately show ?thesis using handler_env.inactive_run [OF env _ _ assms(4)] by simp
qed

definition bye :: "request_id \<times> rpc_request" where "bye = (Behaviour, GoodbyeRequest [3])"

definition queue_two :: "(rpc_coded_response list, (rpc_error + rpc_coded_response) list) handler_call list" where
  "queue_two = [HcEvent (e_at 0) (SendRequest Router a_status), HcEvent (e_at 0) (SendRequest Behaviour MetaDataRequest)]"

definition drain :: "(rpc_coded_response list, (rpc_error + rpc_coded_response) list) handler_call list" where
  "drain = HcEvent (e_at 2) (SendRequest Router a_status) # replicate 5 (HcPoll (e_at 2))"

lemma shutdown_runs:
  "map_option (\<lambda>(evs, h, outs). (h_state h, length (dial_queue h),
       map_option (dials \<circ> fst) (run_calls (handler_step ref_streams lq_ops) drain (shutdown (e_at 1) (Some bye) h, outs))))
     (run_calls (handler_step ref_streams lq_ops) queue_two (handler_new lq_ops 5000, [])) = Some (HActive, 2, Some [bye])"
  by code_simp

theorem shutdown_stops_dialing_witness:
  "\<exists>evs h outs evs' h' outs'.
     run_calls (handler_step ref_streams lq_ops) queue_two (handler_new lq_ops 5000, []) = Some (evs, h, outs) \<and>
     run_calls (handler_step ref_streams lq_ops) drain (shutdown (e_at 1) (Some bye) h, outs) = Some (evs', h', outs') \<and>
     dials evs' @ dial_queue h' = [bye] \<and> length (dial_queue h) = 2 \<and>
     (\<forall>(rid, req) \<in> set (dial_queue h).
        OutboundErr rid (req_protocol req) HandlerRejected \<in> set (pending_errors (shutdown (e_at 1) (Some bye) h)))"
proof -
  from shutdown_runs obtain evs h outs evs' h' outs' where
    r: "run_calls (handler_step ref_streams lq_ops) queue_two (handler_new lq_ops 5000, []) = Some (evs, h, outs)"
      "h_state h = HActive" "length (dial_queue h) = 2"
      "run_calls (handler_step ref_streams lq_ops) drain (shutdown (e_at 1) (Some bye) h, outs) = Some (evs', h', outs')"
    by auto
  from shutdown_stops_dialing [OF lq.delay_queue_axioms r(1,2,4)] r show ?thesis by auto
qed

text \<open>C9. Once the time for the shutdown is over, a poll that has nothing to report (it is pending, or asks
  for a dial) leaves no substream in use: every inbound one is closing or flushing its last message,
  every outbound one is closing, and each request that was awaiting its response is to be reported as
  rejected. (A poll that has an error or an event to report returns it first and closes nothing.)\<close>

theorem deactivated_closes_everything:
  assumes "delay_queue dq items"
    and "run_calls (handler_step S dq) cs (handler_new dq timeout, []) = Some (evs, h, outs)"
    and "shutdown_over e h" and "handler_poll S dq e h = Some (r, h')" and "no_report r"
  shows "all_shut h' \<and> (\<forall>oid info. hm_get (outbound_substreams h) oid = Some info \<longrightarrow> \<not> shut_out (oi_state info) \<longrightarrow>
           OutboundErr (oi_req_id info) (oi_proto info) HandlerRejected \<in> set (pending_errors h'))"
  using handler_env.poll_after_shutdown [OF handler_env.intro [OF assms(1)] _ reachable_answers [OF assms(2)] assms(3-5)]
    env_run_inv [OF assms(1,2)]
  by (simp add: machine_inv_def)

definition late_request :: "(rpc_coded_response list, (rpc_error + rpc_coded_response) list) handler_call list" where
  "late_request = [HcInbound (e_at 0) a_status [], HcPoll (e_at 0), HcShutdown (e_at 0) (Some (Router, a_status)),
     HcPoll (e_at 14000), HcOutbound (e_at 14000) [] 0]"

lemma late_request_run:
  "map_option (\<lambda>(evs, h, outs). (map (oi_req_id \<circ> snd) (outbound_substreams h), h_state h,
       map_option fst (handler_poll ref_streams lq_ops (e_at 15000) h)))
     (run_calls (handler_step ref_streams lq_ops) (late_request @ [HcPoll (e_at 14001)]) (handler_new lq_ops 5000, [])) =
   Some ([Router], HShuttingDown 15000, Some Pending)"
  by code_simp

theorem deactivated_closes_everything_witness:
  "\<exists>evs h outs h'. run_calls (handler_step ref_streams lq_ops) (late_request @ [HcPoll (e_at 14001)]) (handler_new lq_ops 5000, [])
       = Some (evs, h, outs) \<and> handler_poll ref_streams lq_ops (e_at 15000) h = Some (Pending, h') \<and> all_shut h' \<and>
     outbound_substreams h \<noteq> []"
proof -
  from late_request_run obtain evs h outs h' where
    r: "run_calls (handler_step ref_streams lq_ops) (late_request @ [HcPoll (e_at 14001)]) (handler_new lq_ops 5000, [])
         = Some (evs, h, outs)" "h_state h = HShuttingDown 15000" "outbound_substreams h \<noteq> []"
      and poll: "handler_poll ref_streams lq_ops (e_at 15000) h = Some (Pending, h')"
    by auto
  have "shutdown_over (e_at 15000) h" using r(2) by (simp add: shutdown_over_def e_at_def)
  from deactivated_closes_everything [OF lq.delay_queue_axioms r(1) this poll] r poll show ?thesis by auto
qed

text \<open>C29. A request is answered exactly once: however many responses the application gives to a request
  that has not been answered yet, driving the substream (over a sink that takes everything) sends the
  first one, drops the others and closes the substream; as soon as the close is done the substream,
  its queue and its timer are gone. The errors among the responses are reported, in order, and the other
  substreams are untouched.\<close>

theorem request_answered_once:
  assumes "delay_queue dq items" and "ready_sink S put"
    and "run_calls (handler_step S dq) cs (handler_new dq timeout, []) = Some (evs, h, outs)" and "h_state h \<noteq> HDeactivated"
    and "hm_get (inbound_substreams h) rid = Some (ResponseIdle s, key, proto)"
  shows "\<exists>h1 h'. run_calls (handler_step S dq) (map (\<lambda>r. HcEvent e (SendResponse rid r)) (r # rs)) (h, outs) =
             Some (replicate (length (r # rs)) [], h1, outs) \<and>
           drive_loop S dq e False rid h1 = Some (Continue h') \<and>
           (case in_poll_close S (put r s) of
              (Ready _, _) \<Rightarrow> hm_get (inbound_substreams h') rid = None \<and> queue_of rid h' = [] \<and>
                (\<exists>k. key = Some k \<and> items (inbound_substreams_delay h') = (items (inbound_substreams_delay h))(k := None))
            | (Pending, s') \<Rightarrow> hm_get (inbound_substreams h') rid = Some (InClosing s', key, proto)) \<and>
           (\<forall>x. x \<noteq> rid \<longrightarrow> hm_get (inbound_substreams h') x = hm_get (inbound_substreams h) x) \<and>
           pending_errors h' = pending_errors h @ concat (map (error_report rid proto) (r # rs))"
proof -
  obtain k t where k: "key = Some k" and t: "items (inbound_substreams_delay h) k = Some (rid, t)"
    by (rule idle_timer [OF assms(1,3,5)])
  from delay_queue.items_remove [OF assms(1) t] obtain q where
    q: "dq_remove dq k (inbound_substreams_delay h) = Some q" "items q = (items (inbound_substreams_delay h))(k := None)" by blast
  define h0 where "h0 = set_inbound_state rid (ResponsePendingSend s r True)
     (h\<lparr> pending_errors := pending_errors h @ error_report rid proto r \<rparr>)"
  have h0: "hm_get (inbound_substreams h0) x = (if x = rid then Some (ResponsePendingSend s r True, key, proto)
      else hm_get (inbound_substreams h) x)" "h_state h0 = h_state h" "inbound_substreams_delay h0 = inbound_substreams_delay h"
    "pending_errors h0 = pending_errors h @ error_report rid proto r" for x
    using assms(5) by (simp_all add: h0_def map_of_set_inbound_state)
  from later_responses [of h0 rid s r key proto S dq e rs outs] h0 assms(4) obtain h1 where
    h1: "run_calls (handler_step S dq) (map (\<lambda>r. HcEvent e (SendResponse rid r)) rs) (h0, outs) = Some (replicate (length rs) [], h1, outs)"
      "\<forall>x. hm_get (inbound_substreams h1) x = hm_get (inbound_substreams h0) x"
      "inbound_substreams_delay h1 = inbound_substreams_delay h"
      "pending_errors h1 = pending_errors h0 @ concat (map (error_report rid proto) rs)" by auto
  have m: "hm_get (inbound_substreams h1) rid = Some (ResponsePendingSend s r True, Some k, proto)" using h0 h1(2) k by simp
  have r: "dq_remove dq k (inbound_substreams_delay h1) = Some q" using h1(3) q(1) by simp
  obtain c s' where c: "in_poll_close S (put r s) = (c, s')" by force
  have send: "send_response rid r h = Some h0" using first_response [OF assms(5,4)] by (simp add: h0_def)
  from drive_sends_and_closes [OF assms(2) m r, of e] obtain h' where
    h': "drive_loop S dq e False rid h1 = Some (Continue h')" "pending_errors h' = pending_errors h1"
      "case in_poll_close S (put r s) of
         (Ready _, _) \<Rightarrow> hm_get (inbound_substreams h') rid = None \<and> queue_of rid h' = [] \<and> inbound_substreams_delay h' = q
       | (Pending, s') \<Rightarrow> hm_get (inbound_substreams h') rid = Some (InClosing s', Some k, proto)"
      "\<forall>x. x \<noteq> rid \<longrightarrow> hm_get (inbound_substreams h') x = hm_get (inbound_substreams h1) x"
    by (elim exE conjE) (rule that)
  show ?thesis
  proof (intro exI conjI)
    show "run_calls (handler_step S dq) (map (\<lambda>r. HcEvent e (SendResponse rid r)) (r # rs)) (h, outs) =
        Some (replicate (length (r # rs)) [], h1, outs)"
      using send h1(1) by (simp add: inject_event_def)
    show "pending_errors h' = pending_errors h @ concat (map (error_report rid proto) (r # rs))"
      using h'(2) h1(4) h0(4) by simp
    show "case in_poll_close S (put r s) of
        (Ready _, _) \<Rightarrow> hm_get (inbound_substreams h') rid = None \<and> queue_of rid h' = [] \<and>
          (\<exists>k. key = Some k \<and> items (inbound_substreams_delay h') = (items (inbound_substreams_delay h))(k := None))
      | (Pending, s') \<Rightarrow> hm_get (inbound_substreams h') rid = Some (InClosing s', key, proto)"
      using h'(3) c k q(2) by (cases c) auto
  qed (use h'(1,4) h1(2) h0(1) in auto)
qed

lemma ref_sink: "ready_sink ref_streams (\<lambda>r s. s @ [r])"
  by (simp add: ready_sink_def ref_streams_def)

definition asked_handler :: "(nat list_queue, rpc_coded_response list, (rpc_error + rpc_coded_response) list) rpc_handler" where
  "asked_handler = (handler_new lq_ops 5000)
     \<lparr> inbound_substreams := [(0, ResponseIdle [], Some 1, PStatus)], inbound_substreams_delay := [(1, 0, 10000)],
       events_out := [ReceivedRequest 0 a_status], current_inbound_substream_id := 1 \<rparr>"

definition unanswered :: "(rpc_coded_response list, (rpc_error + rpc_coded_response) list) handler_call list" where
  "unanswered = [HcInbound (e_at 0) a_status []]"

lemma unanswered_run:
  "run_calls (handler_step ref_streams lq_ops) unanswered (handler_new lq_ops 5000, []) = Some ([[]], asked_handler, [])"
  by (simp add: unanswered_def asked_handler_def inject_fully_negotiated_inbound_def handler_new_def a_status_def lq_ops_def
      lq_fresh_def LQ_MAX_def RESPONSE_TIMEOUT_def e_at_def update_keep_alive_def)

lemma asked_handler_fields:
  "hm_get (inbound_substreams asked_handler) 0 = Some (ResponseIdle [], Some 1, PStatus)"
  "inbound_substreams_delay asked_handler = [(1, 0, 10000)]" "h_state asked_handler = HActive"
  "pending_errors asked_handler = []"
  by (simp_all add: asked_handler_def handler_new_def)

theorem request_answered_once_witness:
  "\<exists>h1 h'. run_calls (handler_step ref_streams lq_ops) (map (\<lambda>r. HcEvent (e_at 1) (SendResponse 0 r))
         [Success (StatusResponse [9]), ServerError (ErrorType [1]), Success (StatusResponse [8])]) (asked_handler, []) =
       Some ([[], [], []], h1, []) \<and>
     drive_loop ref_streams lq_ops (e_at 1) False 0 h1 = Some (Continue h') \<and>
     hm_get (inbound_substreams h') 0 = None \<and> map_of (inbound_substreams_delay h') 1 = None \<and>
     pending_errors h' = [InboundErr 0 PStatus (ErrorResponse ServerErrorCode (error_type_to_string (ErrorType [1])))]"
proof -
  have active: "h_state asked_handler \<noteq> HDeactivated" by (simp add: asked_handler_fields)
  from request_answered_once [OF lq.delay_queue_axioms ref_sink unanswered_run active asked_handler_fields(1),
      of "e_at 1" "Success (StatusResponse [9])" "[ServerError (ErrorType [1]), Success (StatusResponse [8])]"]
  show ?thesis by (auto simp: ref_streams_def error_report_def asked_handler_fields numeral_3_eq_3)
qed

text \<open>C28. An inbound request that is not answered in time is answered with an error. Over a queue that is
  prompt, a poll that goes on past its purge has, for every substream whose timer is due, forgotten
  the timer and reported the timeout; a substream that was waiting for its response is now sending the
  timeout error as its last message, and every other one already had its last answer in hand (being
  sent, being flushed, or the substream being closed) and keeps it. No queue of responses is changed.\<close>

theorem due_inbound_substreams_expire:
  assumes "delay_queue dq items" and "prompt_queue dq items"
    and "run_calls (handler_step S dq) cs (handler_new dq timeout, []) = Some (evs, h, outs)"
    and "purge_inbound dq e h = Some (Continue h')"
    and "hm_get (inbound_substreams h) rid = Some (st, Some k, proto)"
    and "items (inbound_substreams_delay h) k = Some (rid, t)" and "t \<le> now e"
  shows "\<exists>st'. hm_get (inbound_substreams h') rid = Some (st', None, proto) \<and>
           InboundErr rid proto StreamTimeout \<in> set (pending_errors h') \<and>
           ((\<exists>s. st = ResponseIdle s \<and> st' = ResponsePendingSend s timed_out_response True) \<or> last_answer st \<and> st' = st) \<and>
           (\<forall>x. queue_of x h' = queue_of x h)"
proof -
  note ok = reachable_answers [OF assms(3)]
  have inv: "handler_inv items h" using env_run_inv [OF assms(1,3)] by (simp add: machine_inv_def)
  with in_okD(2) [OF _ assms(5)] have "st \<noteq> InPoisoned" by (auto simp: handler_inv_def core_inv_def)
  with timed_out_last [OF answer_okD [OF ok assms(5)]] ok purge_inbound_answers [OF assms(4)]
    handler_env.due_substreams_expire [OF handler_env.intro [OF assms(1)] inv assms(4,2,5-7)]
  show ?thesis by auto
qed

theorem due_inbound_substreams_expire_witness:
  "\<exists>h'. purge_inbound lq_ops (e_at 10000) asked_handler = Some (Continue h') \<and>
     hm_get (inbound_substreams h') 0 = Some (ResponsePendingSend [] timed_out_response True, None, PStatus) \<and>
     InboundErr 0 PStatus StreamTimeout \<in> set (pending_errors h')"
proof -
  have "map_option (\<lambda>r. case r of Continue _ \<Rightarrow> True | _ \<Rightarrow> False) (purge_inbound lq_ops (e_at 10000) asked_handler) = Some True"
    by code_simp
  then obtain r where r: "purge_inbound lq_ops (e_at 10000) asked_handler = Some r" "case r of Continue _ \<Rightarrow> True | _ \<Rightarrow> False"
    by auto
  then obtain h' where p: "purge_inbound lq_ops (e_at 10000) asked_handler = Some (Continue h')"
    by (cases r) auto
  have t: "map_of (inbound_substreams_delay asked_handler) 1 = Some (0, 10000)" by (simp add: asked_handler_fields)
  from due_inbound_substreams_expire [OF lq.delay_queue_axioms lq_prompt unanswered_run p asked_handler_fields(1) t] p
  show ?thesis by (auto simp: e_at_def)
qed

text \<open>C30. A connection may be given up only when it is idle: in every reachable state in which
  \<open>connection_keep_alive\<close> sets a deadline, nothing is queued, being dialed, open or to be reported as an
  event. And every substream that waits for a response is watched by a timer of the queue: every inbound
  substream whose request has not been answered has a key, every key that is stored is the key of a
  timer of that substream, and every outbound substream has its timer.\<close>

theorem keep_alive_and_timers:
  assumes "delay_queue dq items"
    and "run_calls (handler_step S dq) cs (handler_new dq timeout, []) = Some (evs, h, outs)"
  shows "connection_keep_alive h \<noteq> KaNo \<and> (connection_keep_alive h \<noteq> KaYes \<longrightarrow> idle h \<and> outs = []) \<and>
         (\<forall>rid s key proto. hm_get (inbound_substreams h) rid = Some (ResponseIdle s, key, proto) \<longrightarrow>
            (\<exists>k t. key = Some k \<and> items (inbound_substreams_delay h) k = Some (rid, t))) \<and>
         (\<forall>rid st k proto. hm_get (inbound_substreams h) rid = Some (st, Some k, proto) \<longrightarrow>
            (\<exists>t. items (inbound_substreams_delay h) k = Some (rid, t))) \<and>
         (\<forall>oid info. hm_get (outbound_substreams h) oid = Some info \<longrightarrow>
            (\<exists>t. items (outbound_substreams_delay h) (oi_delay_key info) = Some (oid, t)))"
proof (intro conjI)
  show "\<forall>rid s key proto. hm_get (inbound_substreams h) rid = Some (ResponseIdle s, key, proto) \<longrightarrow>
      (\<exists>k t. key = Some k \<and> items (inbound_substreams_delay h) k = Some (rid, t))"
    using idle_timer [OF assms] by metis
qed (use env_run_inv [OF assms] in \<open>auto simp: machine_inv_def handler_inv_def core_inv_def in_ok_def out_ok_def
      connection_keep_alive_def idle_def\<close>)

theorem keep_alive_and_timers_witness:
  "run_calls (handler_step ref_streams lq_ops) unanswered (handler_new lq_ops 5000, []) = Some ([[]], asked_handler, []) \<and>
   hm_get (inbound_substreams asked_handler) 0 = Some (ResponseIdle [], Some 1, PStatus) \<and>
   connection_keep_alive asked_handler = KaYes \<and> (\<exists>t. map_of (inbound_substreams_delay asked_handler) 1 = Some (0, t))"
proof -
  have "\<not> idle asked_handler" by (simp add: asked_handler_def idle_def)
  with keep_alive_and_timers [OF lq.delay_queue_axioms unanswered_run] unanswered_run asked_handler_fields(1) show ?thesis
    by blast
qed

text \<open>C34. Retrying a dial after an IO error takes a second slot without giving back the first, and when all
  eight slots are lost this way nothing is ever dialed again: from a reachable state with no dial
  outstanding and the counter at eight, no continuation dials anything, whatever is requested.\<close>

theorem lost_slots_never_recover:
  assumes "delay_queue dq items"
    and "run_calls (handler_step S dq) cs (handler_new dq timeout, []) = Some (evs, h, [])" and "dial_negotiated h = 8"
    and "run_calls (handler_step S dq) cs' (h, []) = Some (evs', h', outs')"
  shows "dials evs' = [] \<and> outs' = [] \<and> dial_negotiated h' = 8"
  by (rule handler_env.stuck_run [OF handler_env.intro [OF assms(1)] env_run_inv [OF assms(1,2)] assms(3,4)])

definition leak_round :: "(rpc_coded_response list, (rpc_error + rpc_coded_response) list) handler_call list" where
  "leak_round = HcEvent (e_at 0) (SendRequest Router a_status) #
     concat (replicate 3 [HcPoll (e_at 0), HcDialError (e_at 0) (UpgrApply (IoError ''broken pipe'')) 0]) @ [HcPoll (e_at 0)]"

definition after_leak :: "(rpc_coded_response list, (rpc_error + rpc_coded_response) list) handler_call list" where
  "after_leak = HcEvent (e_at 1) (SendRequest Behaviour MetaDataRequest) # replicate 4 (HcPoll (e_at 60000))"

lemma leak_run:
  "map_option (\<lambda>(evs, h, outs). (outs, dial_negotiated h, sum_list (map (reported Router) evs), dial_queue h,
       map_option (fst \<circ> snd) (run_calls (handler_step ref_streams lq_ops) after_leak (h, outs)) = None))
     (run_calls (handler_step ref_streams lq_ops) (concat (replicate 4 leak_round)) (handler_new lq_ops 5000, [])) =
   Some ([], 8, 3, [(Router, a_status)], False)"
  by code_simp

theorem lost_slots_never_recover_witness:
  "\<exists>evs h evs' h'. run_calls (handler_step ref_streams lq_ops) (concat (replicate 4 leak_round)) (handler_new lq_ops 5000, [])
       = Some (evs, h, []) \<and>
     dial_queue h = [(Router, a_status)] \<and>
     run_calls (handler_step ref_streams lq_ops) after_leak (h, []) = Some (evs', h', []) \<and> dials evs' = []"
proof -
  from leak_run obtain evs h evs' h' outs' where
    r: "run_calls (handler_step ref_streams lq_ops) (concat (replicate 4 leak_round)) (handler_new lq_ops 5000, [])
         = Some (evs, h, [])" "dial_negotiated h = 8" "dial_queue h = [(Router, a_status)]"
      "run_calls (handler_step ref_streams lq_ops) after_leak (h, []) = Some (evs', h', outs')"
    by auto
  from lost_slots_never_recover [OF lq.delay_queue_axioms r(1,2,4)] r show ?thesis by blast
qed

definition slow_close :: "(rpc_coded_response list, (rpc_error + rpc_coded_response) list) stream_ops" where
  "slow_close = ref_streams\<lparr> out_poll_close := (\<lambda>s. (Pending, s)) \<rparr>"

text \<open>A request can have two outcomes: when the peer has answered but the substream does not close within
  the response timeout, the request is reported as timed out after its response was delivered.\<close>

theorem answered_request_times_out:
  "map_option (\<lambda>(evs, m). concat evs)
     (run_calls (handler_step slow_close lq_ops) (lost_run @ [HcPoll (e_at 10001)]) (handler_new lq_ops 5000, [])) =
   Some [HOutboundSubstreamRequest (Router, a_status), HCustom (Inr (ReceivedResponse Router (StatusResponse [7]))),
         HCustom (Inl (OutboundErr Router PStatus StreamTimeout))]"
  by code_simp

end
