(* ===== verification/Connection_Handler.thy ===== *)
theory Connection_Handler
  imports Rpc_Behaviour Handler_Properties
begin

text \<open>
  \<open>core/network/src/behaviour/handler/{delegate,mod}.rs\<close>: the handler of a connection, which combines
  the handlers of gossipsub, of the RPC and of identify. The gossipsub and identify handlers are
  libp2p's: each is a record of the operations that are called on it, over one opaque type of the
  substreams, events and infos it exchanges with the rest. \<open>EitherOutput\<close>, \<open>EitherUpgrade\<close> and
  \<open>EitherError\<close> are sums. An \<open>unreachable!\<close> is \<open>None\<close>.
\<close>

section \<open>Keep-alive values\<close>

text \<open>libp2p orders them: \<open>No\<close> below every deadline, \<open>Yes\<close> above.\<close>

instantiation keep_alive_mode :: linorder
begin

fun less_eq_keep_alive_mode :: "keep_alive_mode \<Rightarrow> keep_alive_mode \<Rightarrow> bool" where
  "less_eq_keep_alive_mode KaNo _ = True"
| "less_eq_keep_alive_mode _ KaYes = True"
| "less_eq_keep_alive_mode (KaUntil s) (KaUntil t) = (s \<le> t)"
| "less_eq_keep_alive_mode _ _ = False"

definition less_keep_alive_mode :: "keep_alive_mode \<Rightarrow> keep_alive_mode \<Rightarrow> bool" where
  "less_keep_alive_mode a b \<longleftrightarrow> a \<le> b \<and> \<not> b \<le> a"

instance
proof
  fix a b c :: keep_alive_mode
  show "a < b \<longleftrightarrow> a \<le> b \<and> \<not> b \<le> a" by (rule less_keep_alive_mode_def)
  show "a \<le> a" by (cases a) auto
  show "a \<le> b \<Longrightarrow> b \<le> c \<Longrightarrow> a \<le> c" by (cases a; cases b; cases c) auto
  show "a \<le> b \<Longrightarrow> b \<le> a \<Longrightarrow> a = b" by (cases a; cases b) auto
  show "a \<le> b \<or> b \<le> a" by (cases a; cases b) auto
qed

end

lemma ka_le_simps [simp]:
  "(KaYes \<le> a) = (a = KaYes)" "a \<le> KaYes" "KaNo \<le> a" "(a \<le> KaNo) = (a = KaNo)"
  by (cases a; simp)+

lemma max_ka_Yes [simp]: "max KaYes a = KaYes" "max a KaYes = KaYes"
  by (simp_all add: max_def)

section \<open>Delegation\<close>

datatype ('m, 'err) third_event = TCustom 'm | TClose 'err | TOutbound 'm 'm

record ('h, 'm) third_handler =
  th_timeout :: "'h \<Rightarrow> duration"
  th_inbound :: "env \<Rightarrow> 'm \<Rightarrow> 'h \<Rightarrow> 'h"
  th_outbound :: "env \<Rightarrow> 'm \<Rightarrow> 'm \<Rightarrow> 'h \<Rightarrow> 'h"
  th_event :: "env \<Rightarrow> 'm \<Rightarrow> 'h \<Rightarrow> 'h"
  th_dial_error :: "env \<Rightarrow> 'm \<Rightarrow> 'm upgr_err \<Rightarrow> 'h \<Rightarrow> 'h"
  th_keep_alive :: "'h \<Rightarrow> keep_alive_mode"
  th_poll :: "env \<Rightarrow> 'h \<Rightarrow> ('m, 'm) third_event poll \<times> 'h"

record ('g, 'q, 'si, 'so, 'i) delegating_handler =
  gossip_handler :: 'g
  dh_rpc :: "('q, 'si, 'so) rpc_handler"
  identify_handler :: 'i

datatype ('gm, 'im) delegate_in = DiGossipsub 'gm | DiRPC rpc_send | DiIdentify 'im

datatype ('gm, 'im) delegate_out = DoGossipsub 'gm | DoRPC "handler_err + rpc_received" | DoIdentify 'im

datatype ('gm, 'im) delegate_error = DeGossipsub 'gm | DeRPC rpc_error | DeIdentify 'im

type_synonym ('gm, 'im) delegate_out_proto = "'gm + rpc_request + 'im"
type_synonym ('gm, 'im) delegate_out_info = "'gm + (request_id \<times> rpc_request) + 'im"

text \<open>What the delegating handler is built from.\<close>

record ('g, 'gm, 'q, 'si, 'so, 'i, 'im) conn_lib =
  cl_gossip :: "('g, 'gm) third_handler"
  cl_streams :: "('si, 'so) stream_ops"
  cl_dq :: "('q, substream_id) delay_queue_ops"
  cl_identify :: "('i, 'im) third_handler"
  cl_rpc_timeout :: duration

definition delegating_new ::
  "('g, 'gm, 'q, 'si, 'so, 'i, 'im) conn_lib \<Rightarrow> 'g \<Rightarrow> 'i \<Rightarrow> ('g, 'q, 'si, 'so, 'i) delegating_handler" where
  "delegating_new L gossip ident =
     \<lparr> gossip_handler = gossip, dh_rpc = rpc_new_handler (cl_dq L), identify_handler = ident \<rparr>"

text \<open>\<open>listen_protocol\<close>: the protocols are offered as a nested choice, under the longest timeout. The
  timeout of the RPC upgrade is the default of libp2p (\<open>cl_rpc_timeout\<close>).\<close>

definition delegate_listen_timeout ::
  "('g, 'gm, 'q, 'si, 'so, 'i, 'im) conn_lib \<Rightarrow> ('g, 'q, 'si, 'so, 'i) delegating_handler \<Rightarrow> duration" where
  "delegate_listen_timeout L d =
     max (max (th_timeout (cl_gossip L) (gossip_handler d)) (cl_rpc_timeout L)) (th_timeout (cl_identify L) (identify_handler d))"

definition delegate_inbound ::
  "('g, 'gm, 'q, 'si, 'so, 'i, 'im) conn_lib \<Rightarrow> env \<Rightarrow> 'gm + (rpc_request \<times> 'si) + 'im \<Rightarrow>
   ('g, 'q, 'si, 'so, 'i) delegating_handler \<Rightarrow> ('g, 'q, 'si, 'so, 'i) delegating_handler option" where
  "delegate_inbound L e out d =
     (case out of
        Inl g \<Rightarrow> Some (d\<lparr> gossip_handler := th_inbound (cl_gossip L) e g (gossip_handler d) \<rparr>)
      | Inr (Inl r) \<Rightarrow>
          map_option (\<lambda>h. d\<lparr> dh_rpc := h \<rparr>) (inject_fully_negotiated_inbound (cl_dq L) e r (dh_rpc d))
      | Inr (Inr i) \<Rightarrow> Some (d\<lparr> identify_handler := th_inbound (cl_identify L) e i (identify_handler d) \<rparr>))"

definition delegate_outbound ::
  "('g, 'gm, 'q, 'si, 'so, 'i, 'im) conn_lib \<Rightarrow> env \<Rightarrow> 'gm + 'so + 'im \<Rightarrow> ('gm, 'im) delegate_out_info \<Rightarrow>
   ('g, 'q, 'si, 'so, 'i) delegating_handler \<Rightarrow> ('g, 'q, 'si, 'so, 'i) delegating_handler option" where
  "delegate_outbound L e protocol info d =
     (case (protocol, info) of
        (Inl p, Inl i) \<Rightarrow> Some (d\<lparr> gossip_handler := th_outbound (cl_gossip L) e p i (gossip_handler d) \<rparr>)
      | (Inr (Inl p), Inr (Inl i)) \<Rightarrow>
          map_option (\<lambda>h. d\<lparr> dh_rpc := h \<rparr>) (inject_fully_negotiated_outbound (cl_dq L) e p i (dh_rpc d))
      | (Inr (Inr p), Inr (Inr i)) \<Rightarrow>
          Some (d\<lparr> identify_handler := th_outbound (cl_identify L) e p i (identify_handler d) \<rparr>)
      | _ \<Rightarrow> None)"

definition delegate_event ::
  "('g, 'gm, 'q, 'si, 'so, 'i, 'im) conn_lib \<Rightarrow> env \<Rightarrow> ('gm, 'im) delegate_in \<Rightarrow>
   ('g, 'q, 'si, 'so, 'i) delegating_handler \<Rightarrow> ('g, 'q, 'si, 'so, 'i) delegating_handler option" where
  "delegate_event L e event d =
     (case event of
        DiGossipsub ev \<Rightarrow> Some (d\<lparr> gossip_handler := th_event (cl_gossip L) e ev (gossip_handler d) \<rparr>)
      | DiRPC ev \<Rightarrow> map_option (\<lambda>h. d\<lparr> dh_rpc := h \<rparr>) (inject_event e ev (dh_rpc d))
      | DiIdentify ev \<Rightarrow> Some (d\<lparr> identify_handler := th_event (cl_identify L) e ev (identify_handler d) \<rparr>))"

text \<open>The error of the combined upgrade as the error of one of its parts.\<close>

fun narrow :: "('e \<Rightarrow> 'a option) \<Rightarrow> 'e upgr_err \<Rightarrow> 'a upgr_err option" where
  "narrow f (UpgrApply err) = map_option UpgrApply (f err)"
| "narrow f UpgrTimer = Some UpgrTimer"
| "narrow f UpgrTimeout = Some UpgrTimeout"
| "narrow f SelectFailed = Some SelectFailed"
| "narrow f (SelectIoError m) = Some (SelectIoError m)"
| "narrow f SelectInvalidProtocol = Some SelectInvalidProtocol"
| "narrow f SelectInvalidMessage = Some SelectInvalidMessage"
| "narrow f SelectTooManyProtocols = Some SelectTooManyProtocols"

fun side_gossip :: "'gm + 'r + 'im \<Rightarrow> 'gm option" where
  "side_gossip (Inl x) = Some x" | "side_gossip _ = None"

fun side_rpc :: "'gm + 'r + 'im \<Rightarrow> 'r option" where
  "side_rpc (Inr (Inl x)) = Some x" | "side_rpc _ = None"

fun side_identify :: "'gm + 'r + 'im \<Rightarrow> 'im option" where
  "side_identify (Inr (Inr x)) = Some x" | "side_identify _ = None"

definition delegate_dial_error ::
  "('g, 'gm, 'q, 'si, 'so, 'i, 'im) conn_lib \<Rightarrow> env \<Rightarrow> ('gm, 'im) delegate_out_info \<Rightarrow> ('gm + rpc_error + 'im) upgr_err \<Rightarrow>
   ('g, 'q, 'si, 'so, 'i) delegating_handler \<Rightarrow> ('g, 'q, 'si, 'so, 'i) delegating_handler option" where
  "delegate_dial_error L e info err d =
     (case info of
        Inl i \<Rightarrow> map_option (\<lambda>er. d\<lparr> gossip_handler := th_dial_error (cl_gossip L) e i er (gossip_handler d) \<rparr>) (narrow side_gossip err)
      | Inr (Inl i) \<Rightarrow>
          (case narrow side_rpc err of
             None \<Rightarrow> None
           | Some er \<Rightarrow> map_option (\<lambda>h. d\<lparr> dh_rpc := h \<rparr>) (inject_dial_upgrade_error e i er (dh_rpc d)))
      | Inr (Inr i) \<Rightarrow>
          map_option (\<lambda>er. d\<lparr> identify_handler := th_dial_error (cl_identify L) e i er (identify_handler d) \<rparr>) (narrow side_identify err))"

definition delegate_keep_alive ::
  "('g, 'gm, 'q, 'si, 'so, 'i, 'im) conn_lib \<Rightarrow> ('g, 'q, 'si, 'so, 'i) delegating_handler \<Rightarrow> keep_alive_mode" where
  "delegate_keep_alive L d =
     max (max (th_keep_alive (cl_gossip L) (gossip_handler d)) (connection_keep_alive (dh_rpc d)))
       (th_keep_alive (cl_identify L) (identify_handler d))"

datatype ('gm, 'im) conn_event =
    CCustom "('gm, 'im) delegate_out"
  | CClose "('gm, 'im) delegate_error"
  | COutbound "('gm, 'im) delegate_out_proto" "('gm, 'im) delegate_out_info"

text \<open>The handlers in turn: the first event that there is.\<close>

definition delegate_poll_identify ::
  "('g, 'gm, 'q, 'si, 'so, 'i, 'im) conn_lib \<Rightarrow> env \<Rightarrow> ('g, 'q, 'si, 'so, 'i) delegating_handler \<Rightarrow>
   ('gm, 'im) conn_event poll \<times> ('g, 'q, 'si, 'so, 'i) delegating_handler" where
  "delegate_poll_identify L e d =
     (case th_poll (cl_identify L) e (identify_handler d) of
        (r, i') \<Rightarrow>
          ((case r of
              Ready (TCustom ev) \<Rightarrow> Ready (CCustom (DoIdentify ev))
            | Ready (TClose err) \<Rightarrow> Ready (CClose (DeIdentify err))
            | Ready (TOutbound p info) \<Rightarrow> Ready (COutbound (Inr (Inr p)) (Inr (Inr info)))
            | Pending \<Rightarrow> Pending), d\<lparr> identify_handler := i' \<rparr>))"

definition delegate_poll_rpc ::
  "('g, 'gm, 'q, 'si, 'so, 'i, 'im) conn_lib \<Rightarrow> env \<Rightarrow> ('g, 'q, 'si, 'so, 'i) delegating_handler \<Rightarrow>
   (('gm, 'im) conn_event poll \<times> ('g, 'q, 'si, 'so, 'i) delegating_handler) option" where
  "delegate_poll_rpc L e d =
     (case handler_poll (cl_streams L) (cl_dq L) e (dh_rpc d) of
        None \<Rightarrow> None
      | Some (r, h') \<Rightarrow>
          Some (case r of
             Ready (HCustom ev) \<Rightarrow> (Ready (CCustom (DoRPC ev)), d\<lparr> dh_rpc := h' \<rparr>)
           | Ready (HClose err) \<Rightarrow> (Ready (CClose (DeRPC err)), d\<lparr> dh_rpc := h' \<rparr>)
           | Ready (HOutboundSubstreamRequest info) \<Rightarrow>
               (Ready (COutbound (Inr (Inl (snd info))) (Inr (Inl info))), d\<lparr> dh_rpc := h' \<rparr>)
           | Pending \<Rightarrow> delegate_poll_identify L e (d\<lparr> dh_rpc := h' \<rparr>)))"

definition delegate_poll ::
  "('g, 'gm, 'q, 'si, 'so, 'i, 'im) conn_lib \<Rightarrow> env \<Rightarrow> ('g, 'q, 'si, 'so, 'i) delegating_handler \<Rightarrow>
   (('gm, 'im) conn_event poll \<times> ('g, 'q, 'si, 'so, 'i) delegating_handler) option" where
  "delegate_poll L e d =
     (case th_poll (cl_gossip L) e (gossip_handler d) of
        (Ready (TCustom ev), g') \<Rightarrow> Some (Ready (CCustom (DoGossipsub ev)), d\<lparr> gossip_handler := g' \<rparr>)
      | (Ready (TClose err), g') \<Rightarrow> Some (Ready (CClose (DeGossipsub err)), d\<lparr> gossip_handler := g' \<rparr>)
      | (Ready (TOutbound p info), g') \<Rightarrow> Some (Ready (COutbound (Inl p) (Inl info)), d\<lparr> gossip_handler := g' \<rparr>)
      | (Pending, g') \<Rightarrow> delegate_poll_rpc L e (d\<lparr> gossip_handler := g' \<rparr>))"

section \<open>The behaviour handler\<close>

record ('g, 'q, 'si, 'so, 'i) behaviour_handler =
  bh_delegate :: "('g, 'q, 'si, 'so, 'i) delegating_handler"
  shutting_down :: bool

datatype ('gm, 'im) behaviour_handler_in = BhDelegate "('gm, 'im) delegate_in" | BhShutdown "(request_id \<times> rpc_request) option"

definition bh_new ::
  "('g, 'gm, 'q, 'si, 'so, 'i, 'im) conn_lib \<Rightarrow> 'g \<Rightarrow> 'i \<Rightarrow> ('g, 'q, 'si, 'so, 'i) behaviour_handler" where
  "bh_new L gossip ident = \<lparr> bh_delegate = delegating_new L gossip ident, shutting_down = False \<rparr>"

definition bh_inject_event ::
  "('g, 'gm, 'q, 'si, 'so, 'i, 'im) conn_lib \<Rightarrow> env \<Rightarrow> ('gm, 'im) behaviour_handler_in \<Rightarrow>
   ('g, 'q, 'si, 'so, 'i) behaviour_handler \<Rightarrow> ('g, 'q, 'si, 'so, 'i) behaviour_handler option" where
  "bh_inject_event L e event b =
     (case event of
        BhDelegate ev \<Rightarrow> map_option (\<lambda>d. b\<lparr> bh_delegate := d \<rparr>) (delegate_event L e ev (bh_delegate b))
      | BhShutdown last_message \<Rightarrow>
          Some (b\<lparr> shutting_down := True,
                   bh_delegate := (bh_delegate b)\<lparr> dh_rpc := shutdown e last_message (dh_rpc (bh_delegate b)) \<rparr> \<rparr>))"

definition bh_keep_alive ::
  "('g, 'gm, 'q, 'si, 'so, 'i, 'im) conn_lib \<Rightarrow> ('g, 'q, 'si, 'so, 'i) behaviour_handler \<Rightarrow> keep_alive_mode" where
  "bh_keep_alive L b =
     (if shutting_down b
      then max (connection_keep_alive (dh_rpc (bh_delegate b))) (th_keep_alive (cl_identify L) (identify_handler (bh_delegate b)))
      else KaYes)"

definition bh_inbound ::
  "('g, 'gm, 'q, 'si, 'so, 'i, 'im) conn_lib \<Rightarrow> env \<Rightarrow> 'gm + (rpc_request \<times> 'si) + 'im \<Rightarrow>
   ('g, 'q, 'si, 'so, 'i) behaviour_handler \<Rightarrow> ('g, 'q, 'si, 'so, 'i) behaviour_handler option" where
  "bh_inbound L e out b = map_option (\<lambda>d. b\<lparr> bh_delegate := d \<rparr>) (delegate_inbound L e out (bh_delegate b))"

definition bh_outbound ::
  "('g, 'gm, 'q, 'si, 'so, 'i, 'im) conn_lib \<Rightarrow> env \<Rightarrow> 'gm + 'so + 'im \<Rightarrow> ('gm, 'im) delegate_out_info \<Rightarrow>
   ('g, 'q, 'si, 'so, 'i) behaviour_handler \<Rightarrow> ('g, 'q, 'si, 'so, 'i) behaviour_handler option" where
  "bh_outbound L e out info b = map_option (\<lambda>d. b\<lparr> bh_delegate := d \<rparr>) (delegate_outbound L e out info (bh_delegate b))"

definition bh_dial_error ::
  "('g, 'gm, 'q, 'si, 'so, 'i, 'im) conn_lib \<Rightarrow> env \<Rightarrow> ('gm, 'im) delegate_out_info \<Rightarrow> ('gm + rpc_error + 'im) upgr_err \<Rightarrow>
   ('g, 'q, 'si, 'so, 'i) behaviour_handler \<Rightarrow> ('g, 'q, 'si, 'so, 'i) behaviour_handler option" where
  "bh_dial_error L e info err b = map_option (\<lambda>d. b\<lparr> bh_delegate := d \<rparr>) (delegate_dial_error L e info err (bh_delegate b))"

text \<open>The events of the delegate are passed on as they are.\<close>

definition bh_poll ::
  "('g, 'gm, 'q, 'si, 'so, 'i, 'im) conn_lib \<Rightarrow> env \<Rightarrow> ('g, 'q, 'si, 'so, 'i) behaviour_handler \<Rightarrow>
   (('gm, 'im) conn_event poll \<times> ('g, 'q, 'si, 'so, 'i) behaviour_handler) option" where
  "bh_poll L e b = map_option (\<lambda>(r, d). (r, b\<lparr> bh_delegate := d \<rparr>)) (delegate_poll L e (bh_delegate b))"

section \<open>The handler as a machine\<close>

text \<open>
  The swarm upgrades the substreams that \<open>poll\<close> asks for: an \<open>EitherUpgrade\<close> gives an output or an
  error of its own side. The outstanding requests are kept with their upgrades; a report that does
  not fit stands for no call.
\<close>

fun side :: "'a + 'b + 'c \<Rightarrow> nat" where
  "side (Inl _) = 0" | "side (Inr (Inl _)) = 1" | "side (Inr (Inr _)) = 2"

definition err_fits :: "'a + 'b + 'c \<Rightarrow> ('x + 'y + 'z) upgr_err \<Rightarrow> bool" where
  "err_fits proto err = (case err of UpgrApply x \<Rightarrow> side x = side proto | _ \<Rightarrow> True)"

datatype ('gm, 'im, 'si, 'so) conn_call =
    CcInbound env "'gm + (rpc_request \<times> 'si) + 'im"
  | CcOutbound env "'gm + 'so + 'im" nat
  | CcDialError env "('gm + rpc_error + 'im) upgr_err" nat
  | CcEvent env "('gm, 'im) behaviour_handler_in"
  | CcPoll env

type_synonym ('g, 'gm, 'q, 'si, 'so, 'i, 'im) conn_machine =
  "('g, 'q, 'si, 'so, 'i) behaviour_handler \<times> (('gm, 'im) delegate_out_proto \<times> ('gm, 'im) delegate_out_info) list"

fun conn_step ::
  "('g, 'gm, 'q, 'si, 'so, 'i, 'im) conn_lib \<Rightarrow> ('gm, 'im, 'si, 'so) conn_call \<Rightarrow>
   ('g, 'gm, 'q, 'si, 'so, 'i, 'im) conn_machine \<Rightarrow>
   (('gm, 'im) conn_event list \<times> ('g, 'gm, 'q, 'si, 'so, 'i, 'im) conn_machine) option" where
  "conn_step L (CcInbound e out) (b, outs) = map_option (\<lambda>b'. ([], b', outs)) (bh_inbound L e out b)"
| "conn_step L (CcOutbound e out n) (b, outs) =
     (if n < length outs \<and> side out = side (fst (outs ! n))
      then map_option (\<lambda>b'. ([], b', without n outs)) (bh_outbound L e out (snd (outs ! n)) b)
      else Some ([], b, outs))"
| "conn_step L (CcDialError e err n) (b, outs) =
     (if n < length outs \<and> err_fits (fst (outs ! n)) err
      then map_option (\<lambda>b'. ([], b', without n outs)) (bh_dial_error L e (snd (outs ! n)) err b)
      else Some ([], b, outs))"
| "conn_step L (CcEvent e ev) (b, outs) = map_option (\<lambda>b'. ([], b', outs)) (bh_inject_event L e ev b)"
| "conn_step L (CcPoll e) (b, outs) =
     map_option (\<lambda>(r, b').
         (case r of
            Ready (COutbound p info) \<Rightarrow> ([COutbound p info], b', outs @ [(p, info)])
          | Ready ev \<Rightarrow> ([ev], b', outs)
          | Pending \<Rightarrow> ([], b', outs)))
       (bh_poll L e b)"

definition rpc_infos :: "(('gm, 'im) delegate_out_proto \<times> ('gm, 'im) delegate_out_info) list \<Rightarrow> (request_id \<times> rpc_request) list" where
  "rpc_infos outs = List.map_filter (side_rpc \<circ> snd) outs"

definition rpc_view :: "('g, 'gm, 'q, 'si, 'so, 'i, 'im) conn_machine \<Rightarrow> ('q, 'si, 'so) handler_machine" where
  "rpc_view s = (dh_rpc (bh_delegate (fst s)), rpc_infos (snd s))"

definition sides_ok :: "('g, 'gm, 'q, 'si, 'so, 'i, 'im) conn_machine \<Rightarrow> bool" where
  "sides_ok s \<longleftrightarrow> (\<forall>(p, info) \<in> set (snd s). side p = side info)"

text \<open>The calls of the RPC handler that a call of the behaviour handler leads to.\<close>

fun rpc_inner ::
  "('g, 'gm, 'q, 'si, 'so, 'i, 'im) conn_lib \<Rightarrow> ('gm, 'im, 'si, 'so) conn_call \<Rightarrow>
   ('g, 'gm, 'q, 'si, 'so, 'i, 'im) conn_machine \<Rightarrow> ('si, 'so) handler_call list" where
  "rpc_inner L (CcInbound e out) s = (case side_rpc out of Some (req, st) \<Rightarrow> [HcInbound e req st] | None \<Rightarrow> [])"
| "rpc_inner L (CcOutbound e out n) (b, outs) =
     (case side_rpc out of
        Some st \<Rightarrow> if n < length outs \<and> side (fst (outs ! n)) = 1 then [HcOutbound e st (length (rpc_infos (take n outs)))] else []
      | None \<Rightarrow> [])"
| "rpc_inner L (CcDialError e err n) (b, outs) =
     (if n < length outs \<and> err_fits (fst (outs ! n)) err \<and> side (fst (outs ! n)) = 1
      then (case narrow side_rpc err of Some er \<Rightarrow> [HcDialError e er (length (rpc_infos (take n outs)))] | None \<Rightarrow> [])
      else [])"
| "rpc_inner L (CcEvent e ev) s =
     (case ev of BhDelegate (DiRPC r) \<Rightarrow> [HcEvent e r] | BhShutdown m \<Rightarrow> [HcShutdown e m] | _ \<Rightarrow> [])"
| "rpc_inner L (CcPoll e) (b, outs) =
     (case fst (th_poll (cl_gossip L) e (gossip_handler (bh_delegate b))) of Pending \<Rightarrow> [HcPoll e] | _ \<Rightarrow> [])"

fun rpc_event :: "('gm, 'im) conn_event \<Rightarrow> handler_event list" where
  "rpc_event (CCustom (DoRPC ev)) = [HCustom ev]"
| "rpc_event (CClose (DeRPC err)) = [HClose err]"
| "rpc_event (COutbound _ (Inr (Inl info))) = [HOutboundSubstreamRequest info]"
| "rpc_event _ = []"

lemma rpc_infos_append [simp]: "rpc_infos (xs @ ys) = rpc_infos xs @ rpc_infos ys"
  by (simp add: rpc_infos_def List.map_filter_def)

lemma rpc_infos_simps [simp]:
  "rpc_infos [] = []" "rpc_infos ((p, Inl g) # xs) = rpc_infos xs" "rpc_infos ((p, Inr (Inr i)) # xs) = rpc_infos xs"
  "rpc_infos ((p, Inr (Inl r)) # xs) = r # rpc_infos xs"
  by (simp_all add: rpc_infos_def List.map_filter_def)

lemma side_cases: "side x = 0 \<longleftrightarrow> (\<exists>a. x = Inl a)" "side x = Suc 0 \<longleftrightarrow> (\<exists>b. x = Inr (Inl b))"
  "side x = 2 \<longleftrightarrow> (\<exists>c. x = Inr (Inr c))"
  by (cases x rule: side.cases; simp)+

lemma split_outs: "n < length outs \<Longrightarrow> outs = take n outs @ outs ! n # drop (Suc n) outs"
  by (rule id_take_nth_drop)

lemma rpc_infos_nth:
  assumes "n < length outs" "outs ! n = (p, Inr (Inl info))"
  shows "length (rpc_infos (take n outs)) < length (rpc_infos outs)"
    and "rpc_infos outs ! length (rpc_infos (take n outs)) = info"
    and "without (length (rpc_infos (take n outs))) (rpc_infos outs) = rpc_infos (without n outs)"
proof -
  have "rpc_infos outs = rpc_infos (take n outs) @ info # rpc_infos (drop (Suc n) outs)"
    using split_outs [OF assms(1)] assms(2) by (metis rpc_infos_append rpc_infos_simps(4))
  then show "length (rpc_infos (take n outs)) < length (rpc_infos outs)"
    and "rpc_infos outs ! length (rpc_infos (take n outs)) = info"
    and "without (length (rpc_infos (take n outs))) (rpc_infos outs) = rpc_infos (without n outs)"
    by (simp_all add: without_def)
qed

lemma rpc_infos_other:
  assumes "n < length outs" "side (snd (outs ! n)) \<noteq> 1"
  shows "rpc_infos (without n outs) = rpc_infos outs"
proof -
  have "rpc_infos (outs ! n # drop (Suc n) outs) = rpc_infos (drop (Suc n) outs)"
    using assms(2) by (cases "outs ! n") (auto simp: rpc_infos_def List.map_filter_def split: option.splits elim: side_rpc.elims)
  with split_outs [OF assms(1)] show ?thesis by (metis rpc_infos_append without_def)
qed


lemma sides_ok_without: "sides_ok (b, outs) \<Longrightarrow> sides_ok (b', without n outs)"
  by (auto simp: sides_ok_def without_def dest: in_set_takeD in_set_dropD)

lemma sides_ok_nth: "sides_ok (b, outs) \<Longrightarrow> n < length outs \<Longrightarrow> side (fst (outs ! n)) = side (snd (outs ! n))"
  unfolding sides_ok_def by (metis (mono_tags, lifting) case_prodE nth_mem prod.sel snd_conv)

lemma narrow_fits:
  "err_fits (Inl p) err \<Longrightarrow> narrow side_gossip err \<noteq> None"
  "err_fits (Inr (Inl r)) err \<Longrightarrow> narrow side_rpc err \<noteq> None"
  "err_fits (Inr (Inr i)) err \<Longrightarrow> narrow side_identify err \<noteq> None"
  by (auto simp: err_fits_def side_cases split: upgr_err.splits)

lemma rpc_view_simp [simp]: "rpc_view (b, outs) = (dh_rpc (bh_delegate b), rpc_infos outs)"
  by (simp add: rpc_view_def)

definition matches ::
  "('g, 'gm, 'q, 'si, 'so, 'i, 'im) conn_lib \<Rightarrow> ('gm, 'im, 'si, 'so) conn_call \<Rightarrow> ('g, 'gm, 'q, 'si, 'so, 'i, 'im) conn_machine \<Rightarrow> bool" where
  "matches L c t \<longleftrightarrow>
     (\<forall>os s. run_calls (handler_step (cl_streams L) (cl_dq L)) (rpc_inner L c t) (rpc_view t) = Some (os, s) \<longrightarrow>
        (\<exists>p t'. conn_step L c t = Some (p, t') \<and> rpc_view t' = s \<and> sides_ok t' \<and> concat (map rpc_event p) = concat os))"

lemma inbound_matches: "sides_ok t \<Longrightarrow> matches L (CcInbound e out) t"
  by (cases t; cases out rule: side.cases)
    (auto simp: matches_def bh_inbound_def delegate_inbound_def sides_ok_def split: option.splits)

lemma event_matches: "sides_ok t \<Longrightarrow> matches L (CcEvent e ev) t"
  by (cases t)
    (auto simp: matches_def bh_inject_event_def delegate_event_def sides_ok_def
      split: behaviour_handler_in.splits delegate_in.splits option.splits)

lemma outbound_matches:
  assumes "sides_ok t"
  shows "matches L (CcOutbound e out n) t"
proof (cases t)
  case (Pair b outs)
  show ?thesis
  proof (cases "n < length outs \<and> side out = side (fst (outs ! n))")
    case True
    then obtain p info where on: "outs ! n = (p, info)" "n < length outs" "side out = side p" by (cases "outs ! n") auto
    with assms Pair have si: "side p = side info" using sides_ok_nth [of b outs n] by simp
    note w = sides_ok_without [OF assms [unfolded Pair]]
    show ?thesis
    proof (cases out rule: side.cases)
      case (2 st)
      with on si have "side info = Suc 0" by simp
      then obtain r where "info = Inr (Inl r)" by (auto simp only: side_cases)
      with 2 on si w show ?thesis
        using rpc_infos_nth [of n outs p r]
        by (auto simp: Pair matches_def bh_outbound_def delegate_outbound_def split: option.splits)
    qed (use on si w rpc_infos_other [of n outs] in \<open>auto simp: Pair matches_def bh_outbound_def delegate_outbound_def side_cases\<close>)
  next
    case False
    then show ?thesis using assms
      by (cases out rule: side.cases) (auto simp: Pair matches_def)
  qed
qed

lemma dial_error_matches:
  assumes "sides_ok t"
  shows "matches L (CcDialError e err n) t"
proof (cases t)
  case (Pair b outs)
  show ?thesis
  proof (cases "n < length outs \<and> err_fits (fst (outs ! n)) err")
    case True
    then obtain p info where on: "outs ! n = (p, info)" "n < length outs" "err_fits p err" by (cases "outs ! n") auto
    with assms Pair have si: "side p = side info" using sides_ok_nth [of b outs n] by simp
    note w = sides_ok_without [OF assms [unfolded Pair]]
    show ?thesis
    proof (cases info rule: side.cases)
      case (2 r)
      with on si obtain q where "p = Inr (Inl q)" by (auto simp: side_cases)
      with 2 on w narrow_fits(2) [of q err] show ?thesis
        using rpc_infos_nth [of n outs p r]
        by (auto simp: Pair matches_def bh_dial_error_def delegate_dial_error_def split: option.splits)
    qed (use on si w rpc_infos_other [of n outs] narrow_fits [of _ err] in
        \<open>fastforce simp: Pair matches_def bh_dial_error_def delegate_dial_error_def side_cases\<close>)+
  next
    case False
    then show ?thesis using assms by (auto simp: Pair matches_def)
  qed
qed

lemma sides_ok_append: "sides_ok (b, outs) \<Longrightarrow> side p = side info \<Longrightarrow> sides_ok (b', outs @ [(p, info)])"
  by (auto simp: sides_ok_def)

lemma sides_ok_same: "sides_ok (b, outs) \<Longrightarrow> sides_ok (b', outs)"
  by (auto simp: sides_ok_def)

lemma poll_matches:
  assumes "sides_ok t"
  shows "matches L (CcPoll e) t"
proof (cases t)
  case (Pair b outs)
  note so = sides_ok_append [OF assms [unfolded Pair]] sides_ok_same [OF assms [unfolded Pair]]
  obtain r g where g: "th_poll (cl_gossip L) e (gossip_handler (bh_delegate b)) = (r, g)" by fastforce
  show ?thesis
  proof (cases r)
    case (Ready ev)
    then show ?thesis using g
      by (cases ev) (auto simp: Pair matches_def bh_poll_def delegate_poll_def intro!: so)
  next
    case Pending
    obtain ri i where i: "th_poll (cl_identify L) e (identify_handler (bh_delegate b)) = (ri, i)" by fastforce
    note polls = Pending g i Pair matches_def bh_poll_def delegate_poll_def delegate_poll_rpc_def delegate_poll_identify_def
    show ?thesis
    proof (cases "handler_poll (cl_streams L) (cl_dq L) e (dh_rpc (bh_delegate b))")
      case (Some x)
      then obtain rr h' where h: "handler_poll (cl_streams L) (cl_dq L) e (dh_rpc (bh_delegate b)) = Some (rr, h')" by (cases x) auto
      show ?thesis
      proof (cases rr)
        case (Ready ev)
        with h show ?thesis by (cases ev) (auto simp: polls intro!: so)
      next
        case rp: Pending
        show ?thesis
        proof (cases ri)
          case (Ready ev)
          with h rp show ?thesis by (cases ev) (auto simp: polls intro!: so)
        qed (use h rp in \<open>auto simp: polls intro!: so\<close>)
      qed
    qed (simp add: polls)
  qed
qed

locale conn_env = handler_env "cl_dq L" items "cl_streams L"
  for L :: "('g, 'gm, 'q, 'si, 'so, 'i, 'im) conn_lib"
    and items :: "'q \<Rightarrow> dq_key \<Rightarrow> (substream_id \<times> instant) option"

sublocale conn_env \<subseteq> cs: op_simulation "handler_step (cl_streams L) (cl_dq L)" "machine_inv items"
  "conn_step L" sides_ok rpc_view "rpc_inner L" "\<lambda>p. concat (map rpc_event p)"
proof
  fix t c os s
  assume "sides_ok t" and run: "run_calls (handler_step (cl_streams L) (cl_dq L)) (rpc_inner L c t) (rpc_view t) = Some (os, s)"
  then have "matches L c t"
    by (cases c) (simp_all only: inbound_matches event_matches outbound_matches dial_error_matches poll_matches)
  with run show "\<exists>p t'. conn_step L c t = Some (p, t') \<and> rpc_view t' = s \<and> sides_ok t' \<and> concat (map rpc_event p) = concat os"
    unfolding matches_def by blast
qed

context conn_env
begin

lemma conn_start: "sides_ok (bh_new L gossip ident, []) \<and> machine_inv items (rpc_view (bh_new L gossip ident, []))"
  using machine_start_inv by (simp add: sides_ok_def bh_new_def delegating_new_def rpc_new_handler_def)

lemma conn_run:
  "\<exists>evs b outs as os. run_calls (conn_step L) cs (bh_new L gossip ident, []) = Some (evs, b, outs) \<and>
     run_calls (handler_step (cl_streams L) (cl_dq L)) as (rpc_new_handler (cl_dq L), []) = Some (os, dh_rpc (bh_delegate b), rpc_infos outs) \<and>
     concat os = concat (map rpc_event (concat evs))"
  using cs.run_sim [OF conjunct1 [OF conn_start] conjunct2 [OF conn_start], of cs gossip ident]
  by (fastforce simp: bh_new_def delegating_new_def concat_map_concat comp_def)

end

section \<open>Concrete handlers of gossipsub and identify\<close>

text \<open>For the examples: a handler that passes each event it is sent, and each substream it is given, to
  the swarm, and asks for a substream when it is sent an even number.\<close>

fun echo :: "nat \<Rightarrow> (nat, nat) third_event" where
  "echo n = (if even n then TOutbound n n else TCustom n)"

definition echo_handler :: "((nat, nat) third_event list, nat) third_handler" where
  "echo_handler = \<lparr> th_timeout = (\<lambda>_. 10000), th_inbound = (\<lambda>_ m h. h @ [TCustom m]), th_outbound = (\<lambda>_ p i h. h @ [TCustom p]),
     th_event = (\<lambda>_ m h. h @ [echo m]), th_dial_error = (\<lambda>_ i _ h. h @ [TClose i]),
     th_keep_alive = (\<lambda>h. if h = [] then KaNo else KaYes),
     th_poll = (\<lambda>_ h. case h of [] \<Rightarrow> (Pending, []) | ev # evs \<Rightarrow> (Ready ev, evs)) \<rparr>"

definition ref_lib ::
  "((nat, nat) third_event list, nat, nat list_queue, rpc_coded_response list, (rpc_error + rpc_coded_response) list,
    (nat, nat) third_event list, nat) conn_lib" where
  "ref_lib = \<lparr> cl_gossip = echo_handler, cl_streams = ref_streams, cl_dq = lq_ops, cl_identify = echo_handler, cl_rpc_timeout = 10000 \<rparr>"

interpretation ref_conn: conn_env ref_lib map_of
  by (rule conn_env.intro) (simp add: ref_lib_def ref_handler.handler_env_axioms)

section \<open>Properties\<close>

lemma conn_env_of: "delay_queue (cl_dq L) items \<Longrightarrow> conn_env L items"
  by (intro conn_env.intro handler_env.intro)

text \<open>C3. Whatever the swarm, the peer and the application do, the connection handler reaches none of its
  \<open>unreachable!\<close> and panics nowhere, and it drives its RPC handler as the RPC handler expects: there is
  a run of the RPC handler that leads to the same state, has the same substreams outstanding and
  produces exactly the RPC events that the connection handler passes on.\<close>

theorem connection_handler_refines_rpc:
  assumes "delay_queue (cl_dq L) items"
  shows "\<exists>evs b outs as os. run_calls (conn_step L) cs (bh_new L gossip ident, []) = Some (evs, b, outs) \<and>
     run_calls (handler_step (cl_streams L) (cl_dq L)) as (rpc_new_handler (cl_dq L), []) = Some (os, dh_rpc (bh_delegate b), rpc_infos outs) \<and>
     concat os = concat (map rpc_event (concat evs))"
  by (rule conn_env.conn_run [OF conn_env_of [OF assms]])

definition busy_connection ::
  "(nat, nat, rpc_coded_response list, (rpc_error + rpc_coded_response) list) conn_call list" where
  "busy_connection =
     [CcEvent (e_at 0) (BhDelegate (DiRPC (SendRequest Router a_status))), CcEvent (e_at 0) (BhDelegate (DiGossipsub 4)),
      CcPoll (e_at 0), CcPoll (e_at 0), CcDialError (e_at 1) (UpgrApply (Inl 7)) 0,
      CcOutbound (e_at 1) (Inr (Inl [Inr (Success (StatusResponse [7]))])) 0, CcPoll (e_at 1), CcPoll (e_at 1),
      CcInbound (e_at 2) (Inr (Inr 9)), CcEvent (e_at 2) (BhShutdown (Some bye)), CcPoll (e_at 2)]"

theorem connection_handler_refines_rpc_witness:
  "\<exists>evs b outs as os. run_calls (conn_step ref_lib) busy_connection (bh_new ref_lib [] [], []) = Some (evs, b, outs) \<and>
     run_calls (handler_step (cl_streams ref_lib) (cl_dq ref_lib)) as (rpc_new_handler (cl_dq ref_lib), []) =
       Some (os, dh_rpc (bh_delegate b), rpc_infos outs) \<and>
     concat os = concat (map rpc_event (concat evs))"
  by (rule connection_handler_refines_rpc [of _ map_of]) (simp add: ref_lib_def lq.delay_queue_axioms)

fun asks_shutdown :: "('gm, 'im, 'si, 'so) conn_call \<Rightarrow> bool" where
  "asks_shutdown (CcEvent _ (BhShutdown _)) = True"
| "asks_shutdown _ = False"

lemma bh_poll_shutting_down: "bh_poll L e b = Some (r, b') \<Longrightarrow> shutting_down b' = shutting_down b"
  by (auto simp: bh_poll_def)

lemma conn_step_poll:
  assumes "conn_step L (CcPoll e) (b, outs) = Some (evs, b', outs')"
  obtains r where "bh_poll L e b = Some (r, b')"
  using assms by (auto split: poll.splits conn_event.splits)
    (metis conn_event.exhaust poll.exhaust)

lemma conn_step_shutting_down:
  assumes "conn_step L c (b, outs) = Some (evs, b', outs')"
  shows "shutting_down b' \<longleftrightarrow> shutting_down b \<or> asks_shutdown c"
proof (cases c)
  case (CcPoll e)
  with assms conn_step_poll obtain r where "bh_poll L e b = Some (r, b')" by blast
  with CcPoll show ?thesis by (simp add: bh_poll_shutting_down)
qed (use assms in \<open>auto simp: bh_inbound_def bh_outbound_def bh_dial_error_def bh_inject_event_def
      split: if_splits option.splits behaviour_handler_in.splits\<close>)

lemma conn_run_shutting_down:
  "run_calls (conn_step L) cs (b, outs) = Some (evs, b', outs') \<Longrightarrow> shutting_down b' \<longleftrightarrow> shutting_down b \<or> list_ex asks_shutdown cs"
proof (induction cs arbitrary: b outs evs)
  case (Cons c cs)
  from Cons.prems obtain ev1 b1 outs1 evs1 where
    1: "conn_step L c (b, outs) = Some (ev1, b1, outs1)" "run_calls (conn_step L) cs (b1, outs1) = Some (evs1, b', outs')"
    by (auto split: option.splits)
  from conn_step_shutting_down [OF 1(1)] Cons.IH [OF 1(2)] show ?case by simp
qed auto

text \<open>The connection is kept alive without limit until the behaviour asks for its shutdown, whatever the
  three handlers say; from then on only the RPC and the identify handler keep it alive, and once these
  two are done it may be closed even when gossipsub wants to keep it.\<close>

theorem connection_kept_until_shutdown:
  assumes "run_calls (conn_step L) cs (bh_new L gossip ident, []) = Some (evs, b, outs)"
  shows "bh_keep_alive L b =
     (if list_ex asks_shutdown cs
      then max (connection_keep_alive (dh_rpc (bh_delegate b))) (th_keep_alive (cl_identify L) (identify_handler (bh_delegate b)))
      else KaYes)"
  using conn_run_shutting_down [OF assms] by (simp add: bh_keep_alive_def bh_new_def)

definition gossip_only :: "(nat, nat, rpc_coded_response list, (rpc_error + rpc_coded_response) list) conn_call list" where
  "gossip_only = [CcEvent (e_at 0) (BhDelegate (DiGossipsub 1)), CcEvent (e_at 5) (BhShutdown None)]"

theorem connection_kept_until_shutdown_witness:
  "\<exists>evs b outs. run_calls (conn_step ref_lib) gossip_only (bh_new ref_lib [] [], []) = Some (evs, b, outs) \<and>
     bh_keep_alive ref_lib b = KaUntil 30005 \<and> delegate_keep_alive ref_lib (bh_delegate b) = KaYes"
proof -
  have "case run_calls (conn_step ref_lib) gossip_only (bh_new ref_lib [] [], []) of
       None \<Rightarrow> False
     | Some (evs, b, outs) \<Rightarrow> connection_keep_alive (dh_rpc (bh_delegate b)) = KaUntil 30005 \<and> identify_handler (bh_delegate b) = [] \<and>
         gossip_handler (bh_delegate b) = [TCustom 1]"
    by code_simp
  then obtain evs b outs where run: "run_calls (conn_step ref_lib) gossip_only (bh_new ref_lib [] [], []) = Some (evs, b, outs)"
    and st: "connection_keep_alive (dh_rpc (bh_delegate b)) = KaUntil 30005" "identify_handler (bh_delegate b) = []"
      "gossip_handler (bh_delegate b) = [TCustom 1]" by (auto split: option.splits)
  have "list_ex asks_shutdown gossip_only" by (simp add: gossip_only_def)
  with connection_kept_until_shutdown [OF run] st run show ?thesis
    by (auto simp: ref_lib_def echo_handler_def delegate_keep_alive_def max_def)
qed

end
