(* ===== verification/Network_Behaviour.thy ===== *)
theory Network_Behaviour
  imports Peer_Manager Connection_Handler
begin

text \<open>
  \<open>core/network/src/behaviour/mod.rs\<close>: the network behaviour, which combines gossipsub, the RPC,
  identify and the peer manager.

  Gossipsub and identify are libp2p's: each is a record of the operations that are called on it
  (\<open>third_behaviour\<close>; \<open>bv_lib\<close> adds what only gossipsub has). \<open>network_globals\<close> is the same shared
  object as the peer manager's, so it is read and written there. What the peer manager reads from
  outside during the polls of one \<open>custom_poll\<close> is a list, with one element for every poll of the
  peer manager; when it is used up, nothing more is ready.
\<close>

section \<open>The parts\<close>

type_synonym message_id = string
type_synonym topic_hash = string
type_synonym peer_request_id = "conn_id \<times> substream_id"

record gossip_message =
  gm_sequence_number :: u64
  gm_topics :: "topic_hash list"
  gm_data :: "u8 list"

datatype gossip_event =
    GossipMessage peer_id message_id gossip_message
  | GossipSubscribed peer_id topic_hash
  | GossipUnsubscribed peer_id topic_hash

datatype identify_event =
    IdentifyReceived peer_id identify_info multiaddr
  | IdentifySent peer_id
  | IdentifyError peer_id string

datatype connected_point = Listener multiaddr multiaddr | Dialer multiaddr

text \<open>What the swarm tells every behaviour.\<close>

datatype swarm_notice =
    NConnected peer_id
  | NDisconnected peer_id
  | NConnectionEstablished peer_id conn_id connected_point
  | NConnectionClosed peer_id conn_id connected_point
  | NAddrReachFailure "peer_id option" multiaddr string
  | NDialFailure peer_id
  | NNewListenAddr multiaddr
  | NExpiredListenAddr multiaddr
  | NNewExternalAddr multiaddr
  | NListenerError nat string
  | NListenerClosed nat "string + unit"

record ('s, 'h, 'm, 'ev) third_behaviour =
  tb_new_handler :: "'s \<Rightarrow> 'h \<times> 's"
  tb_notice :: "swarm_notice \<Rightarrow> 's \<Rightarrow> 's"
  tb_event :: "peer_id \<Rightarrow> conn_id \<Rightarrow> 'm \<Rightarrow> 's \<Rightarrow> 's"
  tb_poll :: "env \<Rightarrow> 's \<Rightarrow> ('m, 'ev) nb_action poll \<times> 's"

record ('g, 'gh, 'gm, 'i, 'ih, 'im, 'q, 'd, 'l, 'b, 'e, 'k) bv_lib =
  bl_gossip :: "('g, 'gh, 'gm, gossip_event) third_behaviour"
  bl_identify :: "('i, 'ih, 'im, identify_event) third_behaviour"
  bl_pm :: "('q, 'd, 'l, 'b, 'e, 'k) pm_lib"
  gs_new :: "peer_id \<Rightarrow> gossipsub_config \<Rightarrow> 'g"
  gs_subscribe :: "string \<Rightarrow> 'g \<Rightarrow> bool \<times> 'g"
  gs_unsubscribe :: "string \<Rightarrow> 'g \<Rightarrow> bool \<times> 'g"
  gs_publish :: "string \<Rightarrow> u8 list \<Rightarrow> 'g \<Rightarrow> 'g"
  gs_propagate_message :: "message_id \<Rightarrow> peer_id \<Rightarrow> 'g \<Rightarrow> 'g"
  identify_new :: "string \<Rightarrow> string \<Rightarrow> libp2p_key \<Rightarrow> 'i"
  keypair_public :: "keypair \<Rightarrow> libp2p_key"

datatype request = RqStatus "u8 list" | RqGoodbye "u8 list"

datatype response = RsStatus "u8 list"

fun request_into_rpc :: "request \<Rightarrow> rpc_request" where
  "request_into_rpc (RqGoodbye r) = GoodbyeRequest r"
| "request_into_rpc (RqStatus s) = StatusRequest s"

fun response_into_rpc :: "response \<Rightarrow> rpc_coded_response" where
  "response_into_rpc (RsStatus s) = Success (StatusResponse s)"

datatype behaviour_event =
    RPCFailed request_id peer_id rpc_error
  | RequestReceived peer_id peer_request_id request
  | ResponseReceived peer_id request_id response
  | PubsubMessage message_id u64 string peer_id "topic_hash list" "u8 list"
  | PeerSubscribed peer_id topic_hash
  | StatusPeer peer_id

definition MAX_IDENTIFY_ADDRESSES :: nat where "MAX_IDENTIFY_ADDRESSES = 10"

record ('g, 'i, 'q, 'd, 'l, 'e) behaviour =
  gossipsub :: 'g
  mothra_rpc :: rpc_behaviour
  bv_identify :: 'i
  bv_pm :: "('q, 'd, 'l, 'e) peer_manager"
  bv_events :: "behaviour_event list"
  peers_to_dc :: "peer_id list"
  bv_meta_data :: "u8 list"
  bv_ping_data :: "u8 list"
  bv_fork_id :: enr_fork_id

definition behaviour_new ::
  "('g, 'gh, 'gm, 'i, 'ih, 'im, 'q, 'd, 'l, 'b, 'e, 'k) bv_lib \<Rightarrow> keypair \<Rightarrow> 'e network_config \<Rightarrow> 'e network_globals \<Rightarrow>
   disk_file \<Rightarrow> (string + ('g, 'i, 'q, 'd, 'l, 'e) behaviour) option" where
  "behaviour_new B local_key config g disk =
     (case pm_new (bl_pm B) local_key config g disk of
        None \<Rightarrow> None
      | Some (Inl err) \<Rightarrow> Some (Inl err)
      | Some (Inr pm) \<Rightarrow> Some (Inr
          \<lparr> gossipsub = gs_new B (peer_id_from_public_key (lib_key (bl_pm B)) (keypair_public B local_key)) (gs_config config),
            mothra_rpc = rpc_new,
            bv_identify = identify_new B (cfg_protocol_version config) (cfg_agent_version config) (keypair_public B local_key),
            bv_pm = pm, bv_events = [], peers_to_dc = [],
            bv_meta_data = g_meta_data g, bv_ping_data = g_ping_data g, bv_fork_id = g_fork_id g \<rparr>))"

section \<open>What the swarm calls\<close>

text \<open>A new connection gets a handler made by the three behaviours.\<close>

definition behaviour_new_handler ::
  "('g, 'gh, 'gm, 'i, 'ih, 'im, 'q, 'd, 'l, 'b, 'e, 'k) bv_lib \<Rightarrow> ('gh, 'gm, 'hq, 'si, 'so, 'ih, 'im) conn_lib \<Rightarrow>
   ('g, 'i, 'q, 'd, 'l, 'e) behaviour \<Rightarrow> ('gh, 'hq, 'si, 'so, 'ih) behaviour_handler \<times> ('g, 'i, 'q, 'd, 'l, 'e) behaviour" where
  "behaviour_new_handler B C b =
     (let (gh, g) = tb_new_handler (bl_gossip B) (gossipsub b);
          (ih, i) = tb_new_handler (bl_identify B) (bv_identify b)
      in (bh_new C gh ih, b\<lparr> gossipsub := g, bv_identify := i \<rparr>))"

definition behaviour_addresses_of_peer ::
  "('g, 'gh, 'gm, 'i, 'ih, 'im, 'q, 'd, 'l, 'b, 'e, 'k) bv_lib \<Rightarrow> peer_id \<Rightarrow>
   ('g, 'i, 'q, 'd, 'l, 'e) behaviour \<Rightarrow> (multiaddr list \<times> ('g, 'i, 'q, 'd, 'l, 'e) behaviour) option" where
  "behaviour_addresses_of_peer B p b =
     map_option (\<lambda>(addrs, pm). (addrs, b\<lparr> bv_pm := pm \<rparr>)) (addresses_of_peer (bl_pm B) p (bv_pm b))"

text \<open>The RPC behaviour reacts to a new peer only.\<close>

fun rpc_notice :: "swarm_notice \<Rightarrow> rpc_behaviour \<Rightarrow> rpc_behaviour" where
  "rpc_notice (NConnected p) r = rpc_inject_connected p r"
| "rpc_notice _ r = r"

definition delegate_to_behaviours ::
  "('g, 'gh, 'gm, 'i, 'ih, 'im, 'q, 'd, 'l, 'b, 'e, 'k) bv_lib \<Rightarrow> swarm_notice \<Rightarrow>
   ('g, 'i, 'q, 'd, 'l, 'e) behaviour \<Rightarrow> ('g, 'i, 'q, 'd, 'l, 'e) behaviour" where
  "delegate_to_behaviours B n b =
     b\<lparr> gossipsub := tb_notice (bl_gossip B) n (gossipsub b), mothra_rpc := rpc_notice n (mothra_rpc b),
       bv_identify := tb_notice (bl_identify B) n (bv_identify b) \<rparr>"

text \<open>The handler never sends \<open>BehaviourHandlerOut::Custom\<close>, which has no effect here.\<close>

fun behaviour_inject_event ::
  "('g, 'gh, 'gm, 'i, 'ih, 'im, 'q, 'd, 'l, 'b, 'e, 'k) bv_lib \<Rightarrow> peer_id \<Rightarrow> conn_id \<Rightarrow> ('gm, 'im) delegate_out \<Rightarrow>
   ('g, 'i, 'q, 'd, 'l, 'e) behaviour \<Rightarrow> ('g, 'i, 'q, 'd, 'l, 'e) behaviour" where
  "behaviour_inject_event B p c (DoGossipsub ev) b = b\<lparr> gossipsub := tb_event (bl_gossip B) p c ev (gossipsub b) \<rparr>"
| "behaviour_inject_event B p c (DoRPC ev) b = b\<lparr> mothra_rpc := rpc_inject_event p c ev (mothra_rpc b) \<rparr>"
| "behaviour_inject_event B p c (DoIdentify ev) b = b\<lparr> bv_identify := tb_event (bl_identify B) p c ev (bv_identify b) \<rparr>"

section \<open>What the application calls\<close>

definition with_globals ::
  "('e network_globals \<Rightarrow> 'e network_globals) \<Rightarrow> ('g, 'i, 'q, 'd, 'l, 'e) behaviour \<Rightarrow> ('g, 'i, 'q, 'd, 'l, 'e) behaviour" where
  "with_globals f b = b\<lparr> bv_pm := (bv_pm b)\<lparr> pm_globals := f (pm_globals (bv_pm b)) \<rparr> \<rparr>"

text \<open>\<open>topic.into()\<close> is \<open>Topic::new\<close> of the string.\<close>

definition behaviour_subscribe ::
  "('g, 'gh, 'gm, 'i, 'ih, 'im, 'q, 'd, 'l, 'b, 'e, 'k) bv_lib \<Rightarrow> gossip_topic \<Rightarrow>
   ('g, 'i, 'q, 'd, 'l, 'e) behaviour \<Rightarrow> bool \<times> ('g, 'i, 'q, 'd, 'l, 'e) behaviour" where
  "behaviour_subscribe B t b =
     (let b = with_globals (\<lambda>gl. gl\<lparr> g_gossipsub_subscriptions := List.insert t (g_gossipsub_subscriptions gl) \<rparr>) b;
          (r, g) = gs_subscribe B (gossip_topic_into_string t) (gossipsub b)
      in (r, b\<lparr> gossipsub := g \<rparr>))"

definition behaviour_unsubscribe ::
  "('g, 'gh, 'gm, 'i, 'ih, 'im, 'q, 'd, 'l, 'b, 'e, 'k) bv_lib \<Rightarrow> gossip_topic \<Rightarrow>
   ('g, 'i, 'q, 'd, 'l, 'e) behaviour \<Rightarrow> bool \<times> ('g, 'i, 'q, 'd, 'l, 'e) behaviour" where
  "behaviour_unsubscribe B t b =
     (let b = with_globals (\<lambda>gl. gl\<lparr> g_gossipsub_subscriptions := removeAll t (g_gossipsub_subscriptions gl) \<rparr>) b;
          (r, g) = gs_unsubscribe B (gossip_topic_into_string t) (gossipsub b)
      in (r, b\<lparr> gossipsub := g \<rparr>))"

definition subscribe_kind ::
  "('g, 'gh, 'gm, 'i, 'ih, 'im, 'q, 'd, 'l, 'b, 'e, 'k) bv_lib \<Rightarrow> string \<Rightarrow>
   ('g, 'i, 'q, 'd, 'l, 'e) behaviour \<Rightarrow> bool \<times> ('g, 'i, 'q, 'd, 'l, 'e) behaviour" where
  "subscribe_kind B t b = behaviour_subscribe B (gossip_topic_new t) b"

definition unsubscribe_kind ::
  "('g, 'gh, 'gm, 'i, 'ih, 'im, 'q, 'd, 'l, 'b, 'e, 'k) bv_lib \<Rightarrow> string \<Rightarrow>
   ('g, 'i, 'q, 'd, 'l, 'e) behaviour \<Rightarrow> bool \<times> ('g, 'i, 'q, 'd, 'l, 'e) behaviour" where
  "unsubscribe_kind B t b = behaviour_unsubscribe B (gossip_topic_new t) b"

definition behaviour_publish ::
  "('g, 'gh, 'gm, 'i, 'ih, 'im, 'q, 'd, 'l, 'b, 'e, 'k) bv_lib \<Rightarrow> gossip_topic \<Rightarrow> u8 list \<Rightarrow>
   ('g, 'i, 'q, 'd, 'l, 'e) behaviour \<Rightarrow> ('g, 'i, 'q, 'd, 'l, 'e) behaviour" where
  "behaviour_publish B t message b = b\<lparr> gossipsub := gs_publish B (gossip_topic_into_string t) message (gossipsub b) \<rparr>"

definition behaviour_propagate_message ::
  "('g, 'gh, 'gm, 'i, 'ih, 'im, 'q, 'd, 'l, 'b, 'e, 'k) bv_lib \<Rightarrow> peer_id \<Rightarrow> message_id \<Rightarrow>
   ('g, 'i, 'q, 'd, 'l, 'e) behaviour \<Rightarrow> ('g, 'i, 'q, 'd, 'l, 'e) behaviour" where
  "behaviour_propagate_message B source m b = b\<lparr> gossipsub := gs_propagate_message B m source (gossipsub b) \<rparr>"

definition on_rpc :: "(rpc_behaviour \<Rightarrow> rpc_behaviour) \<Rightarrow> ('g, 'i, 'q, 'd, 'l, 'e) behaviour \<Rightarrow> ('g, 'i, 'q, 'd, 'l, 'e) behaviour" where
  "on_rpc f b = b\<lparr> mothra_rpc := f (mothra_rpc b) \<rparr>"

definition behaviour_send_request ::
  "peer_id \<Rightarrow> request_id \<Rightarrow> request \<Rightarrow> ('g, 'i, 'q, 'd, 'l, 'e) behaviour \<Rightarrow> ('g, 'i, 'q, 'd, 'l, 'e) behaviour" where
  "behaviour_send_request p rid req = on_rpc (rpc_send_request p rid (request_into_rpc req))"

definition send_successful_response ::
  "peer_id \<Rightarrow> peer_request_id \<Rightarrow> response \<Rightarrow> ('g, 'i, 'q, 'd, 'l, 'e) behaviour \<Rightarrow> ('g, 'i, 'q, 'd, 'l, 'e) behaviour" where
  "send_successful_response p rid res = on_rpc (rpc_send_response p rid (response_into_rpc res))"

definition send_error_reponse ::
  "peer_id \<Rightarrow> peer_request_id \<Rightarrow> rpc_response_error_code \<Rightarrow> string \<Rightarrow>
   ('g, 'i, 'q, 'd, 'l, 'e) behaviour \<Rightarrow> ('g, 'i, 'q, 'd, 'l, 'e) behaviour" where
  "send_error_reponse p rid code reason = on_rpc (rpc_send_response p rid (from_error_code code reason))"

definition enr_entries ::
  "('g, 'gh, 'gm, 'i, 'ih, 'im, 'q, 'd, 'l, 'b, 'e, 'k) bv_lib \<Rightarrow> ('g, 'i, 'q, 'd, 'l, 'e) behaviour \<Rightarrow> 'e list" where
  "enr_entries B b = d5_table_entries_enr (lib_disc (bl_pm B)) (discv5 (pm_discovery (bv_pm b)))"

definition behaviour_add_enr ::
  "('g, 'gh, 'gm, 'i, 'ih, 'im, 'q, 'd, 'l, 'b, 'e, 'k) bv_lib \<Rightarrow> 'e \<Rightarrow>
   ('g, 'i, 'q, 'd, 'l, 'e) behaviour \<Rightarrow> ('g, 'i, 'q, 'd, 'l, 'e) behaviour option" where
  "behaviour_add_enr B enr b =
     map_option (\<lambda>d. b\<lparr> bv_pm := (bv_pm b)\<lparr> pm_discovery := d \<rparr> \<rparr>)
       (add_enr (lib_disc (bl_pm B)) (lib_enr (bl_pm B)) (lib_key (bl_pm B)) enr (pm_discovery (bv_pm b)))"

section \<open>Messages of the behaviour itself\<close>

definition behaviour_ping :: "request_id \<Rightarrow> peer_id \<Rightarrow> ('g, 'i, 'q, 'd, 'l, 'e) behaviour \<Rightarrow> ('g, 'i, 'q, 'd, 'l, 'e) behaviour" where
  "behaviour_ping rid p b = on_rpc (rpc_send_request p rid (PingRequest (bv_ping_data b))) b"

definition behaviour_pong ::
  "peer_request_id \<Rightarrow> peer_id \<Rightarrow> ('g, 'i, 'q, 'd, 'l, 'e) behaviour \<Rightarrow> ('g, 'i, 'q, 'd, 'l, 'e) behaviour" where
  "behaviour_pong rid p b = on_rpc (rpc_send_response p rid (Success (Pong (bv_ping_data b)))) b"

definition send_meta_data_request :: "peer_id \<Rightarrow> ('g, 'i, 'q, 'd, 'l, 'e) behaviour \<Rightarrow> ('g, 'i, 'q, 'd, 'l, 'e) behaviour" where
  "send_meta_data_request p = on_rpc (rpc_send_request p Behaviour MetaDataRequest)"

definition send_meta_data_response ::
  "peer_request_id \<Rightarrow> peer_id \<Rightarrow> ('g, 'i, 'q, 'd, 'l, 'e) behaviour \<Rightarrow> ('g, 'i, 'q, 'd, 'l, 'e) behaviour" where
  "send_meta_data_response rid p b = on_rpc (rpc_send_response p rid (Success (MetaDataResponse (bv_meta_data b)))) b"

section \<open>Events of the parts\<close>

definition bv_push :: "behaviour_event \<Rightarrow> ('g, 'i, 'q, 'd, 'l, 'e) behaviour \<Rightarrow> ('g, 'i, 'q, 'd, 'l, 'e) behaviour" where
  "bv_push ev b = b\<lparr> bv_events := bv_events b @ [ev] \<rparr>"

fun on_gossip_event :: "gossip_event \<Rightarrow> ('g, 'i, 'q, 'd, 'l, 'e) behaviour \<Rightarrow> ('g, 'i, 'q, 'd, 'l, 'e) behaviour" where
  "on_gossip_event (GossipMessage source m msg) b =
     (let agent = (case agent_string (globals_client (pm_globals (bv_pm b)) source) of Some s \<Rightarrow> s | None \<Rightarrow> [])
      in bv_push (PubsubMessage m (gm_sequence_number msg) agent source (gm_topics msg) (gm_data msg)) b)"
| "on_gossip_event (GossipSubscribed p t) b = bv_push (PeerSubscribed p t) b"
| "on_gossip_event (GossipUnsubscribed _ _) b = b"

definition propagate_response ::
  "request_id \<Rightarrow> peer_id \<Rightarrow> response \<Rightarrow> ('g, 'i, 'q, 'd, 'l, 'e) behaviour \<Rightarrow> ('g, 'i, 'q, 'd, 'l, 'e) behaviour" where
  "propagate_response rid p res b = (if rid \<noteq> Behaviour then bv_push (ResponseReceived p rid res) b else b)"

definition propagate_request ::
  "peer_request_id \<Rightarrow> peer_id \<Rightarrow> request \<Rightarrow> ('g, 'i, 'q, 'd, 'l, 'e) behaviour \<Rightarrow> ('g, 'i, 'q, 'd, 'l, 'e) behaviour" where
  "propagate_request rid p req b = bv_push (RequestReceived p rid req) b"

text \<open>Informing the peer manager of a status, which sets the status timer of the peer.\<close>

definition bv_statusd ::
  "('g, 'gh, 'gm, 'i, 'ih, 'im, 'q, 'd, 'l, 'b, 'e, 'k) bv_lib \<Rightarrow> env \<Rightarrow> peer_id \<Rightarrow>
   ('g, 'i, 'q, 'd, 'l, 'e) behaviour \<Rightarrow> ('g, 'i, 'q, 'd, 'l, 'e) behaviour option" where
  "bv_statusd B e p b = map_option (\<lambda>pm. b\<lparr> bv_pm := pm \<rparr>) (peer_statusd (bl_pm B) e p (bv_pm b))"

text \<open>\<open>_disconnecting_peer\<close> of the peer manager has no effect.\<close>

fun on_rpc_event ::
  "('g, 'gh, 'gm, 'i, 'ih, 'im, 'q, 'd, 'l, 'b, 'e, 'k) bv_lib \<Rightarrow> env \<Rightarrow> peer_id \<Rightarrow> conn_id \<Rightarrow> handler_err + rpc_received \<Rightarrow>
   ('g, 'i, 'q, 'd, 'l, 'e) behaviour \<Rightarrow> ('g, 'i, 'q, 'd, 'l, 'e) behaviour option" where
  "on_rpc_event B e p c (Inl (InboundErr _ proto err)) b = Some (b\<lparr> bv_pm := handle_rpc_error p proto err (bv_pm b) \<rparr>)"
| "on_rpc_event B e p c (Inl (OutboundErr rid proto err)) b =
     (let b' = b\<lparr> bv_pm := handle_rpc_error p proto err (bv_pm b) \<rparr>
      in Some (if rid \<noteq> Behaviour then bv_push (RPCFailed rid p err) b' else b'))"
| "on_rpc_event B e p c (Inr (ReceivedRequest sid req)) b =
     (case req of
        PingRequest _ \<Rightarrow> Some (behaviour_pong (c, sid) p b)
      | MetaDataRequest \<Rightarrow> Some (send_meta_data_response (c, sid) p b)
      | GoodbyeRequest _ \<Rightarrow> Some (b\<lparr> peers_to_dc := peers_to_dc b @ [p] \<rparr>)
      | StatusRequest msg \<Rightarrow> map_option (propagate_request (c, sid) p (RqStatus msg)) (bv_statusd B e p b))"
| "on_rpc_event B e p c (Inr (ReceivedResponse rid res)) b =
     (case res of
        Pong _ \<Rightarrow> Some b
      | MetaDataResponse _ \<Rightarrow> Some b
      | StatusResponse msg \<Rightarrow> map_option (propagate_response rid p (RsStatus msg)) (bv_statusd B e p b))"

fun on_identify_event :: "identify_event \<Rightarrow> ('g, 'i, 'q, 'd, 'l, 'e) behaviour \<Rightarrow> ('g, 'i, 'q, 'd, 'l, 'e) behaviour" where
  "on_identify_event (IdentifyReceived p info observed) b =
     (let info' = (if length (listen_addrs info) > MAX_IDENTIFY_ADDRESSES
                   then info\<lparr> listen_addrs := take MAX_IDENTIFY_ADDRESSES (listen_addrs info) \<rparr> else info)
      in b\<lparr> bv_pm := pm_identify p info' (bv_pm b) \<rparr>)"
| "on_identify_event (IdentifySent _) b = b"
| "on_identify_event (IdentifyError _ _) b = b"

section \<open>Polling\<close>

text \<open>The macro \<open>poll_behaviour!\<close>: a part is polled until it has nothing more to say or has something for
  the swarm.\<close>

partial_function (option) poll_behaviour ::
  "('b \<Rightarrow> ('m, 'ev) nb_action poll \<times> 'b) \<Rightarrow> ('ev \<Rightarrow> 'b \<Rightarrow> 'b option) \<Rightarrow> ('m \<Rightarrow> 'h) \<Rightarrow> 'b \<Rightarrow>
   (('h, 'o) nb_action option \<times> 'b) option" where
  "poll_behaviour poll on_event notify b =
     (case poll b of
        (Ready (GenerateEvent ev), b') \<Rightarrow>
          (case on_event ev b' of None \<Rightarrow> None | Some b'' \<Rightarrow> poll_behaviour poll on_event notify b'')
      | (Ready (DialAddress address), b') \<Rightarrow> Some (Some (DialAddress address), b')
      | (Ready (DialPeer p condition), b') \<Rightarrow> Some (Some (DialPeer p condition), b')
      | (Ready (NotifyHandler p handler event), b') \<Rightarrow> Some (Some (NotifyHandler p handler (notify event)), b')
      | (Ready (ReportObservedAddr address), b') \<Rightarrow> Some (Some (ReportObservedAddr address), b')
      | (Pending, b') \<Rightarrow> Some (None, b'))"

declare poll_behaviour.simps [code]

type_synonym ('gm, 'im) behaviour_action = "(('gm, 'im) behaviour_handler_in, behaviour_event) nb_action"

definition poll_gossipsub ::
  "('g, 'gh, 'gm, 'i, 'ih, 'im, 'q, 'd, 'l, 'b, 'e, 'k) bv_lib \<Rightarrow> env \<Rightarrow> ('g, 'i, 'q, 'd, 'l, 'e) behaviour \<Rightarrow>
   (('gm, 'im) behaviour_action option \<times> ('g, 'i, 'q, 'd, 'l, 'e) behaviour) option" where
  "poll_gossipsub B e b =
     poll_behaviour (\<lambda>b. case tb_poll (bl_gossip B) e (gossipsub b) of (r, g) \<Rightarrow> (r, b\<lparr> gossipsub := g \<rparr>))
       (\<lambda>ev b. Some (on_gossip_event ev b)) (\<lambda>ev. BhDelegate (DiGossipsub ev)) b"

definition poll_mothra_rpc ::
  "('g, 'gh, 'gm, 'i, 'ih, 'im, 'q, 'd, 'l, 'b, 'e, 'k) bv_lib \<Rightarrow> env \<Rightarrow> ('g, 'i, 'q, 'd, 'l, 'e) behaviour \<Rightarrow>
   (('gm, 'im) behaviour_action option \<times> ('g, 'i, 'q, 'd, 'l, 'e) behaviour) option" where
  "poll_mothra_rpc B e b =
     poll_behaviour (\<lambda>b. case rpc_poll (mothra_rpc b) of (r, m) \<Rightarrow> (r, b\<lparr> mothra_rpc := m \<rparr>))
       (\<lambda>m b. on_rpc_event B e (rm_peer_id m) (rm_conn_id m) (rm_event m) b) (\<lambda>ev. BhDelegate (DiRPC ev)) b"

definition poll_identify ::
  "('g, 'gh, 'gm, 'i, 'ih, 'im, 'q, 'd, 'l, 'b, 'e, 'k) bv_lib \<Rightarrow> env \<Rightarrow> ('g, 'i, 'q, 'd, 'l, 'e) behaviour \<Rightarrow>
   (('gm, 'im) behaviour_action option \<times> ('g, 'i, 'q, 'd, 'l, 'e) behaviour) option" where
  "poll_identify B e b =
     poll_behaviour (\<lambda>b. case tb_poll (bl_identify B) e (bv_identify b) of (r, i) \<Rightarrow> (r, b\<lparr> bv_identify := i \<rparr>))
       (\<lambda>ev b. Some (on_identify_event ev b)) (\<lambda>ev. BhDelegate (DiIdentify ev)) b"

text \<open>The loop over the events of the peer manager. \<open>None\<close> as an action is the end of the loop.\<close>

type_synonym 'e pm_inputs = "(nat \<times> 'e poll_input list) list"

fun next_input :: "'e pm_inputs \<Rightarrow> nat \<times> 'e poll_input list" where
  "next_input [] = (0, [])"
| "next_input (x # _) = x"

partial_function (option) pm_event_loop ::
  "('g, 'gh, 'gm, 'i, 'ih, 'im, 'q, 'd, 'l, 'b, 'e, 'k) bv_lib \<Rightarrow> env \<Rightarrow> 'e pm_inputs \<Rightarrow> ('g, 'i, 'q, 'd, 'l, 'e) behaviour \<Rightarrow>
   (('gm, 'im) behaviour_action option \<times> ('g, 'i, 'q, 'd, 'l, 'e) behaviour) option" where
  "pm_event_loop B e rounds b =
     (case pm_poll_next (bl_pm B) e (fst (next_input rounds)) (snd (next_input rounds)) (bv_pm b) of
        None \<Rightarrow> None
      | Some (r, pm) \<Rightarrow>
          (let b' = b\<lparr> bv_pm := pm \<rparr>
           in (case r of
                 Ready (Some (EvDial p)) \<Rightarrow> Some (Some (DialPeer p CondDisconnected), b')
               | Ready (Some (EvSocketUpdated address)) \<Rightarrow> Some (Some (ReportObservedAddr address), b')
               | Ready (Some (EvStatus p)) \<Rightarrow> Some (Some (GenerateEvent (StatusPeer p)), b')
               | Ready (Some (EvPing p)) \<Rightarrow> pm_event_loop B e (tl rounds) (behaviour_ping Behaviour p b')
               | Ready (Some (EvMetaData p)) \<Rightarrow> pm_event_loop B e (tl rounds) (send_meta_data_request p b')
               | Ready (Some (EvDisconnectPeer p)) \<Rightarrow>
                   Some (Some (NotifyHandler p NotifyAny (BhShutdown (Some (Behaviour, GoodbyeRequest [])))),
                         b'\<lparr> peers_to_dc := peers_to_dc b' @ [p] \<rparr>)
               | Ready None \<Rightarrow> Some (None, b')
               | Pending \<Rightarrow> Some (None, b'))))"

declare pm_event_loop.simps [code]

definition custom_poll ::
  "('g, 'gh, 'gm, 'i, 'ih, 'im, 'q, 'd, 'l, 'b, 'e, 'k) bv_lib \<Rightarrow> env \<Rightarrow> 'e pm_inputs \<Rightarrow> ('g, 'i, 'q, 'd, 'l, 'e) behaviour \<Rightarrow>
   (('gm, 'im) behaviour_action poll \<times> ('g, 'i, 'q, 'd, 'l, 'e) behaviour) option" where
  "custom_poll B e rounds b =
     (case peers_to_dc b of
        p # ps \<Rightarrow> Some (Ready (NotifyHandler p NotifyAll (BhShutdown None)), b\<lparr> peers_to_dc := ps \<rparr>)
      | [] \<Rightarrow>
          (case pm_event_loop B e rounds b of
             None \<Rightarrow> None
           | Some (Some action, b') \<Rightarrow> Some (Ready action, b')
           | Some (None, b') \<Rightarrow>
               (case bv_events b' of
                  ev # evs \<Rightarrow> Some (Ready (GenerateEvent ev), b'\<lparr> bv_events := evs \<rparr>)
                | [] \<Rightarrow> Some (Pending, b'))))"

text \<open>A part that has an action for the swarm ends the poll.\<close>

definition and_then ::
  "('a option \<times> 'b) option \<Rightarrow> ('b \<Rightarrow> ('a poll \<times> 'b) option) \<Rightarrow> ('a poll \<times> 'b) option" where
  "and_then r f = (case r of None \<Rightarrow> None | Some (Some a, b) \<Rightarrow> Some (Ready a, b) | Some (None, b) \<Rightarrow> f b)"

definition behaviour_poll ::
  "('g, 'gh, 'gm, 'i, 'ih, 'im, 'q, 'd, 'l, 'b, 'e, 'k) bv_lib \<Rightarrow> env \<Rightarrow> 'e pm_inputs \<Rightarrow> ('g, 'i, 'q, 'd, 'l, 'e) behaviour \<Rightarrow>
   (('gm, 'im) behaviour_action poll \<times> ('g, 'i, 'q, 'd, 'l, 'e) behaviour) option" where
  "behaviour_poll B e rounds b =
     and_then (poll_gossipsub B e b) (\<lambda>b. and_then (poll_mothra_rpc B e b) (\<lambda>b.
       and_then (poll_identify B e b) (custom_poll B e rounds)))"

section \<open>Runs\<close>

text \<open>\<open>peer_manager()\<close> hands out the peer manager, so that the service can call it (but not poll it).\<close>

datatype ('gm, 'im, 'e) bv_call =
    BvNotice swarm_notice
  | BvEvent peer_id conn_id "('gm, 'im) delegate_out"
  | BvPoll "'e pm_inputs"
  | BvAddresses peer_id
  | BvSubscribe string
  | BvUnsubscribe string
  | BvPublish gossip_topic "u8 list"
  | BvPropagate peer_id message_id
  | BvSendRequest peer_id request_id request
  | BvSendResponse peer_id peer_request_id response
  | BvSendError peer_id peer_request_id rpc_response_error_code string
  | BvAddEnr 'e
  | BvManager "'e pm_call"

fun bv_step ::
  "('g, 'gh, 'gm, 'i, 'ih, 'im, 'q, 'd, 'l, 'b, 'e, 'k) bv_lib \<Rightarrow> env \<times> ('gm, 'im, 'e) bv_call \<Rightarrow>
   ('g, 'i, 'q, 'd, 'l, 'e) behaviour \<Rightarrow> (('gm, 'im) behaviour_action poll \<times> ('g, 'i, 'q, 'd, 'l, 'e) behaviour) option" where
  "bv_step B (e, BvNotice n) b = Some (Pending, delegate_to_behaviours B n b)"
| "bv_step B (e, BvEvent p c ev) b = Some (Pending, behaviour_inject_event B p c ev b)"
| "bv_step B (e, BvPoll rounds) b = behaviour_poll B e rounds b"
| "bv_step B (e, BvAddresses p) b = map_option (\<lambda>(_, b'). (Pending, b')) (behaviour_addresses_of_peer B p b)"
| "bv_step B (e, BvSubscribe t) b = Some (Pending, snd (subscribe_kind B t b))"
| "bv_step B (e, BvUnsubscribe t) b = Some (Pending, snd (unsubscribe_kind B t b))"
| "bv_step B (e, BvPublish t m) b = Some (Pending, behaviour_publish B t m b)"
| "bv_step B (e, BvPropagate p m) b = Some (Pending, behaviour_propagate_message B p m b)"
| "bv_step B (e, BvSendRequest p rid req) b = Some (Pending, behaviour_send_request p rid req b)"
| "bv_step B (e, BvSendResponse p rid res) b = Some (Pending, send_successful_response p rid res b)"
| "bv_step B (e, BvSendError p rid code reason) b = Some (Pending, send_error_reponse p rid code reason b)"
| "bv_step B (e, BvAddEnr enr) b = map_option (Pair Pending) (behaviour_add_enr B enr b)"
| "bv_step B (e, BvManager call) b =
     map_option (\<lambda>(_, pm). (Pending, b\<lparr> bv_pm := pm \<rparr>)) (pm_step (bl_pm B) (e, call) (bv_pm b))"

text \<open>The node records carry keys that their peer id can be computed from, and peer ids are not shorter
  than two bytes.\<close>

fun bv_call_ok :: "('q, 'd, 'l, 'b, 'e, 'k) pm_lib \<Rightarrow> env \<times> ('gm, 'im, 'e) bv_call \<Rightarrow> bool" where
  "bv_call_ok P (e, BvPoll rounds) = list_all (\<lambda>(ticks, inps). pm_call_ok P (e, PmPoll ticks inps)) rounds"
| "bv_call_ok P (e, BvAddresses p) = pm_call_ok P (e, PmAddresses p)"
| "bv_call_ok P (e, BvAddEnr enr) = (enr_peer_id (lib_enr P) (lib_key P) enr \<noteq> None)"
| "bv_call_ok P (e, BvManager call) \<longleftrightarrow> pm_call_ok P (e, call) \<and> (case call of PmPoll _ _ \<Rightarrow> False | _ \<Rightarrow> True)"
| "bv_call_ok P (e, _) = True"

text \<open>Requests that the behaviour makes on its own account do not concern the application.\<close>

fun external :: "behaviour_event \<Rightarrow> bool" where
  "external (RPCFailed rid _ _) = (rid \<noteq> Behaviour)"
| "external (ResponseReceived _ rid _) = (rid \<noteq> Behaviour)"
| "external _ = True"

fun external_action :: "('i, behaviour_event) nb_action \<Rightarrow> bool" where
  "external_action (GenerateEvent ev) = external ev"
| "external_action _ = True"

fun external_out :: "('i, behaviour_event) nb_action poll \<Rightarrow> bool" where
  "external_out (Ready act) = external_action act"
| "external_out Pending = True"

definition bv_inv ::
  "peer_id set \<Rightarrow> ('q \<Rightarrow> dq_key \<Rightarrow> (peer_id \<times> instant) option) \<Rightarrow> ('g, 'i, 'q, 'd, 'l, 'e) behaviour \<Rightarrow> bool" where
  "bv_inv X items b \<longleftrightarrow> pm_inv X items (bv_pm b) \<and> list_all external (bv_events b)"

lemma on_rpc_fields [simp]:
  "gossipsub (on_rpc f b) = gossipsub b" "mothra_rpc (on_rpc f b) = f (mothra_rpc b)" "bv_identify (on_rpc f b) = bv_identify b"
  "bv_pm (on_rpc f b) = bv_pm b" "bv_events (on_rpc f b) = bv_events b" "peers_to_dc (on_rpc f b) = peers_to_dc b"
  "bv_meta_data (on_rpc f b) = bv_meta_data b" "bv_ping_data (on_rpc f b) = bv_ping_data b"
  by (simp_all add: on_rpc_def)

lemma bv_push_fields [simp]:
  "gossipsub (bv_push ev b) = gossipsub b" "mothra_rpc (bv_push ev b) = mothra_rpc b" "bv_identify (bv_push ev b) = bv_identify b"
  "bv_pm (bv_push ev b) = bv_pm b" "bv_events (bv_push ev b) = bv_events b @ [ev]" "peers_to_dc (bv_push ev b) = peers_to_dc b"
  "bv_meta_data (bv_push ev b) = bv_meta_data b" "bv_ping_data (bv_push ev b) = bv_ping_data b"
  by (simp_all add: bv_push_def)

lemmas bv_rpc_ops = behaviour_send_request_def send_successful_response_def send_error_reponse_def behaviour_ping_def
  behaviour_pong_def send_meta_data_request_def send_meta_data_response_def

lemma bv_inv_cong: "bv_inv X items b \<Longrightarrow> bv_pm b' = bv_pm b \<Longrightarrow> bv_events b' = bv_events b \<Longrightarrow> bv_inv X items b'"
  by (simp add: bv_inv_def)

lemma bv_inv_on_rpc [simp]: "bv_inv X items (on_rpc f b) = bv_inv X items b"
  by (simp add: bv_inv_def)

lemma pm_inv_subscriptions:
  "pm_inv X items pm \<Longrightarrow> pm_inv X items (pm\<lparr> pm_globals := (pm_globals pm)\<lparr> g_gossipsub_subscriptions := ts \<rparr> \<rparr>)"
  by (simp add: pm_inv_def)

section \<open>Every poll returns\<close>

text \<open>The loop of \<open>poll_behaviour!\<close> ends when every event that is handled brings the part closer to
  silence.\<close>

lemma poll_behaviour_ends:
  fixes rank :: "'b \<Rightarrow> nat"
  assumes event: "\<And>b ev b'. I b \<Longrightarrow> poll b = (Ready (GenerateEvent ev), b') \<Longrightarrow> \<exists>b''. on_event ev b' = Some b'' \<and> I b'' \<and> rank b'' < rank b"
    and other: "\<And>b r b'. I b \<Longrightarrow> poll b = (r, b') \<Longrightarrow> (\<And>ev. r \<noteq> Ready (GenerateEvent ev)) \<Longrightarrow> I b'"
  shows "I b \<Longrightarrow> \<exists>a b'. poll_behaviour poll on_event notify b = Some (a, b') \<and> I b' \<and> (\<forall>ev. a \<noteq> Some (GenerateEvent ev))"
proof (induction "rank b" arbitrary: b rule: less_induct)
  case less
  obtain r b' where p: "poll b = (r, b')" by force
  show ?case
  proof (cases "\<exists>ev. r = Ready (GenerateEvent ev)")
    case True
    then obtain ev where r: "r = Ready (GenerateEvent ev)" ..
    from event [OF less.prems p [unfolded r]] obtain b'' where b'': "on_event ev b' = Some b''" "I b''" "rank b'' < rank b" by blast
    from less.hyps [OF b''(3,2)] show ?thesis by (subst poll_behaviour.simps) (simp add: p r b''(1))
  next
    case False
    with other [OF less.prems p] have "I b'" by blast
    with False show ?thesis by (subst poll_behaviour.simps) (auto simp: p split: poll.splits nb_action.splits)
  qed
qed

locale third_queue =
  fixes T :: "('s, 'h, 'm, 'ev) third_behaviour"
    and waiting :: "'s \<Rightarrow> nat"
  assumes event_consumed: "tb_poll T e s = (Ready (GenerateEvent ev), s') \<Longrightarrow> waiting s' < waiting s"

locale behaviour_env = pm_env "bl_pm B" items + gsq: third_queue "bl_gossip B" gossip_waiting + idq: third_queue "bl_identify B" identify_waiting
  for B :: "('g, 'gh, 'gm, 'i, 'ih, 'im, 'q, 'd, 'l, 'b, 'e, 'k) bv_lib"
    and items :: "'q \<Rightarrow> dq_key \<Rightarrow> (peer_id \<times> instant) option"
    and gossip_waiting :: "'g \<Rightarrow> nat"
    and identify_waiting :: "'i \<Rightarrow> nat"
begin

lemma poll_gossipsub_ok:
  "bv_inv X items b \<Longrightarrow> \<exists>a b'. poll_gossipsub B e b = Some (a, b') \<and> bv_inv X items b' \<and> (\<forall>ev. a \<noteq> Some (GenerateEvent ev))"
  unfolding poll_gossipsub_def
proof (rule poll_behaviour_ends [where I = "bv_inv X items" and rank = "\<lambda>b. gossip_waiting (gossipsub b)"], goal_cases)
  case (1 b ev b')
  then obtain g where g: "tb_poll (bl_gossip B) e (gossipsub b) = (Ready (GenerateEvent ev), g)" "b' = b\<lparr> gossipsub := g \<rparr>"
    by (auto split: prod.splits)
  with gsq.event_consumed [OF g(1)] 1(2) show ?case
    by (cases ev) (auto simp: bv_inv_def Let_def)
next
  case (2 b r b')
  then show ?case by (auto simp: bv_inv_def split: prod.splits)
qed

lemma poll_identify_ok:
  "bv_inv X items b \<Longrightarrow> \<exists>a b'. poll_identify B e b = Some (a, b') \<and> bv_inv X items b' \<and> (\<forall>ev. a \<noteq> Some (GenerateEvent ev))"
  unfolding poll_identify_def
proof (rule poll_behaviour_ends [where I = "bv_inv X items" and rank = "\<lambda>b. identify_waiting (bv_identify b)"], goal_cases)
  case (1 b ev b')
  then obtain i where i: "tb_poll (bl_identify B) e (bv_identify b) = (Ready (GenerateEvent ev), i)" "b' = b\<lparr> bv_identify := i \<rparr>"
    by (auto split: prod.splits)
  with idq.event_consumed [OF i(1)] 1(2) show ?case
    by (cases ev) (auto simp: bv_inv_def Let_def pm_identify_inv)
next
  case (2 b r b')
  then show ?case by (auto simp: bv_inv_def split: prod.splits)
qed

end

text \<open>Messages that wait in the queue of the RPC, and actions for the swarm.\<close>

fun message_of :: "('m, 'o) nb_action \<Rightarrow> 'o list" where
  "message_of (GenerateEvent m) = [m]"
| "message_of _ = []"

definition messages :: "rpc_behaviour \<Rightarrow> rpc_message list" where
  "messages r = concat (map message_of (rpc_events r))"

lemma messages_push [simp]: "messages (rpc_push a r) = messages r @ message_of a"
  by (simp add: messages_def)

lemma messages_sends [simp]:
  "messages (rpc_send_request p rid req r) = messages r" "messages (rpc_send_response p sid res r) = messages r"
  by (simp_all add: rpc_push_ops)

lemma rpc_poll_messages:
  "rpc_poll r = (a, r') \<Longrightarrow> messages r = (case a of Ready act \<Rightarrow> message_of act | Pending \<Rightarrow> []) @ messages r'"
  by (auto simp: rpc_poll_def messages_def split: list.splits)

context behaviour_env
begin

lemma on_rpc_event_ok:
  assumes "bv_inv X items b"
  shows "\<exists>b'. on_rpc_event B e p c ev b = Some b' \<and> bv_inv X items b' \<and> messages (mothra_rpc b') = messages (mothra_rpc b)"
proof -
  have pm: "pm_inv X items (bv_pm b)" using assms by (simp add: bv_inv_def)
  from peer_statusd_ok [OF pm, of e p] obtain pm' where st: "peer_statusd (bl_pm B) e p (bv_pm b) = Some pm'" "pm_inv X items pm'" by blast
  show ?thesis
    using assms st pm
    by (induction B e p c ev b rule: on_rpc_event.induct)
      (auto simp: bv_inv_def bv_rpc_ops Let_def handle_rpc_error_inv bv_statusd_def propagate_request_def propagate_response_def
        split: rpc_request.splits rpc_response.splits)
qed

lemma poll_mothra_rpc_ok:
  "bv_inv X items b \<Longrightarrow> \<exists>a b'. poll_mothra_rpc B e b = Some (a, b') \<and> bv_inv X items b' \<and> (\<forall>ev. a \<noteq> Some (GenerateEvent ev))"
  unfolding poll_mothra_rpc_def
proof (rule poll_behaviour_ends [where I = "bv_inv X items" and rank = "\<lambda>b. length (messages (mothra_rpc b))"], goal_cases)
  case (1 b m b')
  then obtain r where r: "rpc_poll (mothra_rpc b) = (Ready (GenerateEvent m), r)" "b' = b\<lparr> mothra_rpc := r \<rparr>"
    by (auto split: prod.splits)
  with 1(2) have "bv_inv X items b'" by (simp add: bv_inv_def)
  from on_rpc_event_ok [OF this, of e "rm_peer_id m" "rm_conn_id m" "rm_event m"] rpc_poll_messages [OF r(1)] r(2)
  show ?case by auto
next
  case (2 b r b')
  then show ?case by (auto simp: bv_inv_def split: prod.splits)
qed

text \<open>The loop over the events of the peer manager: once the inputs are used up, every round takes an
  event away.\<close>

lemma pm_event_loop_ok:
  "bv_inv X items b \<Longrightarrow> list_all (\<lambda>(ticks, inps). pm_call_ok (bl_pm B) (e, PmPoll ticks inps)) rounds \<Longrightarrow>
   \<exists>a b'. pm_event_loop B e rounds b = Some (a, b') \<and> bv_inv X items b' \<and> (case a of Some act \<Rightarrow> external_action act | None \<Rightarrow> True)"
proof (induction "(length rounds, pm_load e (bv_pm b))" arbitrary: rounds b
    rule: wf_induct_rule [OF wf_lex_prod [OF wf_less_than wf_less_than], case_names less])
  case less
  obtain ticks inps where ni: "next_input rounds = (ticks, inps)" by force
  with less.prems(2) have ok: "list_all (\<lambda>inp. disc_call_ok (lib_enr (bl_pm B)) (lib_key (bl_pm B)) (e, PollDiscovery inp)) inps"
    by (cases rounds) auto
  from less.prems(1) have pmi: "pm_inv X items (bv_pm b)" by (simp add: bv_inv_def)
  from pm_poll_next_ok [OF pmi ok, of ticks] obtain out pm where
    poll: "pm_poll_next (bl_pm B) e ticks inps (bv_pm b) = Some (out, pm)" "pm_inv X items pm" by blast
  have inv: "bv_inv X items (b\<lparr> bv_pm := pm \<rparr>)" using poll(2) less.prems(1) by (simp add: bv_inv_def)
  have rec: "\<exists>a b'. pm_event_loop B e (tl rounds) (on_rpc f (b\<lparr> bv_pm := pm \<rparr>)) = Some (a, b') \<and> bv_inv X items b' \<and>
      (case a of Some act \<Rightarrow> external_action act | None \<Rightarrow> True)" if "out = Ready (Some ev)" for ev f
  proof (rule less.hyps)
    show "((length (tl rounds), pm_load e (bv_pm (on_rpc f (b\<lparr> bv_pm := pm \<rparr>)))), (length rounds, pm_load e (bv_pm b))) \<in> less_than <*lex*> less_than"
      using poll(1) ni that quiet_poll_load [OF pmi, of e] by (cases rounds) auto
    show "bv_inv X items (on_rpc f (b\<lparr> bv_pm := pm \<rparr>))" using inv by simp
    show "list_all (\<lambda>(ticks, inps). pm_call_ok (bl_pm B) (e, PmPoll ticks inps)) (tl rounds)"
      using less.prems(2) by (cases rounds) auto
  qed
  show ?case
  proof (cases "\<exists>p. out = Ready (Some (EvPing p)) \<or> out = Ready (Some (EvMetaData p))")
    case True
    then show ?thesis
      using rec by (subst pm_event_loop.simps) (auto simp: ni poll(1) Let_def behaviour_ping_def send_meta_data_request_def)
  next
    case False
    with inv show ?thesis
      by (subst pm_event_loop.simps)
        (auto simp: ni poll(1) Let_def bv_inv_def split: poll.splits option.splits peer_manager_event.splits)
  qed
qed

lemma custom_poll_ok:
  assumes "bv_inv X items b" "list_all (\<lambda>(ticks, inps). pm_call_ok (bl_pm B) (e, PmPoll ticks inps)) rounds"
  shows "\<exists>a b'. custom_poll B e rounds b = Some (a, b') \<and> bv_inv X items b' \<and> external_out a"
  using assms(1) pm_event_loop_ok [OF assms]
  by (auto simp: custom_poll_def bv_inv_def split: list.splits option.splits)

lemma and_then_ok:
  assumes "\<exists>a b'. r = Some (a, b') \<and> I b' \<and> (\<forall>ev. a \<noteq> Some (GenerateEvent ev))"
    and "\<And>b. I b \<Longrightarrow> \<exists>a b'. f b = Some (a, b') \<and> I b' \<and> external_out a"
  shows "\<exists>a b'. and_then r f = Some (a, b') \<and> I b' \<and> external_out a"
proof -
  from assms(1) obtain a b' where r: "r = Some (a, b')" "I b'" "\<forall>ev. a \<noteq> Some (GenerateEvent ev)" by blast
  show ?thesis
  proof (cases a)
    case (Some act)
    with r show ?thesis by (cases act) (auto simp: and_then_def)
  qed (use r assms(2) in \<open>auto simp: and_then_def\<close>)
qed

lemma behaviour_poll_ok:
  assumes "bv_inv X items b" "list_all (\<lambda>(ticks, inps). pm_call_ok (bl_pm B) (e, PmPoll ticks inps)) rounds"
  shows "\<exists>a b'. behaviour_poll B e rounds b = Some (a, b') \<and> bv_inv X items b' \<and> external_out a"
  unfolding behaviour_poll_def
  by (intro and_then_ok poll_gossipsub_ok poll_mothra_rpc_ok poll_identify_ok custom_poll_ok assms)

lemma bv_step_ok:
  assumes inv: "bv_inv X items b" and ok: "bv_call_ok (bl_pm B) c"
  shows "\<exists>a b'. bv_step B c b = Some (a, b') \<and> bv_inv X items b' \<and> external_out a"
proof -
  obtain e call where c: "c = (e, call)" by (cases c)
  from inv have pmi: "pm_inv X items (bv_pm b)" by (simp add: bv_inv_def)
  note kinds = subscribe_kind_def unsubscribe_kind_def behaviour_subscribe_def behaviour_unsubscribe_def with_globals_def
    behaviour_publish_def behaviour_propagate_message_def bv_rpc_ops delegate_to_behaviours_def
  show ?thesis
  proof (cases call)
    case (BvEvent p cid ev)
    then show ?thesis using inv by (cases ev) (auto simp: c bv_inv_def)
  next
    case (BvPoll rounds)
    then show ?thesis using behaviour_poll_ok [OF inv] ok by (simp add: c)
  next
    case (BvAddresses p)
    with ok addresses_of_peer_ok [OF pmi, of "bl_pm B" p] inv show ?thesis
      by (auto simp: c bv_inv_def behaviour_addresses_of_peer_def)
  next
    case (BvAddEnr enr)
    with ok inv pmi show ?thesis
      using add_enr_ok [of "pm_discovery (bv_pm b)" "lib_enr (bl_pm B)" "lib_key (bl_pm B)" enr "lib_disc (bl_pm B)"]
      by (auto simp: c bv_inv_def behaviour_add_enr_def pm_inv_def)
  next
    case (BvManager call)
    with ok pm_step_ok [OF pmi, of "(e, call)"] inv show ?thesis by (auto simp: c bv_inv_def)
  qed (use inv in \<open>auto simp: c kinds bv_inv_def Let_def pm_inv_subscriptions split: prod.splits\<close>)
qed

end

sublocale behaviour_env \<subseteq> bv: op_machine "bv_step B" "bv_inv X items" "bv_call_ok (bl_pm B)"
  for X
  by unfold_locales (use bv_step_ok in blast)

section \<open>Concrete parts\<close>

text \<open>For the examples: a part is the list of the actions that it will return.\<close>

definition list_behaviour :: "((nat, 'ev) nb_action list, (nat, nat) third_event list, nat, 'ev) third_behaviour" where
  "list_behaviour =
     \<lparr> tb_new_handler = Pair [], tb_notice = (\<lambda>_ s. s), tb_event = (\<lambda>p c m s. s @ [NotifyHandler p (NotifyOne c) m]),
       tb_poll = (\<lambda>_ s. case s of [] \<Rightarrow> (Pending, []) | a # as \<Rightarrow> (Ready a, as)) \<rparr>"

definition ref_bv_lib ::
  "((nat, gossip_event) nb_action list, (nat, nat) third_event list, nat, (nat, identify_event) nb_action list,
    (nat, nat) third_event list, nat, peer_id list_queue, ref_enr list, (peer_id \<times> ref_enr) list, ref_builder, ref_enr, u8 list) bv_lib" where
  "ref_bv_lib =
     \<lparr> bl_gossip = list_behaviour, bl_identify = list_behaviour, bl_pm = ref_pm_lib, gs_new = (\<lambda>_ _. []),
       gs_subscribe = (\<lambda>_ s. (True, s)), gs_unsubscribe = (\<lambda>_ s. (True, s)), gs_publish = (\<lambda>_ _ s. s),
       gs_propagate_message = (\<lambda>_ _ s. s), identify_new = (\<lambda>_ _ _. []), keypair_public = (\<lambda>_. Ed25519Key [1]) \<rparr>"

lemma list_third_queue: "third_queue list_behaviour length"
  by unfold_locales (auto simp: list_behaviour_def split: list.splits)

interpretation ref_bv: behaviour_env ref_bv_lib map_of length length
  by (intro behaviour_env.intro) (simp_all add: ref_bv_lib_def ref_pm.pm_env_axioms list_third_queue)

type_synonym ref_behaviour =
  "((nat, gossip_event) nb_action list, (nat, identify_event) nb_action list, peer_id list_queue, ref_enr list,
    (peer_id \<times> ref_enr) list, ref_enr) behaviour"

definition ref_bv_start :: ref_behaviour where
  "ref_bv_start = \<lparr> gossipsub = [], mothra_rpc = rpc_new, bv_identify = [], bv_pm = ref_pm_start, bv_events = [], peers_to_dc = [],
     bv_meta_data = g_meta_data ref_globals, bv_ping_data = g_ping_data ref_globals, bv_fork_id = g_fork_id ref_globals \<rparr>"

lemma ref_bv_new:
  "behaviour_new ref_bv_lib (Ed25519Pair (replicate 64 1)) (config_default [] [] [] None) ref_globals NoFile = Some (Inr ref_bv_start)"
  using ref_pm_new by (simp add: behaviour_new_def ref_bv_lib_def ref_bv_start_def)

context behaviour_env
begin

lemma behaviour_new_inv:
  assumes "behaviour_new B key config g disk = Some (Inr b)" and "g_peers g = peerdb_new"
  shows "bv_inv X items b"
  using assms pm_new_inv by (auto simp: behaviour_new_def bv_inv_def split: option.splits sum.splits)

lemma behaviour_run:
  assumes "behaviour_new B key config g disk = Some (Inr b)" and "g_peers g = peerdb_new" and "list_all (bv_call_ok (bl_pm B)) cs"
  shows "\<exists>acts b'. run_calls (bv_step B) cs b = Some (acts, b') \<and> bv_inv X items b' \<and>
           list_all external_out acts"
proof -
  note inv = behaviour_new_inv [OF assms(1,2), of X]
  from bv.run_ok [OF inv assms(3)] obtain acts b' where run: "run_calls (bv_step B) cs b = Some (acts, b')" "bv_inv X items b'" by blast
  have "list_all external_out acts"
  proof (rule bv.run_outputs [OF _ inv assms(3) run(1)])
    fix s c out s'
    assume "bv_inv X items s" "bv_call_ok (bl_pm B) c" "bv_step B c s = Some (out, s')"
    with bv_step_ok [of X s c] show "external_out out" by auto
  qed
  with run show ?thesis by blast
qed

end

section \<open>What waits to be sent\<close>

text \<open>The notifications in the queue of the RPC, followed by the answers to the messages in it; and the
  peers that are to be disconnected, followed by the ones that have said goodbye.\<close>

definition answer :: "('g, 'i, 'q, 'd, 'l, 'e) behaviour \<Rightarrow> rpc_message \<Rightarrow> (rpc_send, rpc_message) nb_action list" where
  "answer b m =
     (case rm_event m of
        Inr (ReceivedRequest sid (PingRequest _)) \<Rightarrow>
          [NotifyHandler (rm_peer_id m) (NotifyOne (rm_conn_id m)) (SendResponse sid (Success (Pong (bv_ping_data b))))]
      | Inr (ReceivedRequest sid MetaDataRequest) \<Rightarrow>
          [NotifyHandler (rm_peer_id m) (NotifyOne (rm_conn_id m)) (SendResponse sid (Success (MetaDataResponse (bv_meta_data b))))]
      | _ \<Rightarrow> [])"

definition goodbye :: "rpc_message \<Rightarrow> peer_id list" where
  "goodbye m = (case rm_event m of Inr (ReceivedRequest _ (GoodbyeRequest _)) \<Rightarrow> [rm_peer_id m] | _ \<Rightarrow> [])"

definition notices :: "rpc_behaviour \<Rightarrow> (rpc_send, rpc_message) nb_action list" where
  "notices r = filter (\<lambda>a. message_of a = []) (rpc_events r)"

definition rpc_backlog :: "('g, 'i, 'q, 'd, 'l, 'e) behaviour \<Rightarrow> (rpc_send, rpc_message) nb_action list" where
  "rpc_backlog b = notices (mothra_rpc b) @ concat (map (answer b) (messages (mothra_rpc b)))"

definition dc_backlog :: "('g, 'i, 'q, 'd, 'l, 'e) behaviour \<Rightarrow> peer_id list" where
  "dc_backlog b = peers_to_dc b @ concat (map goodbye (messages (mothra_rpc b)))"

fun rpc_action :: "(rpc_send, 'o) nb_action \<Rightarrow> (('gm, 'im) behaviour_handler_in, 'o2) nb_action option" where
  "rpc_action (NotifyHandler p h ev) = Some (NotifyHandler p h (BhDelegate (DiRPC ev)))"
| "rpc_action (DialAddress a) = Some (DialAddress a)"
| "rpc_action (DialPeer p c) = Some (DialPeer p c)"
| "rpc_action (ReportObservedAddr a) = Some (ReportObservedAddr a)"
| "rpc_action (GenerateEvent _) = None"

text \<open>The fields that no message of the RPC changes.\<close>

definition same_rest :: "('g, 'i, 'q, 'd, 'l, 'e) behaviour \<Rightarrow> ('g, 'i, 'q, 'd, 'l, 'e) behaviour \<Rightarrow> bool" where
  "same_rest b b' \<longleftrightarrow> gossipsub b' = gossipsub b \<and> bv_identify b' = bv_identify b \<and> bv_meta_data b' = bv_meta_data b \<and>
     bv_ping_data b' = bv_ping_data b"

lemma same_rest_trans: "same_rest b b1 \<Longrightarrow> same_rest b1 b2 \<Longrightarrow> same_rest b b2"
  by (simp add: same_rest_def)

lemma on_rpc_event_effect:
  assumes "on_rpc_event B e (rm_peer_id m) (rm_conn_id m) (rm_event m) b = Some b'"
  shows "rpc_events (mothra_rpc b') = rpc_events (mothra_rpc b) @ answer b m \<and> peers_to_dc b' = peers_to_dc b @ goodbye m \<and> same_rest b b'"
proof (cases "rm_event m")
  case (Inl err)
  with assms show ?thesis
    by (cases err) (auto simp: answer_def goodbye_def same_rest_def Let_def)
next
  case (Inr rcv)
  with assms show ?thesis
    by (cases rcv) (auto simp: answer_def goodbye_def same_rest_def bv_rpc_ops rpc_push_ops bv_statusd_def propagate_request_def propagate_response_def
      split: rpc_request.splits rpc_response.splits)
qed

lemma answer_same_rest_fields: "bv_meta_data b' = bv_meta_data b \<Longrightarrow> bv_ping_data b' = bv_ping_data b \<Longrightarrow> answer b' = answer b"
  by (simp add: answer_def fun_eq_iff cong: sum.case_cong rpc_received.case_cong rpc_request.case_cong)

lemma answer_same_rest: "same_rest b b' \<Longrightarrow> answer b' = answer b"
  by (rule answer_same_rest_fields) (simp_all add: same_rest_def)

lemma answer_cases: "answer b m = [] \<or> (\<exists>p h ev. answer b m = [NotifyHandler p h ev])"
  by (simp add: answer_def split: sum.split rpc_received.split rpc_request.split)

lemma answers_are_notices: "filter (\<lambda>a. message_of a = []) (answer b m) = answer b m" "concat (map message_of (answer b m)) = []"
  using answer_cases [of b m] by auto

lemma backlog_notices: "a \<in> set (rpc_backlog b) \<Longrightarrow> message_of a = []"
  by (auto simp: rpc_backlog_def notices_def) (metis (mono_tags, lifting) answers_are_notices(1) mem_Collect_eq set_filter)

lemma backlog_message:
  assumes "rpc_events (mothra_rpc b) = GenerateEvent m # as"
    and "rpc_events (mothra_rpc b') = as @ answer b m" "peers_to_dc b' = peers_to_dc b @ goodbye m" "same_rest b b'"
  shows "rpc_backlog b' = rpc_backlog b" "dc_backlog b' = dc_backlog b"
    "messages (mothra_rpc b) = m # messages (mothra_rpc b')"
  using assms
  by (simp_all add: rpc_backlog_def dc_backlog_def notices_def messages_def answer_same_rest answers_are_notices)

lemma backlog_notice:
  assumes "rpc_events (mothra_rpc b) = a # as" "message_of a = []"
  shows "rpc_backlog b = a # rpc_backlog (b\<lparr> mothra_rpc := (mothra_rpc b)\<lparr> rpc_events := as \<rparr> \<rparr>)"
    "dc_backlog (b\<lparr> mothra_rpc := (mothra_rpc b)\<lparr> rpc_events := as \<rparr> \<rparr>) = dc_backlog b"
  using assms answer_same_rest [of b "b\<lparr> mothra_rpc := (mothra_rpc b)\<lparr> rpc_events := as \<rparr> \<rparr>"]
  by (simp_all add: rpc_backlog_def dc_backlog_def notices_def messages_def same_rest_def)

lemma rpc_backlog_Nil: "rpc_events (mothra_rpc b) = [] \<Longrightarrow> rpc_backlog b = []"
  by (simp add: rpc_backlog_def notices_def messages_def)

context behaviour_env
begin

lemma poll_mothra_rpc_backlog:
  "bv_inv X items b \<Longrightarrow>
   \<exists>b'. poll_mothra_rpc B e b = Some (case rpc_backlog b of [] \<Rightarrow> None | a # _ \<Rightarrow> rpc_action a, b') \<and> bv_inv X items b' \<and>
     rpc_backlog b' = tl (rpc_backlog b) \<and> dc_backlog b' = dc_backlog b \<and> same_rest b b' \<and>
     (rpc_backlog b = [] \<longrightarrow> rpc_events (mothra_rpc b') = [])"
proof (induction "length (messages (mothra_rpc b))" arbitrary: b rule: less_induct)
  case less
  show ?case
  proof (cases "rpc_events (mothra_rpc b)")
    case Nil
    then show ?thesis
      using less.prems rpc_backlog_Nil [OF Nil] unfolding poll_mothra_rpc_def
      by (subst poll_behaviour.simps) (auto simp: rpc_poll_def same_rest_def)
  next
    case (Cons a as)
    let ?b1 = "b\<lparr> mothra_rpc := (mothra_rpc b)\<lparr> rpc_events := as \<rparr> \<rparr>"
    have inv1: "bv_inv X items ?b1" using less.prems by (simp add: bv_inv_def)
    show ?thesis
    proof (cases a)
      case (GenerateEvent m)
      from on_rpc_event_ok [OF inv1, of e "rm_peer_id m" "rm_conn_id m" "rm_event m"] obtain b2 where
        b2: "on_rpc_event B e (rm_peer_id m) (rm_conn_id m) (rm_event m) ?b1 = Some b2" "bv_inv X items b2" by blast
      have sr: "same_rest b ?b1" by (simp add: same_rest_def)
      from on_rpc_event_effect [OF b2(1)] have eff: "rpc_events (mothra_rpc b2) = as @ answer b m" "peers_to_dc b2 = peers_to_dc b @ goodbye m" "same_rest b b2"
        using answer_same_rest [OF sr] same_rest_trans [OF sr] by simp_all
      note bl = backlog_message [OF Cons [unfolded GenerateEvent] eff]
      from less.hyps [OF _ b2(2)] bl(3) obtain b' where
        "poll_mothra_rpc B e b2 = Some (case rpc_backlog b2 of [] \<Rightarrow> None | a # _ \<Rightarrow> rpc_action a, b')" "bv_inv X items b'"
        "rpc_backlog b' = tl (rpc_backlog b2)" "dc_backlog b' = dc_backlog b2" "same_rest b2 b'"
        "rpc_backlog b2 = [] \<longrightarrow> rpc_events (mothra_rpc b') = []" by auto
      moreover have "poll_mothra_rpc B e b = poll_mothra_rpc B e b2"
        unfolding poll_mothra_rpc_def by (subst poll_behaviour.simps) (simp add: rpc_poll_def Cons GenerateEvent b2(1))
      ultimately show ?thesis using bl same_rest_trans [OF eff(3)] by auto
    qed (use inv1 backlog_notice [OF Cons] in \<open>(simp add: poll_mothra_rpc_def, subst poll_behaviour.simps,
        auto simp: rpc_poll_def Cons same_rest_def)+\<close>)
  qed
qed

end

section \<open>Properties\<close>

text \<open>C4. Whatever the swarm, the peers and the application do, no call of the behaviour panics and every
  poll returns: the loops over the events of gossipsub, of the RPC, of identify and of the peer
  manager all come to an end, provided that gossipsub and identify use up what they report. Every
  connected or dialing peer keeps its timers, and the application is never told about the requests that
  the behaviour makes on its own account.\<close>

theorem behaviour_calls_return:
  assumes "behaviour_env B items gossip_waiting identify_waiting"
    and "behaviour_new B key config g disk = Some (Inr b)" and "g_peers g = peerdb_new"
    and "list_all (bv_call_ok (bl_pm B)) cs"
  shows "\<exists>acts b'. run_calls (bv_step B) cs b = Some (acts, b') \<and>
           (\<forall>p. is_connected_or_dialing (pm_db (bv_pm b')) p \<longrightarrow>
              hsd_contains p (ping_peers (bv_pm b')) \<and> hsd_contains p (status_peers (bv_pm b'))) \<and>
           (\<forall>ev. Ready (GenerateEvent ev) \<in> set acts \<longrightarrow> external ev)"
  using behaviour_env.behaviour_run [OF assms, of UNIV]
  by (fastforce simp: bv_inv_def pm_inv_def list_all_iff)

definition busy_behaviour :: "(env \<times> (nat, nat, ref_enr) bv_call) list" where
  "busy_behaviour =
     [(\<lparr> now = 1, overflow_checks = False \<rparr>, BvManager (PmConnectIngoing [1, 2])),
      (\<lparr> now = 1, overflow_checks = False \<rparr>, BvNotice (NConnected [1, 2])),
      (\<lparr> now = 2, overflow_checks = False \<rparr>, BvPoll []),
      (\<lparr> now = 3, overflow_checks = False \<rparr>, BvEvent [1, 2] 0 (DoRPC (Inl (OutboundErr Router PStatus StreamTimeout)))),
      (\<lparr> now = 3, overflow_checks = False \<rparr>, BvEvent [1, 2] 0 (DoRPC (Inr (ReceivedRequest 4 (PingRequest [7]))))),
      (\<lparr> now = 40000, overflow_checks = False \<rparr>, BvPoll [(1, [])]),
      (\<lparr> now = 40000, overflow_checks = False \<rparr>, BvPoll [])]"

theorem behaviour_calls_return_witness:
  "\<exists>acts b'. run_calls (bv_step ref_bv_lib) busy_behaviour ref_bv_start = Some (acts, b') \<and>
     (\<forall>p. is_connected_or_dialing (pm_db (bv_pm b')) p \<longrightarrow>
        hsd_contains p (ping_peers (bv_pm b')) \<and> hsd_contains p (status_peers (bv_pm b'))) \<and>
     (\<forall>ev. Ready (GenerateEvent ev) \<in> set acts \<longrightarrow> external ev)"
  by (rule behaviour_calls_return [OF ref_bv.behaviour_env_axioms ref_bv_new ref_globals_peers]) (simp add: busy_behaviour_def)

lemma poll_gossipsub_quiet:
  "tb_poll (bl_gossip B) e (gossipsub b) = (Pending, g) \<Longrightarrow> poll_gossipsub B e b = Some (None, b\<lparr> gossipsub := g \<rparr>)"
  unfolding poll_gossipsub_def by (subst poll_behaviour.simps) simp

lemma poll_identify_quiet:
  "tb_poll (bl_identify B) e (bv_identify b) = (Pending, i) \<Longrightarrow> poll_identify B e b = Some (None, b\<lparr> bv_identify := i \<rparr>)"
  unfolding poll_identify_def by (subst poll_behaviour.simps) simp

lemma answer_quiet [simp]:
  "answer (b\<lparr> gossipsub := g \<rparr>) = answer b" "answer (b\<lparr> bv_identify := i \<rparr>) = answer b" "answer (b\<lparr> peers_to_dc := ps \<rparr>) = answer b"
  by (rule answer_same_rest_fields; simp)+

lemma backlog_quiet [simp]:
  "rpc_backlog (b\<lparr> gossipsub := g \<rparr>) = rpc_backlog b" "dc_backlog (b\<lparr> gossipsub := g \<rparr>) = dc_backlog b"
  "rpc_backlog (b\<lparr> bv_identify := i \<rparr>) = rpc_backlog b" "dc_backlog (b\<lparr> bv_identify := i \<rparr>) = dc_backlog b"
  "rpc_backlog (b\<lparr> peers_to_dc := ps \<rparr>) = rpc_backlog b"
  by (simp_all add: rpc_backlog_def dc_backlog_def)

text \<open>C37. The requests of peers that the behaviour answers itself (ping and meta data) are answered in the
  order in which they arrived, after everything that was queued before: while gossipsub has nothing to
  do, every poll hands the first waiting message to the swarm, addressed to the connection that the
  request came from, and leaves the rest waiting in order.\<close>

theorem rpc_answers_in_order:
  assumes "behaviour_env B items gossip_waiting identify_waiting" and "bv_inv X items b"
    and "tb_poll (bl_gossip B) e (gossipsub b) = (Pending, g)" and "rpc_backlog b = a # rest"
  shows "\<exists>act b'. rpc_action a = Some act \<and> behaviour_poll B e rounds b = Some (Ready act, b') \<and>
           rpc_backlog b' = rest \<and> dc_backlog b' = dc_backlog b"
proof -
  have inv: "bv_inv X items (b\<lparr> gossipsub := g \<rparr>)" using assms(2) by (simp add: bv_inv_def)
  have "message_of a = []" using backlog_notices [of a b] assms(4) by simp
  from behaviour_env.poll_mothra_rpc_backlog [OF assms(1) inv, of e] assms(4) obtain b' where
    b': "poll_mothra_rpc B e (b\<lparr> gossipsub := g \<rparr>) = Some (rpc_action a, b')" "rpc_backlog b' = rest" "dc_backlog b' = dc_backlog b" by auto
  obtain act where "poll_mothra_rpc B e (b\<lparr> gossipsub := g \<rparr>) = Some (Some act, b')" "rpc_action a = Some act"
    using b'(1) \<open>message_of a = []\<close> by (cases a) auto
  with b' show ?thesis using poll_gossipsub_quiet [OF assms(3)] by (auto simp: behaviour_poll_def and_then_def)
qed

definition asked_behaviour :: ref_behaviour where
  "asked_behaviour = ref_bv_start\<lparr> mothra_rpc := \<lparr> rpc_events =
     [GenerateEvent \<lparr> rm_peer_id = [1, 2], rm_conn_id = 3, rm_event = Inr (ReceivedRequest 4 (PingRequest [9])) \<rparr>,
      GenerateEvent \<lparr> rm_peer_id = [5, 6], rm_conn_id = 7, rm_event = Inr (ReceivedRequest 0 MetaDataRequest) \<rparr>,
      NotifyHandler [1, 2] NotifyAny (SendRequest Router (StatusRequest [1])),
      GenerateEvent \<lparr> rm_peer_id = [5, 6], rm_conn_id = 7, rm_event = Inr (ReceivedRequest 1 (GoodbyeRequest [])) \<rparr>] \<rparr> \<rparr>"

lemma asked_behaviour_inv: "bv_inv UNIV map_of asked_behaviour"
  using ref_bv.behaviour_new_inv [OF ref_bv_new ref_globals_peers, of UNIV] by (simp add: asked_behaviour_def bv_inv_def)

theorem rpc_answers_in_order_witness:
  "\<exists>b'. behaviour_poll ref_bv_lib \<lparr> now = 1, overflow_checks = False \<rparr> [] asked_behaviour =
       Some (Ready (NotifyHandler [1, 2] NotifyAny (BhDelegate (DiRPC (SendRequest Router (StatusRequest [1]))))), b') \<and>
     rpc_backlog b' =
       [NotifyHandler [1, 2] (NotifyOne 3) (SendResponse 4 (Success (Pong (g_ping_data ref_globals)))),
        NotifyHandler [5, 6] (NotifyOne 7) (SendResponse 0 (Success (MetaDataResponse (g_meta_data ref_globals))))] \<and>
     dc_backlog b' = [[5, 6]]"
proof -
  have q: "tb_poll (bl_gossip ref_bv_lib) \<lparr> now = 1, overflow_checks = False \<rparr> (gossipsub asked_behaviour) = (Pending, [])"
    by (simp add: ref_bv_lib_def list_behaviour_def asked_behaviour_def ref_bv_start_def)
  have bl: "rpc_backlog asked_behaviour = NotifyHandler [1, 2] NotifyAny (SendRequest Router (StatusRequest [1])) #
       [NotifyHandler [1, 2] (NotifyOne 3) (SendResponse 4 (Success (Pong (g_ping_data ref_globals)))),
        NotifyHandler [5, 6] (NotifyOne 7) (SendResponse 0 (Success (MetaDataResponse (g_meta_data ref_globals))))]"
    "dc_backlog asked_behaviour = [[5, 6]]"
    by (simp_all add: rpc_backlog_def dc_backlog_def notices_def messages_def asked_behaviour_def ref_bv_start_def answer_def goodbye_def)
  from rpc_answers_in_order [OF ref_bv.behaviour_env_axioms asked_behaviour_inv q bl(1), of "[]"] bl(2) show ?thesis by auto
qed

text \<open>A peer that says goodbye is disconnected: once nothing else waits to be sent, a poll tells all
  handlers of the first such peer to shut down, without a final message, and keeps the others waiting
  in order.\<close>

theorem goodbye_disconnects:
  assumes "behaviour_env B items gossip_waiting identify_waiting" and "bv_inv X items b"
    and "tb_poll (bl_gossip B) e (gossipsub b) = (Pending, g)" and "tb_poll (bl_identify B) e (bv_identify b) = (Pending, i)"
    and "rpc_backlog b = []" and "dc_backlog b = p # ps"
  shows "\<exists>b'. behaviour_poll B e rounds b = Some (Ready (NotifyHandler p NotifyAll (BhShutdown None)), b') \<and>
           dc_backlog b' = ps \<and> rpc_backlog b' = []"
proof -
  have inv: "bv_inv X items (b\<lparr> gossipsub := g \<rparr>)" using assms(2) by (simp add: bv_inv_def)
  from behaviour_env.poll_mothra_rpc_backlog [OF assms(1) inv, of e] assms(5,6) obtain b' where
    b': "poll_mothra_rpc B e (b\<lparr> gossipsub := g \<rparr>) = Some (None, b')" "rpc_backlog b' = []" "dc_backlog b' = p # ps"
      "same_rest (b\<lparr> gossipsub := g \<rparr>) b'" "rpc_events (mothra_rpc b') = []" by auto
  from b'(4) have "bv_identify b' = bv_identify b" by (simp add: same_rest_def)
  with assms(4) have q: "poll_identify B e b' = Some (None, b'\<lparr> bv_identify := i \<rparr>)" by (intro poll_identify_quiet) simp
  from b'(3,5) have "peers_to_dc b' = p # ps" by (simp add: dc_backlog_def messages_def)
  with b' q show ?thesis using poll_gossipsub_quiet [OF assms(3)]
    by (simp add: behaviour_poll_def and_then_def custom_poll_def dc_backlog_def messages_def)
qed

definition goodbye_behaviour :: ref_behaviour where
  "goodbye_behaviour = ref_bv_start\<lparr> mothra_rpc := \<lparr> rpc_events =
     [GenerateEvent \<lparr> rm_peer_id = [5, 6], rm_conn_id = 7, rm_event = Inr (ReceivedRequest 1 (GoodbyeRequest [])) \<rparr>,
      GenerateEvent \<lparr> rm_peer_id = [5, 7], rm_conn_id = 8, rm_event = Inr (ReceivedRequest 0 (GoodbyeRequest [2])) \<rparr>] \<rparr> \<rparr>"

theorem goodbye_disconnects_witness:
  "\<exists>b'. behaviour_poll ref_bv_lib \<lparr> now = 1, overflow_checks = False \<rparr> [] goodbye_behaviour =
       Some (Ready (NotifyHandler [5, 6] NotifyAll (BhShutdown None)), b') \<and> dc_backlog b' = [[5, 7]] \<and> rpc_backlog b' = []"
proof -
  have inv: "bv_inv UNIV map_of goodbye_behaviour"
    using ref_bv.behaviour_new_inv [OF ref_bv_new ref_globals_peers, of UNIV] by (simp add: goodbye_behaviour_def bv_inv_def)
  have q: "tb_poll (bl_gossip ref_bv_lib) \<lparr> now = 1, overflow_checks = False \<rparr> (gossipsub goodbye_behaviour) = (Pending, [])"
    "tb_poll (bl_identify ref_bv_lib) \<lparr> now = 1, overflow_checks = False \<rparr> (bv_identify goodbye_behaviour) = (Pending, [])"
    by (simp_all add: ref_bv_lib_def list_behaviour_def goodbye_behaviour_def ref_bv_start_def)
  have bl: "rpc_backlog goodbye_behaviour = []" "dc_backlog goodbye_behaviour = [5, 6] # [[5, 7]]"
    by (simp_all add: rpc_backlog_def dc_backlog_def notices_def messages_def goodbye_behaviour_def ref_bv_start_def answer_def goodbye_def)
  from goodbye_disconnects [OF ref_bv.behaviour_env_axioms inv q bl] show ?thesis .
qed

end
