(* ===== verification/Network_Service.thy ===== *)
theory Network_Service
  imports Network_Behaviour "HOL-Library.Code_Target_Numeral"
begin

text \<open>
  \<open>core/network/src/service.rs\<close>: the service that owns the swarm and the behaviour, starts them, keeps
  the peer database in step with the connections and carries out bans.

  The swarm is libp2p's (\<open>swarm_lib\<close>); the behaviour inside it is the one of \<open>Network_Behaviour\<close>, and what
  the swarm calls on it is part of a run. The file with the private key and the secp256k1 library are
  \<open>key_store_lib\<close>. Whether the transport could be built is an argument (\<open>Transport\<close> models
  \<open>build_transport\<close>). Which branch of \<open>tokio::select!\<close> is taken is not
  determined, so \<open>service_round\<close> performs the branch it is given.
\<close>

section \<open>Keys\<close>

definition NETWORK_KEY_FILENAME :: string where "NETWORK_KEY_FILENAME = ''key''"
definition BAN_PEER_WAIT_TIMEOUT :: nat where "BAN_PEER_WAIT_TIMEOUT = 200"
definition MAX_CONNECTIONS_PER_PEER :: nat where "MAX_CONNECTIONS_PER_PEER = 1"

datatype key_file = NoKeyFile | UnreadableKeyFile | KeyFile "u8 list"

record key_store_lib =
  secret_from_bytes :: "u8 list \<Rightarrow> string + u8 list"
  secret_to_bytes :: "u8 list \<Rightarrow> u8 list"
  write_key :: "key_file \<Rightarrow> u8 list \<Rightarrow> key_file"
  hex_decode :: "string \<Rightarrow> string + u8 list"

definition keypair_from_bytes :: "key_store_lib \<Rightarrow> u8 list \<Rightarrow> string + keypair" where
  "keypair_from_bytes kst bytes =
     (case secret_from_bytes kst bytes of
        Inr secret \<Rightarrow> Inr (Secp256k1Pair secret)
      | Inl err \<Rightarrow> Inl (''Unable to parse p2p secret key: '' @ err))"

definition keypair_from_hex :: "key_store_lib \<Rightarrow> string \<Rightarrow> string + keypair" where
  "keypair_from_hex kst hex =
     (let digits = (if take 2 hex = ''0x'' then drop 2 hex else hex)
      in (case hex_decode kst digits of
            Inl err \<Rightarrow> Inl (''Failed to parse p2p secret key bytes: '' @ err)
          | Inr bytes \<Rightarrow> keypair_from_bytes kst bytes))"

text \<open>\<open>fresh\<close> is the secret that \<open>generate_secp256k1\<close> would draw.\<close>

definition load_private_key :: "key_store_lib \<Rightarrow> u8 list \<Rightarrow> key_file \<Rightarrow> keypair \<times> key_file" where
  "load_private_key kst fresh file =
     (let generated = (Secp256k1Pair fresh, write_key kst file (secret_to_bytes kst fresh))
      in (case file of
            KeyFile key_bytes \<Rightarrow>
              (case secret_from_bytes kst key_bytes of
                 Inr secret_key \<Rightarrow> (Secp256k1Pair secret_key, file)
               | Inl _ \<Rightarrow> generated)
          | _ \<Rightarrow> generated))"

section \<open>The service\<close>

record 'sw swarm_lib =
  sw_build :: "nat \<Rightarrow> peer_id \<Rightarrow> 'sw"
  sw_listen_on :: "multiaddr \<Rightarrow> 'sw \<Rightarrow> (string + unit) \<times> 'sw"
  sw_dial_addr :: "multiaddr \<Rightarrow> 'sw \<Rightarrow> (string + unit) \<times> 'sw"
  sw_ban_peer_id :: "peer_id \<Rightarrow> 'sw \<Rightarrow> 'sw"
  sw_unban_peer_id :: "peer_id \<Rightarrow> 'sw \<Rightarrow> 'sw"

datatype libp2p_event =
    LBehaviour behaviour_event
  | LNewListenAddr multiaddr
  | LPeerConnected peer_id connected_point
  | LPeerDisconnected peer_id connected_point

record ('sw, 'g, 'i, 'q, 'd, 'l, 'e) service =
  sv_swarm :: 'sw
  sv_behaviour :: "('g, 'i, 'q, 'd, 'l, 'e) behaviour"
  sv_local_peer_id :: peer_id
  peers_to_ban :: 'q
  peer_ban_timeout :: 'q

definition listen_multiaddr :: "'e network_config \<Rightarrow> multiaddr" where
  "listen_multiaddr config = [case listen_address config of V4 a \<Rightarrow> Ip4 a | V6 a \<Rightarrow> Ip6 a, Tcp (libp2p_port config)]"

text \<open>The addresses of one boot node: \<open>components[1]\<close> panics on an address of one component, and so does
  \<open>peer_id()\<close> on an unusable key.\<close>

fun dial_bootnode ::
  "('b, 'e, 'k) enr_lib \<Rightarrow> 'k key_lib \<Rightarrow> 'sw swarm_lib \<Rightarrow> peerdb \<Rightarrow> 'e \<Rightarrow> multiaddr list \<Rightarrow> 'sw \<Rightarrow> 'sw option" where
  "dial_bootnode el kl S db enr [] sw = Some sw"
| "dial_bootnode el kl S db enr (addr # addrs) sw =
     (if length addr < 2 then None
      else if is_udp (addr ! 1) then dial_bootnode el kl S db enr addrs sw
      else (case enr_peer_id el kl enr of
              None \<Rightarrow> None
            | Some p \<Rightarrow>
                dial_bootnode el kl S db enr addrs
                  (if is_connected_or_dialing db p then sw else snd (sw_dial_addr S addr sw))))"

fun dial_bootnodes ::
  "('b, 'e, 'k) enr_lib \<Rightarrow> 'k key_lib \<Rightarrow> 'sw swarm_lib \<Rightarrow> peerdb \<Rightarrow> 'e list \<Rightarrow> 'sw \<Rightarrow> 'sw option" where
  "dial_bootnodes el kl S db [] sw = Some sw"
| "dial_bootnodes el kl S db (enr # enrs) sw =
     (case dial_bootnode el kl S db enr (enr_multiaddr el enr) sw of
        None \<Rightarrow> None
      | Some sw' \<Rightarrow> dial_bootnodes el kl S db enrs sw')"

text \<open>Once there is a behaviour: the swarm is built, told to listen, and dials.\<close>

definition start_swarm ::
  "('g, 'gh, 'gm, 'i, 'ih, 'im, 'q, 'd, 'l, 'b, 'e, 'k) bv_lib \<Rightarrow> 'sw swarm_lib \<Rightarrow> 'e network_config \<Rightarrow> peer_id \<Rightarrow>
   ('g, 'i, 'q, 'd, 'l, 'e) behaviour \<Rightarrow> (string + ('sw, 'g, 'i, 'q, 'd, 'l, 'e) service) option" where
  "start_swarm B S config peer b =
     (case sw_listen_on S (listen_multiaddr config) (sw_build S MAX_CONNECTIONS_PER_PEER peer) of
        (Inl _, _) \<Rightarrow> Some (Inl ''Libp2p was unable to listen on the given listen address.'')
      | (Inr _, sw) \<Rightarrow>
          map_option (\<lambda>sw'. Inr \<lparr> sv_swarm = sw', sv_behaviour = b, sv_local_peer_id = peer,
                 peers_to_ban = dq_new (lib_dq (bl_pm B)), peer_ban_timeout = dq_new (lib_dq (bl_pm B)) \<rparr>)
            (dial_bootnodes (lib_enr (bl_pm B)) (lib_key (bl_pm B)) S (pm_db (bv_pm b)) (remdups_adj (boot_nodes config))
              (foldl (\<lambda>sw addr. snd (sw_dial_addr S addr sw)) sw (libp2p_nodes config))))"

definition service_new ::
  "('g, 'gh, 'gm, 'i, 'ih, 'im, 'q, 'd, 'l, 'b, 'e, 'k) bv_lib \<Rightarrow> 'sw swarm_lib \<Rightarrow> key_store_lib \<Rightarrow> u8 list \<Rightarrow> string + unit \<Rightarrow>
   'e network_config \<Rightarrow> enr_fork_id \<Rightarrow> u8 list \<Rightarrow> u8 list \<Rightarrow> key_file \<Rightarrow> disk_file \<Rightarrow>
   ((string + ('sw, 'g, 'i, 'q, 'd, 'l, 'e) service) \<times> key_file \<times> disk_file) option" where
  "service_new B S kst fresh transport config fork_id meta_data ping_data file disk =
     (let (local_keypair, file') = load_private_key kst fresh file;
          P = bl_pm B
      in (case build_or_load_enr (lib_enr P) (lib_key P) (lib_write P) local_keypair config fork_id disk of
            None \<Rightarrow> None
          | Some (Inl err, disk') \<Rightarrow> Some (Inl err, file', disk')
          | Some (Inr enr, disk') \<Rightarrow>
              (case globals_new (lib_enr P) (lib_key P) enr fork_id meta_data ping_data (libp2p_port config) (discovery_port config) of
                 None \<Rightarrow> None
               | Some g \<Rightarrow>
                   (case transport of
                      Inl err \<Rightarrow> Some (Inl (''Failed to build transport: '' @ err), file', disk')
                    | Inr _ \<Rightarrow>
                        (case behaviour_new B local_keypair config g disk' of
                           None \<Rightarrow> None
                         | Some (Inl err) \<Rightarrow> Some (Inl err, file', disk')
                         | Some (Inr b) \<Rightarrow> map_option (\<lambda>r. (r, file', disk')) (start_swarm B S config (g_peer_id g) b))))))"

definition disconnect_and_ban_peer ::
  "('g, 'gh, 'gm, 'i, 'ih, 'im, 'q, 'd, 'l, 'b, 'e, 'k) bv_lib \<Rightarrow> env \<Rightarrow> peer_id \<Rightarrow> duration \<Rightarrow>
   ('sw, 'g, 'i, 'q, 'd, 'l, 'e) service \<Rightarrow> ('sw, 'g, 'i, 'q, 'd, 'l, 'e) service option" where
  "disconnect_and_ban_peer B e p timeout s =
     (case dq_insert (lib_dq (bl_pm B)) (now e) p BAN_PEER_WAIT_TIMEOUT (peers_to_ban s) of
        None \<Rightarrow> None
      | Some (q1, _) \<Rightarrow>
          (case dq_insert (lib_dq (bl_pm B)) (now e) p timeout (peer_ban_timeout s) of
             None \<Rightarrow> None
           | Some (q2, _) \<Rightarrow> Some (s\<lparr> peers_to_ban := q1, peer_ban_timeout := q2 \<rparr>)))"

definition service_send_request ::
  "peer_id \<Rightarrow> request_id \<Rightarrow> request \<Rightarrow> ('sw, 'g, 'i, 'q, 'd, 'l, 'e) service \<Rightarrow> ('sw, 'g, 'i, 'q, 'd, 'l, 'e) service" where
  "service_send_request p rid req s = s\<lparr> sv_behaviour := behaviour_send_request p rid req (sv_behaviour s) \<rparr>"

definition respond_with_error ::
  "peer_id \<Rightarrow> peer_request_id \<Rightarrow> rpc_response_error_code \<Rightarrow> string \<Rightarrow>
   ('sw, 'g, 'i, 'q, 'd, 'l, 'e) service \<Rightarrow> ('sw, 'g, 'i, 'q, 'd, 'l, 'e) service" where
  "respond_with_error p rid err reason s = s\<lparr> sv_behaviour := send_error_reponse p rid err reason (sv_behaviour s) \<rparr>"

definition service_send_response ::
  "peer_id \<Rightarrow> peer_request_id \<Rightarrow> response \<Rightarrow> ('sw, 'g, 'i, 'q, 'd, 'l, 'e) service \<Rightarrow> ('sw, 'g, 'i, 'q, 'd, 'l, 'e) service" where
  "service_send_response p rid res s = s\<lparr> sv_behaviour := send_successful_response p rid res (sv_behaviour s) \<rparr>"

section \<open>Events\<close>

datatype swarm_event =
    SwBehaviour behaviour_event
  | SwConnectionEstablished peer_id connected_point nat
  | SwConnectionClosed peer_id string connected_point nat
  | SwNewListenAddr multiaddr
  | SwIncomingConnection multiaddr multiaddr
  | SwIncomingConnectionError multiaddr multiaddr string
  | SwBannedPeer peer_id connected_point
  | SwUnreachableAddr peer_id multiaddr string nat
  | SwUnknownPeerUnreachableAddr multiaddr string
  | SwExpiredListenAddr multiaddr
  | SwListenerClosed "multiaddr list" "string + unit"
  | SwListenerError string
  | SwDialing peer_id

text \<open>Calls of the peer manager, whose result the service ignores.\<close>

definition on_manager ::
  "('g, 'gh, 'gm, 'i, 'ih, 'im, 'q, 'd, 'l, 'b, 'e, 'k) bv_lib \<Rightarrow> env \<Rightarrow> 'e pm_call \<Rightarrow>
   ('sw, 'g, 'i, 'q, 'd, 'l, 'e) service \<Rightarrow> ('sw, 'g, 'i, 'q, 'd, 'l, 'e) service option" where
  "on_manager B e call s =
     map_option (\<lambda>(_, b). s\<lparr> sv_behaviour := b \<rparr>) (bv_step B (e, BvManager call) (sv_behaviour s))"

text \<open>A dialed connection is entered into the database directly.\<close>

definition connect_outgoing_db ::
  "env \<Rightarrow> peer_id \<Rightarrow> ('sw, 'g, 'i, 'q, 'd, 'l, 'e) service \<Rightarrow> ('sw, 'g, 'i, 'q, 'd, 'l, 'e) service option" where
  "connect_outgoing_db e p s =
     map_option (\<lambda>db. s\<lparr> sv_behaviour := (sv_behaviour s)\<lparr> bv_pm := with_db db (bv_pm (sv_behaviour s)) \<rparr> \<rparr>)
       (connect_outgoing e p (pm_db (bv_pm (sv_behaviour s))))"

fun on_swarm_event ::
  "('g, 'gh, 'gm, 'i, 'ih, 'im, 'q, 'd, 'l, 'b, 'e, 'k) bv_lib \<Rightarrow> env \<Rightarrow> swarm_event \<Rightarrow>
   ('sw, 'g, 'i, 'q, 'd, 'l, 'e) service \<Rightarrow> (libp2p_event option \<times> ('sw, 'g, 'i, 'q, 'd, 'l, 'e) service) option" where
  "on_swarm_event B e (SwBehaviour ev) s = Some (Some (LBehaviour ev), s)"
| "on_swarm_event B e (SwConnectionEstablished p endpoint num_established) s =
     (if num_established = 1
      then map_option (Pair (Some (LPeerConnected p endpoint)))
             (case endpoint of
                Listener _ _ \<Rightarrow> on_manager B e (PmConnectIngoing p) s
              | Dialer _ \<Rightarrow> connect_outgoing_db e p s)
      else Some (None, s))"
| "on_swarm_event B e (SwConnectionClosed p cause endpoint num_established) s =
     (if num_established = 0
      then map_option (Pair (Some (LPeerDisconnected p endpoint))) (on_manager B e (PmNotifyDisconnect p) s)
      else Some (None, s))"
| "on_swarm_event B e (SwNewListenAddr addr) s = Some (Some (LNewListenAddr addr), s)"
| "on_swarm_event B e (SwUnreachableAddr p addr err attempts) s = map_option (Pair None) (on_manager B e (PmNotifyDisconnect p) s)"
| "on_swarm_event B e (SwDialing p) s = map_option (Pair None) (on_manager B e (PmDialing p) s)"
| "on_swarm_event B e _ s = Some (None, s)"

datatype select_branch = BrSwarm swarm_event | BrBan | BrUnban

text \<open>One round of the loop in \<open>next_event\<close>: a branch of \<open>select!\<close> whose pattern does not match has no
  effect but for the poll. \<open>peer_banned\<close> and \<open>peer_unbanned\<close> of the behaviour are empty.\<close>

fun service_round ::
  "('g, 'gh, 'gm, 'i, 'ih, 'im, 'q, 'd, 'l, 'b, 'e, 'k) bv_lib \<Rightarrow> 'sw swarm_lib \<Rightarrow> env \<Rightarrow> select_branch \<Rightarrow>
   ('sw, 'g, 'i, 'q, 'd, 'l, 'e) service \<Rightarrow> (libp2p_event option \<times> ('sw, 'g, 'i, 'q, 'd, 'l, 'e) service) option" where
  "service_round B S e (BrSwarm ev) s = on_swarm_event B e ev s"
| "service_round B S e BrBan s =
     Some (None,
       (case dq_poll (lib_dq (bl_pm B)) (now e) (peers_to_ban s) of
          (Ready (Some (Inr p)), q) \<Rightarrow>
            s\<lparr> peers_to_ban := q, sv_swarm := sw_ban_peer_id S p (sv_swarm s),
              sv_behaviour := delegate_to_behaviours B (NDisconnected p) (sv_behaviour s) \<rparr>
        | (_, q) \<Rightarrow> s\<lparr> peers_to_ban := q \<rparr>))"
| "service_round B S e BrUnban s =
     Some (None,
       (case dq_poll (lib_dq (bl_pm B)) (now e) (peer_ban_timeout s) of
          (Ready (Some (Inr p)), q) \<Rightarrow> s\<lparr> peer_ban_timeout := q, sv_swarm := sw_unban_peer_id S p (sv_swarm s) \<rparr>
        | (_, q) \<Rightarrow> s\<lparr> peer_ban_timeout := q \<rparr>))"

text \<open>The loop: rounds until one of them returns an event; with no more rounds it still waits.\<close>

fun next_event ::
  "('g, 'gh, 'gm, 'i, 'ih, 'im, 'q, 'd, 'l, 'b, 'e, 'k) bv_lib \<Rightarrow> 'sw swarm_lib \<Rightarrow> (env \<times> select_branch) list \<Rightarrow>
   ('sw, 'g, 'i, 'q, 'd, 'l, 'e) service \<Rightarrow>
   (libp2p_event option \<times> (env \<times> select_branch) list \<times> ('sw, 'g, 'i, 'q, 'd, 'l, 'e) service) option" where
  "next_event B S [] s = Some (None, [], s)"
| "next_event B S ((e, br) # rounds) s =
     (case service_round B S e br s of
        None \<Rightarrow> None
      | Some (Some ev, s') \<Rightarrow> Some (Some ev, rounds, s')
      | Some (None, s') \<Rightarrow> next_event B S rounds s')"

section \<open>Runs\<close>

text \<open>The calls on the behaviour are made by the swarm, or by the application through it; what the
  behaviour generates comes back as a swarm event.\<close>

datatype ('gm, 'im, 'e) service_call =
    ScBehaviour "('gm, 'im, 'e) bv_call"
  | ScRound select_branch
  | ScDisconnectAndBan peer_id duration
  | ScSendRequest peer_id request_id request
  | ScRespondWithError peer_id peer_request_id rpc_response_error_code string
  | ScSendResponse peer_id peer_request_id response

fun service_step ::
  "('g, 'gh, 'gm, 'i, 'ih, 'im, 'q, 'd, 'l, 'b, 'e, 'k) bv_lib \<Rightarrow> 'sw swarm_lib \<Rightarrow> env \<times> ('gm, 'im, 'e) service_call \<Rightarrow>
   ('sw, 'g, 'i, 'q, 'd, 'l, 'e) service \<Rightarrow> (libp2p_event option \<times> ('sw, 'g, 'i, 'q, 'd, 'l, 'e) service) option" where
  "service_step B S (e, ScBehaviour call) s =
     (case bv_step B (e, call) (sv_behaviour s) of
        None \<Rightarrow> None
      | Some (Ready (GenerateEvent ev), b) \<Rightarrow> service_round B S e (BrSwarm (SwBehaviour ev)) (s\<lparr> sv_behaviour := b \<rparr>)
      | Some (_, b) \<Rightarrow> Some (None, s\<lparr> sv_behaviour := b \<rparr>))"
| "service_step B S (e, ScRound br) s = service_round B S e br s"
| "service_step B S (e, ScDisconnectAndBan p timeout) s =
     map_option (\<lambda>s'. (None, s')) (disconnect_and_ban_peer B e p timeout s)"
| "service_step B S (e, ScSendRequest p rid req) s = Some (None, service_send_request p rid req s)"
| "service_step B S (e, ScRespondWithError p rid err reason) s = Some (None, respond_with_error p rid err reason s)"
| "service_step B S (e, ScSendResponse p rid res) s = Some (None, service_send_response p rid res s)"

fun service_call_ok :: "('q, 'd, 'l, 'b, 'e, 'k) pm_lib \<Rightarrow> env \<times> ('gm, 'im, 'e) service_call \<Rightarrow> bool" where
  "service_call_ok P (e, ScBehaviour call) = bv_call_ok P (e, call)"
| "service_call_ok P (e, ScRound (BrSwarm (SwBehaviour _))) = False"
| "service_call_ok P (e, ScRound _) = (\<not> overflow_checks e)"
| "service_call_ok P (e, ScDisconnectAndBan p timeout) = (timeout \<le> dq_max (lib_dq P))"
| "service_call_ok P (e, _) = True"

text \<open>The peers that were entered into the database without the peer manager.\<close>

fun dialed_peers :: "env \<times> ('gm, 'im, 'e) service_call \<Rightarrow> peer_id set" where
  "dialed_peers (_, ScRound (BrSwarm (SwConnectionEstablished p (Dialer _) n))) = (if n = 1 then {p} else {})"
| "dialed_peers _ = {}"

fun external_event :: "libp2p_event option \<Rightarrow> bool" where
  "external_event (Some (LBehaviour ev)) = external ev"
| "external_event _ = True"

definition sv_inv ::
  "peer_id set \<Rightarrow> ('q \<Rightarrow> dq_key \<Rightarrow> (peer_id \<times> instant) option) \<Rightarrow> ('sw, 'g, 'i, 'q, 'd, 'l, 'e) service \<Rightarrow> bool" where
  "sv_inv X items s \<longleftrightarrow> bv_inv X items (sv_behaviour s)"

context behaviour_env
begin

lemma on_manager_ok:
  assumes "sv_inv X items s" "pm_call_ok (bl_pm B) (e, call)" "case call of PmPoll _ _ \<Rightarrow> False | _ \<Rightarrow> True"
  shows "\<exists>s'. on_manager B e call s = Some s' \<and> sv_inv X items s'"
  using bv_step_ok [of X "sv_behaviour s" "(e, BvManager call)"] assms
  by (auto simp: on_manager_def sv_inv_def)

lemma connect_outgoing_db_ok:
  assumes "sv_inv X items s" "\<not> overflow_checks e" "p \<notin> X"
  shows "\<exists>s'. connect_outgoing_db e p s = Some s' \<and> sv_inv X items s'"
proof -
  let ?db = "pm_db (bv_pm (sv_behaviour s))"
  from status_connect_unchecked [OF assms(2)] obtain db where c: "connect_outgoing e p ?db = Some db"
    by (fastforce simp: connect_outgoing_def Let_def split: option.splits)
  have pmi: "pm_inv X items (bv_pm (sv_behaviour s))" using assms(1) by (simp add: sv_inv_def bv_inv_def)
  then have "peerdb_inv db" using connect_outgoing_inv [OF _ c] by (simp add: pm_inv_def)
  moreover have "is_connected_or_dialing db q = is_connected_or_dialing ?db q" if "q \<in> X" for q
    using cod_connect(2) [OF c, of q] assms(3) that by blast
  ultimately have "pm_inv X items (with_db db (bv_pm (sv_behaviour s)))"
    using pmi by (simp add: pm_inv_def with_db_def)
  with c assms(1) show ?thesis by (simp add: connect_outgoing_db_def sv_inv_def bv_inv_def)
qed

lemma on_swarm_event_ok:
  assumes inv: "sv_inv X items s" and chk: "\<not> overflow_checks e" and ev: "\<forall>b. ev \<noteq> SwBehaviour b"
    and dialed: "dialed_peers (e, ScRound (BrSwarm ev)) \<inter> X = {}"
  shows "\<exists>out s'. on_swarm_event B e ev s = Some (out, s') \<and> sv_inv X items s' \<and> external_event out"
proof (cases ev)
  case (SwConnectionEstablished p endpoint n)
  with assms on_manager_ok [OF inv, of e "PmConnectIngoing p"] connect_outgoing_db_ok [OF inv chk, of p] show ?thesis
    by (cases endpoint) (auto split: if_splits)
next
  case (SwConnectionClosed p cause endpoint n)
  with assms on_manager_ok [OF inv, of e "PmNotifyDisconnect p"] show ?thesis by auto
next
  case (SwUnreachableAddr p addr err n)
  with assms on_manager_ok [OF inv, of e "PmNotifyDisconnect p"] show ?thesis by auto
next
  case (SwDialing p)
  with assms on_manager_ok [OF inv, of e "PmDialing p"] show ?thesis by auto
qed (use inv ev in auto)

lemma service_round_ok:
  assumes inv: "sv_inv X items s" and ok: "service_call_ok (bl_pm B) (e, ScRound br :: ('gm, 'im, 'e) service_call)"
    and dialed: "dialed_peers (e, ScRound br) \<inter> X = {}"
  shows "\<exists>out s'. service_round B S e br s = Some (out, s') \<and> sv_inv X items s' \<and> external_event out"
proof (cases br)
  case (BrSwarm ev)
  have "\<not> overflow_checks e \<and> (\<forall>b. ev \<noteq> SwBehaviour b)" using ok BrSwarm by (cases ev) auto
  with on_swarm_event_ok [OF inv, of e ev] dialed BrSwarm show ?thesis by simp
qed (use inv in \<open>auto simp: sv_inv_def bv_inv_def delegate_to_behaviours_def split: prod.splits poll.splits option.splits sum.splits\<close>)

lemma ban_wait_fits: "BAN_PEER_WAIT_TIMEOUT \<le> dq_max (lib_dq (bl_pm B))"
  using tq.max_minutes by (simp add: BAN_PEER_WAIT_TIMEOUT_def)

lemma disconnect_and_ban_ok:
  assumes "timeout \<le> dq_max (lib_dq (bl_pm B))"
  obtains q1 h1 q2 h2 where "dq_insert (lib_dq (bl_pm B)) (now e) p BAN_PEER_WAIT_TIMEOUT (peers_to_ban s) = Some (q1, h1)"
    "dq_insert (lib_dq (bl_pm B)) (now e) p timeout (peer_ban_timeout s) = Some (q2, h2)"
    "disconnect_and_ban_peer B e p timeout s = Some (s\<lparr> peers_to_ban := q1, peer_ban_timeout := q2 \<rparr>)"
  using tq.insert_fits [OF ban_wait_fits, of "now e" p "peers_to_ban s"] tq.insert_fits [OF assms, of "now e" p "peer_ban_timeout s"]
  by (force simp: disconnect_and_ban_peer_def)

lemma service_step_ok:
  assumes inv: "sv_inv X items s" and ok: "service_call_ok (bl_pm B) c" and dialed: "dialed_peers c \<inter> X = {}"
  shows "\<exists>out s'. service_step B S c s = Some (out, s') \<and> sv_inv X items s' \<and> external_event out"
proof -
  obtain e call where c: "c = (e, call)" by (cases c)
  show ?thesis
  proof (cases call)
    case (ScBehaviour bc)
    have "bv_inv X items (sv_behaviour s)" "bv_call_ok (bl_pm B) (e, bc)" using inv ok by (simp_all add: c ScBehaviour sv_inv_def)
    from bv_step_ok [OF this] obtain a b where ab: "bv_step B (e, bc) (sv_behaviour s) = Some (a, b)" "bv_inv X items b" "external_out a" by blast
    show ?thesis
    proof (cases a)
      case (Ready act)
      with ab show ?thesis by (cases act) (simp_all add: c ScBehaviour sv_inv_def)
    qed (use ab in \<open>simp add: c ScBehaviour sv_inv_def\<close>)
  next
    case (ScRound br)
    with service_round_ok [OF inv, of e br S] ok dialed show ?thesis by (simp add: c)
  next
    case (ScDisconnectAndBan p timeout)
    with ok have "timeout \<le> dq_max (lib_dq (bl_pm B))" by (simp add: c)
    then show ?thesis
      by (rule disconnect_and_ban_ok [of timeout e p s]) (use inv in \<open>simp add: c ScDisconnectAndBan sv_inv_def\<close>)
  qed (use inv in \<open>auto simp: c sv_inv_def service_send_request_def respond_with_error_def
      service_send_response_def bv_rpc_ops\<close>)
qed

end

sublocale behaviour_env \<subseteq> sv: op_machine "service_step B S" "sv_inv X items" "\<lambda>c. service_call_ok (bl_pm B) c \<and> dialed_peers c \<inter> X = {}"
  for S X
  by unfold_locales (use service_step_ok in blast)

lemma start_swarm_fields:
  assumes "start_swarm B S config peer b = Some (Inr s)"
  shows "sv_behaviour s = b" "peers_to_ban s = dq_new (lib_dq (bl_pm B))" "peer_ban_timeout s = dq_new (lib_dq (bl_pm B))"
  using assms by (auto simp: start_swarm_def split: prod.splits sum.splits)

lemma service_new_cases:
  assumes "service_new B S kst fresh transport config fork_id meta_data ping_data file disk = Some (Inr s, file', disk')"
  obtains key g b where "behaviour_new B key config g disk' = Some (Inr b)" "g_peers g = peerdb_new"
    "start_swarm B S config (g_peer_id g) b = Some (Inr s)"
  using assms
  by (auto simp: service_new_def Let_def globals_new_def split: prod.splits option.splits sum.splits)

context behaviour_env
begin

lemma service_new_inv:
  assumes "service_new B S kst fresh transport config fork_id meta_data ping_data file disk = Some (Inr s, file', disk')"
  shows "sv_inv X items s"
proof -
  from service_new_cases [OF assms] obtain key g b where
    new: "behaviour_new B key config g disk' = Some (Inr b)" "g_peers g = peerdb_new" "start_swarm B S config (g_peer_id g) b = Some (Inr s)" .
  show ?thesis using behaviour_new_inv [OF new(1,2)] start_swarm_fields(1) [OF new(3)] by (simp add: sv_inv_def)
qed

lemma service_run:
  assumes "service_new B S kst fresh transport config fork_id meta_data ping_data file disk = Some (Inr s, file', disk')"
    and "list_all (service_call_ok (bl_pm B)) cs"
  shows "\<exists>evs s'. run_calls (service_step B S) cs s = Some (evs, s') \<and> sv_inv (- (\<Union>c \<in> set cs. dialed_peers c)) items s' \<and>
           list_all external_event evs"
proof -
  let ?X = "- (\<Union>c \<in> set cs. dialed_peers c)"
  note inv = service_new_inv [OF assms(1), of ?X]
  have ok: "list_all (\<lambda>c. service_call_ok (bl_pm B) c \<and> dialed_peers c \<inter> ?X = {}) cs"
    using assms(2) by (auto simp: list_all_iff)
  from sv.run_ok [OF inv ok] obtain evs s' where run: "run_calls (service_step B S) cs s = Some (evs, s')" "sv_inv ?X items s'" by blast
  have "list_all external_event evs"
  proof (rule sv.run_outputs [OF _ inv ok run(1)])
    fix s c out s'
    assume "sv_inv ?X items s" "service_call_ok (bl_pm B) c \<and> dialed_peers c \<inter> ?X = {}" "service_step B S c s = Some (out, s')"
    with service_step_ok [of ?X s c S] show "external_event out" by auto
  qed
  with run show ?thesis by blast
qed

end

section \<open>Dialing at the start\<close>

definition dial_all :: "'sw swarm_lib \<Rightarrow> multiaddr list \<Rightarrow> 'sw \<Rightarrow> 'sw" where
  "dial_all S addrs sw = foldl (\<lambda>sw addr. snd (sw_dial_addr S addr sw)) sw addrs"

definition tcp_addresses :: "('b, 'e, 'k) enr_lib \<Rightarrow> 'e \<Rightarrow> multiaddr list" where
  "tcp_addresses el enr = filter (\<lambda>addr. \<not> is_udp (addr ! 1)) (enr_multiaddr el enr)"

lemma dial_bootnode_all:
  "(\<And>p. \<not> is_connected_or_dialing db p) \<Longrightarrow> dial_bootnode el kl S db enr addrs sw = Some sw' \<Longrightarrow>
   sw' = dial_all S (filter (\<lambda>addr. \<not> is_udp (addr ! 1)) addrs) sw"
  by (induction addrs arbitrary: sw) (auto simp: dial_all_def split: if_splits option.splits)

lemma dial_bootnodes_all:
  "(\<And>p. \<not> is_connected_or_dialing db p) \<Longrightarrow> dial_bootnodes el kl S db enrs sw = Some sw' \<Longrightarrow>
   sw' = dial_all S (concat (map (tcp_addresses el) enrs)) sw"
proof (induction enrs arbitrary: sw)
  case (Cons enr enrs)
  from Cons.prems(2) obtain sw1 where 1: "dial_bootnode el kl S db enr (enr_multiaddr el enr) sw = Some sw1"
    "dial_bootnodes el kl S db enrs sw1 = Some sw'" by (auto split: option.splits)
  from dial_bootnode_all [OF Cons.prems(1) 1(1)] Cons.IH [OF Cons.prems(1) 1(2)] show ?case
    by (simp add: dial_all_def tcp_addresses_def)
qed (simp add: dial_all_def)

lemma behaviour_new_db: "behaviour_new B key config g disk = Some (Inr b) \<Longrightarrow> pm_db (bv_pm b) = g_peers g"
  by (auto simp: behaviour_new_def pm_new_def split: option.splits sum.splits)

lemma connect_outgoing_connects: "connect_outgoing e p db = Some db' \<Longrightarrow> peerdb_is_connected db' p"
  by (auto simp: connect_outgoing_def peerdb_is_connected_def peerdb_connection_status_def peerdb_info_def Let_def
      dest!: status_connect_connected(2) split: option.splits peer_connection_status.splits)

lemma no_peers: "\<not> is_connected_or_dialing peerdb_new p"
  by (simp add: peerdb_new_def cod_entry entry_or_default_def)

section \<open>The history of the bans\<close>

text \<open>Every entry in the two queues stems from a request for a ban.\<close>

definition requested ::
  "(duration \<Rightarrow> duration) \<Rightarrow> (env \<times> ('gm, 'im, 'e) service_call) set \<Rightarrow> (dq_key \<Rightarrow> (peer_id \<times> instant) option) \<Rightarrow> bool" where
  "requested f cs m \<longleftrightarrow> (\<forall>h p d. m h = Some (p, d) \<longrightarrow> (\<exists>e timeout. (e, ScDisconnectAndBan p timeout) \<in> cs \<and> d = now e + f timeout))"

definition bans_requested ::
  "('q \<Rightarrow> dq_key \<Rightarrow> (peer_id \<times> instant) option) \<Rightarrow> (env \<times> ('gm, 'im, 'e) service_call) set \<Rightarrow>
   ('sw, 'g, 'i, 'q, 'd, 'l, 'e) service \<Rightarrow> bool" where
  "bans_requested items cs s \<longleftrightarrow>
     requested (\<lambda>_. BAN_PEER_WAIT_TIMEOUT) cs (items (peers_to_ban s)) \<and> requested (\<lambda>timeout. timeout) cs (items (peer_ban_timeout s))"

lemma requested_mono: "requested f cs m \<Longrightarrow> cs \<subseteq> cs' \<Longrightarrow> m' \<subseteq>\<^sub>m m \<Longrightarrow> requested f cs' m'"
  unfolding requested_def by (meson map_leD subsetD)

lemma requested_insert:
  "requested f cs m \<Longrightarrow> requested f (insert (e, ScDisconnectAndBan p timeout) cs) (m(h \<mapsto> (p, now e + f timeout)))"
  unfolding requested_def by (metis (no_types, lifting) fun_upd_other fun_upd_same insertCI option.sel prod.inject)

lemma requestedD: "requested f cs m \<Longrightarrow> m h = Some (p, d) \<Longrightarrow> \<exists>e timeout. (e, ScDisconnectAndBan p timeout) \<in> cs \<and> d = now e + f timeout"
  unfolding requested_def by blast

lemma on_manager_bans:
  "on_manager B e call s = Some s' \<Longrightarrow> peers_to_ban s' = peers_to_ban s \<and> peer_ban_timeout s' = peer_ban_timeout s \<and> sv_swarm s' = sv_swarm s"
  by (auto simp: on_manager_def)

lemma on_swarm_event_bans:
  "on_swarm_event B e ev s = Some (out, s') \<Longrightarrow> peers_to_ban s' = peers_to_ban s \<and> peer_ban_timeout s' = peer_ban_timeout s \<and> sv_swarm s' = sv_swarm s"
  by (induction B e ev s rule: on_swarm_event.induct)
    (auto simp: connect_outgoing_db_def dest!: on_manager_bans split: if_splits connected_point.splits)

lemma bans_requested_mono: "bans_requested items cs s \<Longrightarrow> cs \<subseteq> cs' \<Longrightarrow> bans_requested items cs' s"
  unfolding bans_requested_def by (blast intro: requested_mono map_le_refl)

lemma bans_requested_cong:
  "bans_requested items cs s \<Longrightarrow> peers_to_ban s' = peers_to_ban s \<Longrightarrow> peer_ban_timeout s' = peer_ban_timeout s \<Longrightarrow> bans_requested items cs s'"
  unfolding bans_requested_def by simp

lemma bans_requested_behaviour [simp]: "bans_requested items cs (s\<lparr> sv_behaviour := b \<rparr>) = bans_requested items cs s"
  by (simp add: bans_requested_def)

context behaviour_env
begin

lemma poll_items:
  assumes "dq_poll (lib_dq (bl_pm B)) t q = (r, q')"
  shows "items q' \<subseteq>\<^sub>m items q" and "r = Ready (Some (Inr p)) \<Longrightarrow> \<exists>h d. items q h = Some (p, d) \<and> d \<le> t"
proof -
  show "r = Ready (Some (Inr p)) \<Longrightarrow> \<exists>h d. items q h = Some (p, d) \<and> d \<le> t"
    using tq.items_expired assms by blast
  show "items q' \<subseteq>\<^sub>m items q"
  proof (cases "\<exists>k. r = Ready (Some (Inr k))")
    case True
    then obtain k where "r = Ready (Some (Inr k))" ..
    with tq.items_expired assms obtain h where "items q' = (items q)(h := None)" by blast
    then show ?thesis by (simp add: map_le_def)
  next
    case False
    with tq.items_poll_other [OF assms] show ?thesis by auto
  qed
qed

lemma bans_requested_queues:
  assumes "bans_requested items cs s" "items (peers_to_ban s') \<subseteq>\<^sub>m items (peers_to_ban s)"
    "items (peer_ban_timeout s') \<subseteq>\<^sub>m items (peer_ban_timeout s)"
  shows "bans_requested items cs s'"
  using assms unfolding bans_requested_def by (blast intro: requested_mono)

lemma service_round_bans:
  assumes "bans_requested items cs s" "service_round B S e br s = Some (out, s')"
  shows "bans_requested items cs s'"
proof (cases br)
  case (BrSwarm ev)
  with assms on_swarm_event_bans [of B e ev s out s'] bans_requested_cong show ?thesis by auto
next
  case BrBan
  obtain r q where p: "dq_poll (lib_dq (bl_pm B)) (now e) (peers_to_ban s) = (r, q)" by force
  with assms(2) BrBan have "peers_to_ban s' = q" "peer_ban_timeout s' = peer_ban_timeout s"
    by (auto split: poll.splits option.splits sum.splits)
  then show ?thesis using poll_items(1) [OF p] by (intro bans_requested_queues [OF assms(1)]) simp_all
next
  case BrUnban
  obtain r q where p: "dq_poll (lib_dq (bl_pm B)) (now e) (peer_ban_timeout s) = (r, q)" by force
  with assms(2) BrUnban have "peers_to_ban s' = peers_to_ban s" "peer_ban_timeout s' = q"
    by (auto split: poll.splits option.splits sum.splits)
  then show ?thesis using poll_items(1) [OF p] by (intro bans_requested_queues [OF assms(1)]) simp_all
qed

lemma service_step_bans:
  assumes "bans_requested items cs s" "service_step B S c s = Some (out, s')"
  shows "bans_requested items (insert c cs) s'"
proof -
  obtain e call where c: "c = (e, call)" by (cases c)
  show ?thesis
  proof (cases call)
    case (ScBehaviour bc)
    then have "peers_to_ban s' = peers_to_ban s" "peer_ban_timeout s' = peer_ban_timeout s"
      using assms(2) by (auto simp: c split: option.splits poll.splits nb_action.splits)
    then show ?thesis using bans_requested_cong bans_requested_mono [OF assms(1)] by blast
  next
    case (ScRound br)
    with assms(2) have "bans_requested items cs s'" by (intro service_round_bans [OF assms(1)]) (simp add: c)
    then show ?thesis by (rule bans_requested_mono) blast
  next
    case (ScDisconnectAndBan p timeout)
    with assms(2) obtain q1 h1 q2 h2 where
      q: "dq_insert (lib_dq (bl_pm B)) (now e) p BAN_PEER_WAIT_TIMEOUT (peers_to_ban s) = Some (q1, h1)"
        "dq_insert (lib_dq (bl_pm B)) (now e) p timeout (peer_ban_timeout s) = Some (q2, h2)"
      and "peers_to_ban s' = q1" "peer_ban_timeout s' = q2"
      by (auto simp: c disconnect_and_ban_peer_def split: option.splits)
    with tq.items_insert [OF q(1)] tq.items_insert [OF q(2)] assms(1) show ?thesis
      unfolding bans_requested_def c ScDisconnectAndBan
      by (simp add: requested_insert [of "\<lambda>_. BAN_PEER_WAIT_TIMEOUT"] requested_insert [of "\<lambda>timeout. timeout"])
  qed (use assms in \<open>auto simp: c service_send_request_def respond_with_error_def service_send_response_def
      intro: bans_requested_mono\<close>)
qed

lemma run_bans:
  "bans_requested items cs s \<Longrightarrow> run_calls (service_step B S) cs' s = Some (evs, s') \<Longrightarrow> bans_requested items (cs \<union> set cs') s'"
proof (induction cs' arbitrary: cs s evs)
  case (Cons c cs')
  from Cons.prems(2) obtain out s1 evs1 where 1: "service_step B S c s = Some (out, s1)" "run_calls (service_step B S) cs' s1 = Some (evs1, s')"
    by (auto split: option.splits)
  from Cons.IH [OF service_step_bans [OF Cons.prems(1) 1(1)] 1(2)] show ?case by simp
qed simp

lemma service_new_bans:
  assumes "service_new B S kst fresh transport config fork_id meta_data ping_data file disk = Some (Inr s, file', disk')"
  shows "bans_requested items ({} :: (env \<times> ('gm, 'im, 'e) service_call) set) s"
proof -
  from service_new_cases [OF assms] obtain key g b where
    new: "behaviour_new B key config g disk' = Some (Inr b)" "g_peers g = peerdb_new" "start_swarm B S config (g_peer_id g) b = Some (Inr s)" .
  from start_swarm_fields(2,3) [OF new(3)] tq.items_new show ?thesis by (simp add: bans_requested_def requested_def)
qed

lemma ban_rounds:
  assumes "bans_requested items cs s"
  shows "service_round B S e BrBan s = Some (out, s') \<Longrightarrow> sv_swarm s' \<noteq> sv_swarm s \<Longrightarrow>
           \<exists>p e0 timeout. (e0, ScDisconnectAndBan p timeout) \<in> cs \<and> now e0 + BAN_PEER_WAIT_TIMEOUT \<le> now e \<and> sv_swarm s' = sw_ban_peer_id S p (sv_swarm s)"
    and "service_round B S e BrUnban s = Some (out, s') \<Longrightarrow> sv_swarm s' \<noteq> sv_swarm s \<Longrightarrow>
           \<exists>p e0 timeout. (e0, ScDisconnectAndBan p timeout) \<in> cs \<and> now e0 + timeout \<le> now e \<and> sv_swarm s' = sw_unban_peer_id S p (sv_swarm s)"
proof -
  obtain r1 q1 r2 q2 where p: "dq_poll (lib_dq (bl_pm B)) (now e) (peers_to_ban s) = (r1, q1)"
    "dq_poll (lib_dq (bl_pm B)) (now e) (peer_ban_timeout s) = (r2, q2)" by force
  show "\<exists>p e0 timeout. (e0, ScDisconnectAndBan p timeout) \<in> cs \<and> now e0 + BAN_PEER_WAIT_TIMEOUT \<le> now e \<and> sv_swarm s' = sw_ban_peer_id S p (sv_swarm s)"
    if "service_round B S e BrBan s = Some (out, s')" "sv_swarm s' \<noteq> sv_swarm s"
  proof -
    from that p(1) obtain k where k: "r1 = Ready (Some (Inr k))" "sv_swarm s' = sw_ban_peer_id S k (sv_swarm s)"
      by (auto split: poll.splits option.splits sum.splits)
    from poll_items(2) [OF p(1) k(1)] k(2) assms show ?thesis unfolding bans_requested_def by (blast dest: requestedD)
  qed
  show "\<exists>p e0 timeout. (e0, ScDisconnectAndBan p timeout) \<in> cs \<and> now e0 + timeout \<le> now e \<and> sv_swarm s' = sw_unban_peer_id S p (sv_swarm s)"
    if "service_round B S e BrUnban s = Some (out, s')" "sv_swarm s' \<noteq> sv_swarm s"
  proof -
    from that p(2) obtain k where k: "r2 = Ready (Some (Inr k))" "sv_swarm s' = sw_unban_peer_id S k (sv_swarm s)"
      by (auto split: poll.splits option.splits sum.splits)
    from poll_items(2) [OF p(2) k(1)] k(2) assms show ?thesis unfolding bans_requested_def by (blast dest: requestedD)
  qed
qed

end

context behaviour_env
begin

text \<open>The only entry of a queue, once it is due.\<close>

lemma poll_single:
  assumes "prompt_queue (lib_dq (bl_pm B)) items" and "\<And>t q err. fst (dq_poll (lib_dq (bl_pm B)) t q) \<noteq> Ready (Some (Inl err))"
    and "items q0 = Map.empty" and "dq_insert (lib_dq (bl_pm B)) t0 p d q0 = Some (q, h)" and "t0 + d \<le> t"
  shows "\<exists>q'. dq_poll (lib_dq (bl_pm B)) t q = (Ready (Some (Inr p)), q') \<and> items q' = Map.empty"
proof -
  from tq.items_insert [OF assms(4)] assms(3) have q: "items q = [h \<mapsto> (p, t0 + d)]" by simp
  obtain r q' where poll: "dq_poll (lib_dq (bl_pm B)) t q = (r, q')" by force
  from assms(1) poll q assms(5) have "\<exists>x. r = Ready (Some x)"
    unfolding prompt_queue_def by (metis fun_upd_same linorder_not_less)
  with assms(2) [of t q] poll obtain k where r: "r = Ready (Some (Inr k))" by (metis fst_conv obj_sumE)
  from tq.items_expired [OF poll [unfolded r]] q have "k = p" "items q' = Map.empty" by (auto split: if_splits)
  with poll r show ?thesis by simp
qed

end

section \<open>A concrete swarm\<close>

text \<open>For the examples: the addresses that were dialed and the peers that are banned.\<close>

definition ref_swarm_lib :: "(multiaddr list \<times> peer_id list) swarm_lib" where
  "ref_swarm_lib =
     \<lparr> sw_build = (\<lambda>_ _. ([], [])), sw_listen_on = (\<lambda>_ sw. (Inr (), sw)),
       sw_dial_addr = (\<lambda>addr (dials, banned). (Inr (), dials @ [addr], banned)),
       sw_ban_peer_id = (\<lambda>p (dials, banned). (dials, List.insert p banned)),
       sw_unban_peer_id = (\<lambda>p (dials, banned). (dials, removeAll p banned)) \<rparr>"

definition ref_key_store :: key_store_lib where
  "ref_key_store =
     \<lparr> secret_from_bytes = (\<lambda>bs. if length bs = 32 then Inr bs else Inl ''length''), secret_to_bytes = (\<lambda>s. s),
       write_key = (\<lambda>_ bs. KeyFile bs), hex_decode = (\<lambda>_. Inl ''not hex'') \<rparr>"

section \<open>Properties\<close>

text \<open>A node keeps its identity: when a start has read or generated a key, and a generated key could be
  written, the next start reads the same key and leaves the file alone.\<close>

theorem identity_kept:
  assumes "load_private_key kst fresh file = (key, file')"
    and "secret_from_bytes kst (secret_to_bytes kst fresh) = Inr fresh"
    and "write_key kst file (secret_to_bytes kst fresh) = KeyFile (secret_to_bytes kst fresh)"
  shows "load_private_key kst fresh' file' = (key, file')"
  using assms by (auto simp: load_private_key_def Let_def split: key_file.splits sum.splits)

theorem identity_kept_witness:
  "load_private_key ref_key_store (replicate 32 7) (KeyFile (replicate 32 9)) = (Secp256k1Pair (replicate 32 9), KeyFile (replicate 32 9))"
  by (rule identity_kept [of ref_key_store "replicate 32 9" NoKeyFile])
    (simp_all add: load_private_key_def ref_key_store_def)

text \<open>C20. At the start the service dials the configured addresses and then the boot nodes, each run of
  equal consecutive records once, on every address that is not a UDP one, in the order of the
  configuration; it skips none of them, since no peer is connected yet.\<close>

theorem startup_dials:
  assumes "service_new B S kst fresh transport config fork_id meta_data ping_data file disk = Some (Inr s, file', disk')"
  shows "\<exists>sw. sw_listen_on S (listen_multiaddr config) (sw_build S 1 (sv_local_peer_id s)) = (Inr (), sw) \<and>
           sv_swarm s = dial_all S (libp2p_nodes config @
             concat (map (tcp_addresses (lib_enr (bl_pm B))) (remdups_adj (boot_nodes config)))) sw"
proof -
  from service_new_cases [OF assms] obtain key g b where
    new: "behaviour_new B key config g disk' = Some (Inr b)" "g_peers g = peerdb_new" "start_swarm B S config (g_peer_id g) b = Some (Inr s)" .
  from behaviour_new_db [OF new(1)] new(2) have np: "\<not> is_connected_or_dialing (pm_db (bv_pm b)) p" for p
    by (simp add: no_peers)
  from new(3) obtain sw where sw: "sw_listen_on S (listen_multiaddr config) (sw_build S 1 (sv_local_peer_id s)) = (Inr (), sw)"
    "dial_bootnodes (lib_enr (bl_pm B)) (lib_key (bl_pm B)) S (pm_db (bv_pm b)) (remdups_adj (boot_nodes config))
       (dial_all S (libp2p_nodes config) sw) = Some (sv_swarm s)"
    by (auto simp: start_swarm_def dial_all_def MAX_CONNECTIONS_PER_PEER_def split: prod.splits sum.splits)
  from dial_bootnodes_all [OF np sw(2)] sw(1) show ?thesis by (auto simp: dial_all_def)
qed

definition ref_boot :: ref_enr where
  "ref_boot = [[1, 1], [1, 167772161], [1, 9001], [1, 9000], [8]]"

definition ref_config :: "ref_enr network_config" where
  "ref_config = (config_default [] [] [] None)\<lparr> boot_nodes := [ref_boot, ref_boot], libp2p_nodes := [[Ip4 1, Tcp 2]], libp2p_port := 7 \<rparr>"

abbreviation ref_start where
  "ref_start \<equiv> service_new ref_bv_lib ref_swarm_lib ref_key_store (replicate 32 7) (Inr ()) ref_config [1] [2] [3] NoKeyFile NoFile"

lemma ref_service_new: "\<exists>s file disk. ref_start = Some (Inr s, file, disk)"
proof -
  have "case ref_start of Some (Inr s, _) \<Rightarrow> True | _ \<Rightarrow> False" by code_simp
  then show ?thesis by (auto split: option.splits sum.splits)
qed

lemma ref_queue_new: "dq_new (lib_dq (bl_pm ref_bv_lib)) = []"
  by (simp add: ref_bv_lib_def ref_pm_lib_def lq_ops_def)

theorem startup_dials_witness:
  "\<exists>s file disk. ref_start = Some (Inr s, file, disk) \<and> sv_swarm s = ([[Ip4 1, Tcp 2], [Ip4 167772161, Tcp 9000]], [])"
proof -
  obtain s kf disk where new: "ref_start = Some (Inr s, kf, disk)" using ref_service_new by blast
  have "tcp_addresses ref_enr_lib ref_boot = [[Ip4 167772161, Tcp 9000]]"
    by code_simp
  with startup_dials [OF new] new show ?thesis
    by (auto simp: ref_swarm_lib_def ref_bv_lib_def ref_pm_lib_def ref_config_def dial_all_def)
qed

text \<open>The service works on: from a new service, every sequence of swarm events, of calls that the swarm
  makes on the behaviour, of bans and of messages of the application returns without a panic. Every
  peer that is connected or being dialed has its timers, except for the peers that were connected by a
  dial of this node; and the application is never told about internal requests.\<close>

theorem service_keeps_timers:
  assumes "behaviour_env B items gossip_waiting identify_waiting"
    and "service_new B S kst fresh transport config fork_id meta_data ping_data file disk = Some (Inr s, file', disk')"
    and "list_all (service_call_ok (bl_pm B)) cs"
  shows "\<exists>evs s'. run_calls (service_step B S) cs s = Some (evs, s') \<and>
           (\<forall>p. is_connected_or_dialing (pm_db (bv_pm (sv_behaviour s'))) p \<and> p \<notin> (\<Union>c \<in> set cs. dialed_peers c) \<longrightarrow>
              hsd_contains p (ping_peers (bv_pm (sv_behaviour s'))) \<and> hsd_contains p (status_peers (bv_pm (sv_behaviour s')))) \<and>
           (\<forall>ev. Some (LBehaviour ev) \<in> set evs \<longrightarrow> external ev)"
proof -
  from behaviour_env.service_run [OF assms] obtain evs s' where
    run: "run_calls (service_step B S) cs s = Some (evs, s')" "sv_inv (- (\<Union>c \<in> set cs. dialed_peers c)) items s'" "list_all external_event evs" by blast
  from run(3) have "external ev" if "Some (LBehaviour ev) \<in> set evs" for ev using that by (fastforce simp: list_all_iff)
  with run(1,2) show ?thesis by (auto simp: sv_inv_def bv_inv_def pm_inv_def)
qed

definition e_free :: "nat \<Rightarrow> env" where "e_free t = \<lparr> now = t, overflow_checks = False \<rparr>"

definition busy_service :: "(env \<times> (nat, nat, ref_enr) service_call) list" where
  "busy_service =
     [(e_free 1, ScRound (BrSwarm (SwConnectionEstablished [1, 2] (Listener [] []) 1))),
      (e_free 2, ScBehaviour (BvNotice (NConnected [1, 2]))), (e_free 3, ScBehaviour (BvPoll [])),
      (e_free 4, ScRound (BrSwarm (SwDialing [1, 3]))), (e_free 5, ScDisconnectAndBan [1, 2] 30000),
      (e_free 300, ScRound BrBan), (e_free 301, ScRound (BrSwarm (SwConnectionClosed [1, 2] [] (Listener [] []) 0))),
      (e_free 30005, ScRound BrUnban), (e_free 40000, ScBehaviour (BvPoll [(1, [])]))]"

theorem service_keeps_timers_witness:
  "\<exists>s file disk evs s'. ref_start = Some (Inr s, file, disk) \<and> run_calls (service_step ref_bv_lib ref_swarm_lib) busy_service s = Some (evs, s') \<and>
     (\<forall>p. is_connected_or_dialing (pm_db (bv_pm (sv_behaviour s'))) p \<longrightarrow> hsd_contains p (ping_peers (bv_pm (sv_behaviour s'))))"
proof -
  obtain s kf disk where new: "ref_start = Some (Inr s, kf, disk)" using ref_service_new by blast
  have ok: "list_all (service_call_ok (bl_pm ref_bv_lib)) busy_service" 
    by (simp add: busy_service_def e_free_def ref_bv_lib_def ref_pm_lib_def lq_ops_def LQ_MAX_def)
  have "(\<Union>c \<in> set busy_service. dialed_peers c) = {}" by (simp add: busy_service_def)
  with service_keeps_timers [OF ref_bv.behaviour_env_axioms new ok] new show ?thesis by auto
qed

text \<open>A connection that this node dialed is entered into the database behind the back of the peer
  manager: a peer without timers is connected then but still has none, so it is neither pinged nor
  asked for its status.\<close>

theorem dialed_peer_gets_no_timers:
  assumes "\<not> overflow_checks e" and "\<not> hsd_contains p (ping_peers (bv_pm (sv_behaviour s)))"
    and "\<not> hsd_contains p (status_peers (bv_pm (sv_behaviour s)))"
  shows "\<exists>s'. service_round B S e (BrSwarm (SwConnectionEstablished p (Dialer addr) 1)) s = Some (Some (LPeerConnected p (Dialer addr)), s') \<and>
           peerdb_is_connected (pm_db (bv_pm (sv_behaviour s'))) p \<and>
           \<not> hsd_contains p (ping_peers (bv_pm (sv_behaviour s'))) \<and> \<not> hsd_contains p (status_peers (bv_pm (sv_behaviour s')))"
proof -
  let ?db = "pm_db (bv_pm (sv_behaviour s))"
  from status_connect_unchecked [OF assms(1)] obtain db where c: "connect_outgoing e p ?db = Some db"
    by (fastforce simp: connect_outgoing_def Let_def split: option.splits)
  then have "peerdb_is_connected db p" by (rule connect_outgoing_connects)
  with c assms(2,3) show ?thesis by (simp add: connect_outgoing_db_def with_db_def)
qed

theorem dialed_peer_gets_no_timers_witness:
  "\<exists>s file disk s'. ref_start = Some (Inr s, file, disk) \<and>
     service_round ref_bv_lib ref_swarm_lib (e_free 1) (BrSwarm (SwConnectionEstablished [1, 2] (Dialer []) 1)) s = Some (Some (LPeerConnected [1, 2] (Dialer [])), s') \<and>
     peerdb_is_connected (pm_db (bv_pm (sv_behaviour s'))) [1, 2] \<and> \<not> hsd_contains [1, 2] (ping_peers (bv_pm (sv_behaviour s')))"
proof -
  obtain s kf disk where new: "ref_start = Some (Inr s, kf, disk)" using ref_service_new by blast
  have "case ref_start of Some (Inr s, _) \<Rightarrow> \<not> hsd_contains [1, 2] (ping_peers (bv_pm (sv_behaviour s))) \<and>
      \<not> hsd_contains [1, 2] (status_peers (bv_pm (sv_behaviour s))) | _ \<Rightarrow> False" by code_simp
  with new dialed_peer_gets_no_timers [of "e_free 1" "[1, 2]" s] show ?thesis by (auto simp: e_free_def)
qed

text \<open>C19. Bans keep their times: in every run of a new service a peer is banned only when a ban of it was
  asked for at least 200 milliseconds before, and unbanned only when the time that was asked for has
  passed since.\<close>

theorem bans_keep_their_times:
  assumes "behaviour_env B items gossip_waiting identify_waiting"
    and "service_new B S kst fresh transport config fork_id meta_data ping_data file disk = Some (Inr s, file', disk')"
    and "run_calls (service_step B S) cs s = Some (evs, s1)"
  shows "(service_round B S e BrBan s1 = Some (out, s2) \<and> sv_swarm s2 \<noteq> sv_swarm s1 \<longrightarrow>
            (\<exists>p e0 timeout. (e0, ScDisconnectAndBan p timeout) \<in> set cs \<and> now e0 + 200 \<le> now e \<and> sv_swarm s2 = sw_ban_peer_id S p (sv_swarm s1))) \<and>
         (service_round B S e BrUnban s1 = Some (out, s2) \<and> sv_swarm s2 \<noteq> sv_swarm s1 \<longrightarrow>
            (\<exists>p e0 timeout. (e0, ScDisconnectAndBan p timeout) \<in> set cs \<and> now e0 + timeout \<le> now e \<and> sv_swarm s2 = sw_unban_peer_id S p (sv_swarm s1)))"
proof -
  have "bans_requested items (set cs) s1"
    using behaviour_env.run_bans [OF assms(1) behaviour_env.service_new_bans [OF assms(1,2)] assms(3)] by simp
  from behaviour_env.ban_rounds [OF assms(1) this, of S e out s2] show ?thesis unfolding BAN_PEER_WAIT_TIMEOUT_def by blast
qed

definition ban_only :: "(env \<times> (nat, nat, ref_enr) service_call) list" where
  "ban_only = [(e_free 5, ScDisconnectAndBan [1, 2] 30000)]"

lemma ban_only_run:
  "\<exists>s kf disk evs s1 s2. ref_start = Some (Inr s, kf, disk) \<and> run_calls (service_step ref_bv_lib ref_swarm_lib) ban_only s = Some (evs, s1) \<and>
     service_round ref_bv_lib ref_swarm_lib (e_free 205) BrBan s1 = Some (None, s2) \<and> snd (sv_swarm s1) = [] \<and> snd (sv_swarm s2) = [[1, 2]]"
proof -
  have "case ref_start of Some (Inr s, _) \<Rightarrow>
      (case run_calls (service_step ref_bv_lib ref_swarm_lib) ban_only s of Some (_, s1) \<Rightarrow>
         (case service_round ref_bv_lib ref_swarm_lib (e_free 205) BrBan s1 of Some (None, s2) \<Rightarrow> snd (sv_swarm s1) = [] \<and> snd (sv_swarm s2) = [[1, 2]]
          | _ \<Rightarrow> False) | _ \<Rightarrow> False) | _ \<Rightarrow> False" by code_simp
  then show ?thesis by (auto split: option.splits sum.splits prod.splits)
qed

theorem bans_keep_their_times_witness:
  "\<exists>s kf disk evs s1 s2. ref_start = Some (Inr s, kf, disk) \<and> run_calls (service_step ref_bv_lib ref_swarm_lib) ban_only s = Some (evs, s1) \<and>
     service_round ref_bv_lib ref_swarm_lib (e_free 205) BrBan s1 = Some (None, s2) \<and> sv_swarm s2 \<noteq> sv_swarm s1 \<and>
     (\<exists>p e0 timeout. (e0, ScDisconnectAndBan p timeout) \<in> set ban_only \<and> now e0 + 200 \<le> 205)"
proof -
  obtain s kf disk evs s1 s2 where run: "ref_start = Some (Inr s, kf, disk)" "run_calls (service_step ref_bv_lib ref_swarm_lib) ban_only s = Some (evs, s1)"
    "service_round ref_bv_lib ref_swarm_lib (e_free 205) BrBan s1 = Some (None, s2)" "snd (sv_swarm s1) = []" "snd (sv_swarm s2) = [[1, 2]]"
    using ban_only_run by blast
  then have "sv_swarm s2 \<noteq> sv_swarm s1" by auto
  with bans_keep_their_times [OF ref_bv.behaviour_env_axioms run(1,2), of "e_free 205" None s2] run(3)
  have "\<exists>p e0 timeout. (e0, ScDisconnectAndBan p timeout) \<in> set ban_only \<and> now e0 + 200 \<le> 205" by (auto simp: e_free_def)
  with run \<open>sv_swarm s2 \<noteq> sv_swarm s1\<close> show ?thesis by blast
qed

text \<open>C21. A ban can outlast its time: the two timers of a ban run independently, and when the service gets to
  them only after the ban should have ended, \<open>select!\<close> may take the branch that lifts the ban first and
  the one that imposes it afterwards. Then the peer is banned for good: in no continuation, unless
  another ban of the peer is asked for, does a round lift it.\<close>

theorem ban_can_outlast_its_time:
  assumes "behaviour_env B items gossip_waiting identify_waiting" and "prompt_queue (lib_dq (bl_pm B)) items"
    and "\<And>t q err. fst (dq_poll (lib_dq (bl_pm B)) t q) \<noteq> Ready (Some (Inl err))"
    and "items (peers_to_ban s) = Map.empty" and "items (peer_ban_timeout s) = Map.empty"
    and "now e0 + timeout \<le> now e" and "now e0 + 200 \<le> now e" and "timeout \<le> dq_max (lib_dq (bl_pm B))"
  shows "\<exists>s'. run_calls (service_step B S) [(e0, ScDisconnectAndBan p timeout), (e, ScRound BrUnban), (e, ScRound BrBan)] s = Some ([None, None, None], s') \<and>
           sv_swarm s' = sw_ban_peer_id S p (sw_unban_peer_id S p (sv_swarm s)) \<and>
           (\<forall>cs evs s1 e1 out s2. run_calls (service_step B S) cs s' = Some (evs, s1) \<and>
              (\<forall>e2 timeout2. (e2, ScDisconnectAndBan p timeout2) \<notin> set cs) \<and>
              service_round B S e1 BrUnban s1 = Some (out, s2) \<and> sv_swarm s2 \<noteq> sv_swarm s1 \<longrightarrow>
              (\<exists>p'. p' \<noteq> p \<and> sv_swarm s2 = sw_unban_peer_id S p' (sv_swarm s1)))"
proof -
  let ?dq = "lib_dq (bl_pm B)"
  obtain q1 h1 q2 h2 where q: "dq_insert ?dq (now e0) p BAN_PEER_WAIT_TIMEOUT (peers_to_ban s) = Some (q1, h1)"
    "dq_insert ?dq (now e0) p timeout (peer_ban_timeout s) = Some (q2, h2)"
    "disconnect_and_ban_peer B e0 p timeout s = Some (s\<lparr> peers_to_ban := q1, peer_ban_timeout := q2 \<rparr>)"
    using behaviour_env.disconnect_and_ban_ok [OF assms(1,8)] by blast
  note single = behaviour_env.poll_single [OF assms(1-3), where t = "now e"]
  from single [OF assms(4) q(1)] obtain q1' where 1: "dq_poll ?dq (now e) q1 = (Ready (Some (Inr p)), q1')" "items q1' = Map.empty"
    using assms(7) by (auto simp: BAN_PEER_WAIT_TIMEOUT_def)
  from single [OF assms(5) q(2) assms(6)] obtain q2' where 2: "dq_poll ?dq (now e) q2 = (Ready (Some (Inr p)), q2')" "items q2' = Map.empty" by blast
  from 1 2 q(3) obtain s' where
    run: "run_calls (service_step B S) [(e0, ScDisconnectAndBan p timeout), (e, ScRound BrUnban), (e, ScRound BrBan)] s = Some ([None, None, None], s')"
      "sv_swarm s' = sw_ban_peer_id S p (sw_unban_peer_id S p (sv_swarm s))" "peers_to_ban s' = q1'" "peer_ban_timeout s' = q2'"
    by simp
  have none: "bans_requested items {} s'" using run(3,4) 1(2) 2(2) by (simp add: bans_requested_def requested_def)
  have "\<exists>p'. p' \<noteq> p \<and> sv_swarm s2 = sw_unban_peer_id S p' (sv_swarm s1)"
    if "run_calls (service_step B S) cs s' = Some (evs, s1)" "\<forall>e2 timeout2. (e2, ScDisconnectAndBan p timeout2) \<notin> set cs"
      "service_round B S e1 BrUnban s1 = Some (out, s2)" "sv_swarm s2 \<noteq> sv_swarm s1" for cs evs s1 e1 out s2
    using behaviour_env.ban_rounds(2) [OF assms(1) behaviour_env.run_bans [OF assms(1) none that(1)] that(3,4)] that(2) unfolding Un_empty_left by metis
  with run(1,2) show ?thesis by blast
qed

theorem ban_can_outlast_its_time_witness:
  "\<exists>s kf disk s'. ref_start = Some (Inr s, kf, disk) \<and>
     run_calls (service_step ref_bv_lib ref_swarm_lib)
       [(e_free 5, ScDisconnectAndBan [1, 2] 30000), (e_free 30010, ScRound BrUnban), (e_free 30010, ScRound BrBan)] s = Some ([None, None, None], s') \<and>
     [1, 2] \<in> set (snd (sv_swarm s'))"
proof -
  obtain s kf disk where new: "ref_start = Some (Inr s, kf, disk)" using ref_service_new by blast
  from service_new_cases [OF new] start_swarm_fields(2,3) have "peers_to_ban s = []" "peer_ban_timeout s = []"
    by (metis ref_queue_new)+
  moreover have "prompt_queue (lib_dq (bl_pm ref_bv_lib)) map_of" using lq_prompt by (simp add: ref_bv_lib_def ref_pm_lib_def)
  moreover have "fst (dq_poll (lib_dq (bl_pm ref_bv_lib)) t q) \<noteq> Ready (Some (Inl err))" for t q err
    by (auto simp: ref_bv_lib_def ref_pm_lib_def lq_ops_def lq_poll_def split: option.splits)
  moreover have "30000 \<le> dq_max (lib_dq (bl_pm ref_bv_lib))"
    by (simp add: ref_bv_lib_def ref_pm_lib_def lq_ops_def LQ_MAX_def)
  ultimately have "\<exists>s'. run_calls (service_step ref_bv_lib ref_swarm_lib)
       [(e_free 5, ScDisconnectAndBan [1, 2] 30000), (e_free 30010, ScRound BrUnban), (e_free 30010, ScRound BrBan)] s = Some ([None, None, None], s') \<and>
     sv_swarm s' = sw_ban_peer_id ref_swarm_lib [1, 2] (sw_unban_peer_id ref_swarm_lib [1, 2] (sv_swarm s))"
    using ban_can_outlast_its_time [OF ref_bv.behaviour_env_axioms, of s "e_free 5" 30000 "e_free 30010" ref_swarm_lib "[1, 2]"]
    by (simp add: e_free_def del: run_calls.simps) blast
  moreover have "[1, 2] \<in> set (snd (sw_ban_peer_id ref_swarm_lib [1, 2] sw))" for sw
    by (cases sw) (simp add: ref_swarm_lib_def)
  ultimately show ?thesis using new by metis
qed

end
