(* ===== verification/Transport.thy ===== *)
theory Transport
  imports Network_Service
begin

text \<open>
  The transport that \<open>build_transport\<close> in \<open>core/network/src/service.rs\<close> puts together: a connection is made,
  authenticated by Secio or Noise, and multiplexed, under two timeouts. The protocols are third-party
  code (\<open>transport_lib\<close>); what they do takes time, so a stage gives its duration with its result. Timers
  are on time. \<open>None\<close> is the panic of \<open>generate_noise_config\<close> when the keys cannot be signed.
\<close>

section \<open>Stages\<close>

datatype upgrade_error = DialFailed string | SecurityFailed string | MuxFailed string | UpgradeTimeout

type_synonym 'a stage = "duration \<times> (upgrade_error + 'a)"

text \<open>\<open>'c\<close> are connections, \<open>'s\<close> and \<open>'n\<close> what Secio and Noise make of them, \<open>'m\<close> multiplexers, \<open>'k\<close> keys of Noise.\<close>

record ('c, 's, 'n, 'm, 'k) transport_lib =
  tp_dial :: "multiaddr \<Rightarrow> duration \<times> (string + 'c)"
  tp_authentic :: "keypair \<Rightarrow> 'k option"
  tp_secure :: "keypair \<Rightarrow> 'k \<Rightarrow> 'c \<Rightarrow> duration \<times> (string + (peer_id \<times> 's) + (peer_id \<times> 'n))"
  tp_mux :: "'s + 'n \<Rightarrow> duration \<times> (string + 'm)"

definition stage_then :: "'a stage \<Rightarrow> ('a \<Rightarrow> 'b stage) \<Rightarrow> 'b stage" where
  "stage_then x f =
     (case x of
        (t, Inl err) \<Rightarrow> (t, Inl err)
      | (t, Inr a) \<Rightarrow> (case f a of (t', r) \<Rightarrow> (t + t', r)))"

definition with_timeout :: "duration \<Rightarrow> 'a stage \<Rightarrow> 'a stage" where
  "with_timeout limit x = (if fst x \<le> limit then x else (limit, Inl UpgradeTimeout))"

definition generate_noise_config :: "('c, 's, 'n, 'm, 'k) transport_lib \<Rightarrow> keypair \<Rightarrow> 'k option" where
  "generate_noise_config T key = tp_authentic T key"

definition dial_stage :: "('c, 's, 'n, 'm, 'k) transport_lib \<Rightarrow> multiaddr \<Rightarrow> 'c stage" where
  "dial_stage T addr = (case tp_dial T addr of (t, Inl err) \<Rightarrow> (t, Inl (DialFailed err)) | (t, Inr c) \<Rightarrow> (t, Inr c))"

definition authenticate :: "('c, 's, 'n, 'm, 'k) transport_lib \<Rightarrow> keypair \<Rightarrow> 'k \<Rightarrow> 'c \<Rightarrow> (('s + 'n) \<times> peer_id) stage" where
  "authenticate T key k c =
     (case tp_secure T key k c of
        (t, Inl err) \<Rightarrow> (t, Inl (SecurityFailed err))
      | (t, Inr (Inl (remote_id, out))) \<Rightarrow> (t, Inr (Inl out, remote_id))
      | (t, Inr (Inr (remote_id, out))) \<Rightarrow> (t, Inr (Inr out, remote_id)))"

definition multiplex :: "('c, 's, 'n, 'm, 'k) transport_lib \<Rightarrow> ('s + 'n) \<times> peer_id \<Rightarrow> (peer_id \<times> 'm) stage" where
  "multiplex T sp =
     (case sp of (stream, p) \<Rightarrow>
        (case tp_mux T stream of (t, Inl err) \<Rightarrow> (t, Inl (MuxFailed err)) | (t, Inr muxer) \<Rightarrow> (t, Inr (p, muxer))))"

definition TRANSPORT_TIMEOUT :: nat where "TRANSPORT_TIMEOUT = 20"

text \<open>A connection through the transport. The configuration of Noise is made only when a connection is to be
  authenticated.\<close>

definition transport_connect ::
  "('c, 's, 'n, 'm, 'k) transport_lib \<Rightarrow> keypair \<Rightarrow> multiaddr \<Rightarrow> (peer_id \<times> 'm) stage option" where
  "transport_connect T key addr =
     (let dialed = dial_stage T addr;
          finish = (\<lambda>auth. with_timeout (from_secs TRANSPORT_TIMEOUT)
                      (stage_then (with_timeout (from_secs TRANSPORT_TIMEOUT) (stage_then dialed auth)) (multiplex T)))
      in (case snd dialed of
            Inl err \<Rightarrow> Some (finish (\<lambda>_. (0, Inl err)))
          | Inr _ \<Rightarrow> if from_secs TRANSPORT_TIMEOUT < fst dialed then Some (finish (\<lambda>_. (0, Inl UpgradeTimeout)))
                     else map_option (\<lambda>k. finish (authenticate T key k)) (generate_noise_config T key)))"

definition build_transport ::
  "('c, 's, 'n, 'm, 'k) transport_lib \<Rightarrow> string + unit \<Rightarrow> keypair \<Rightarrow> string + (multiaddr \<Rightarrow> (peer_id \<times> 'm) stage option)" where
  "build_transport T dns_config local_private_key =
     (case dns_config of Inl err \<Rightarrow> Inl err | Inr _ \<Rightarrow> Inr (transport_connect T local_private_key))"

text \<open>What the start of the service (\<open>service_new\<close>) is given of it: whether it could be built, which only the
  configuration of DNS can prevent.\<close>

definition transport_outcome :: "string + 'a \<Rightarrow> string + unit" where
  "transport_outcome tr = map_sum id (\<lambda>_. ()) tr"

lemma transport_outcome_dns: "transport_outcome (build_transport T dns_config key) = dns_config"
  by (cases dns_config) (simp_all add: transport_outcome_def build_transport_def)

section \<open>Lemmas\<close>

lemma with_timeout_le: "fst (with_timeout limit x) \<le> limit"
  by (simp add: with_timeout_def)

lemma with_timeout_Inr: "with_timeout limit x = (t, Inr a) \<Longrightarrow> x = (t, Inr a) \<and> t \<le> limit"
  by (auto simp: with_timeout_def split: if_splits)

lemma stage_then_Inr: "stage_then x f = (t, Inr b) \<Longrightarrow> \<exists>t1 a t2. x = (t1, Inr a) \<and> f a = (t2, Inr b) \<and> t = t1 + t2"
  by (auto simp: stage_then_def split: prod.splits sum.splits)

lemma multiplex_Inr: "multiplex T (stream, p) = (t, Inr (q, m)) \<Longrightarrow> q = p \<and> tp_mux T stream = (t, Inr m)"
  by (auto simp: multiplex_def split: prod.splits sum.splits)

lemma dial_stage_Inr: "dial_stage T addr = (t, Inr c) \<Longrightarrow> tp_dial T addr = (t, Inr c)"
  by (auto simp: dial_stage_def split: prod.splits sum.splits)

definition secured :: "('c, 's, 'n, 'm, 'k) transport_lib \<Rightarrow> keypair \<Rightarrow> 'k \<Rightarrow> 'c \<Rightarrow> duration \<Rightarrow> peer_id \<Rightarrow> 's + 'n \<Rightarrow> bool" where
  "secured T key k c t p stream \<longleftrightarrow>
     (case stream of
        Inl s \<Rightarrow> tp_secure T key k c = (t, Inr (Inl (p, s)))
      | Inr n \<Rightarrow> tp_secure T key k c = (t, Inr (Inr (p, n))))"

lemma authenticate_secured: "authenticate T key k c = (t, Inr (stream, p)) \<Longrightarrow> secured T key k c t p stream"
  by (auto simp: authenticate_def secured_def split: prod.splits sum.splits)

text \<open>The closure that authenticates runs only after a connection was made.\<close>

lemma transport_connect_stages:
  assumes "transport_connect T key addr = Some (t, r)"
  shows "\<exists>auth. with_timeout 20000 (stage_then (with_timeout 20000 (stage_then (dial_stage T addr) auth)) (multiplex T)) = (t, r) \<and>
           ((\<forall>c t' sp. auth c \<noteq> (t', Inr sp)) \<or> (\<exists>k. tp_authentic T key = Some k \<and> auth = authenticate T key k))"
proof -
  have limit: "from_secs TRANSPORT_TIMEOUT = 20000" by (simp add: TRANSPORT_TIMEOUT_def)
  note connect = assms [unfolded transport_connect_def limit generate_noise_config_def Let_def]
  show ?thesis
  proof (cases "snd (dial_stage T addr)")
    case (Inl err)
    with connect show ?thesis by (intro exI [of _ "\<lambda>_. (0, Inl err)"]) simp
  next
    case (Inr c)
    show ?thesis
    proof (cases "20000 < fst (dial_stage T addr)")
      case True
      with connect Inr show ?thesis by (intro exI [of _ "\<lambda>_. (0, Inl UpgradeTimeout)"]) simp
    next
      case False
      with connect Inr obtain k where "tp_authentic T key = Some k"
        "with_timeout 20000 (stage_then (with_timeout 20000 (stage_then (dial_stage T addr) (authenticate T key k))) (multiplex T)) = (t, r)"
        by auto
      then show ?thesis by blast
    qed
  qed
qed

section \<open>Properties\<close>

text \<open>Connections are authenticated and made within twenty seconds: every attempt ends within the timeout, and
  when it gives a connection, the peer it is said to lead to is the one that the handshake of Secio or
  Noise established on the connection that was made, what is multiplexed is the secured stream, and the
  three stages together took no longer than the timeout.\<close>

theorem connections_authenticated:
  assumes "build_transport T dns_config key = Inr tr" and "tr addr = Some (t, r)"
  shows "t \<le> 20000 \<and>
         (\<forall>p m. r = Inr (p, m) \<longrightarrow>
            (\<exists>c k t1 t2 t3 stream. tp_dial T addr = (t1, Inr c) \<and> tp_authentic T key = Some k \<and> secured T key k c t2 p stream \<and>
               tp_mux T stream = (t3, Inr m) \<and> t = t1 + t2 + t3))"
proof -
  from assms have "transport_connect T key addr = Some (t, r)" by (auto simp: build_transport_def split: sum.splits)
  from transport_connect_stages [OF this] obtain auth where
    fin: "with_timeout 20000 (stage_then (with_timeout 20000 (stage_then (dial_stage T addr) auth)) (multiplex T)) = (t, r)"
    and auth: "(\<forall>c t' sp. auth c \<noteq> (t', Inr sp)) \<or> (\<exists>k. tp_authentic T key = Some k \<and> auth = authenticate T key k)" by blast
  have "t \<le> 20000" using with_timeout_le [of 20000] fin by (metis fst_conv)
  moreover have "\<exists>c k t1 t2 t3 stream. tp_dial T addr = (t1, Inr c) \<and> tp_authentic T key = Some k \<and> secured T key k c t2 p stream \<and>
       tp_mux T stream = (t3, Inr m) \<and> t = t1 + t2 + t3" if r: "r = Inr (p, m)" for p m
  proof -
    from with_timeout_Inr [OF fin [unfolded r]]
    have "stage_then (with_timeout 20000 (stage_then (dial_stage T addr) auth)) (multiplex T) = (t, Inr (p, m))" by simp
    from stage_then_Inr [OF this] obtain t' stream q t3 where
      1: "with_timeout 20000 (stage_then (dial_stage T addr) auth) = (t', Inr (stream, q))" "multiplex T (stream, q) = (t3, Inr (p, m))" "t = t' + t3" by auto
    from with_timeout_Inr [OF 1(1)] have "stage_then (dial_stage T addr) auth = (t', Inr (stream, q))" by simp
    from stage_then_Inr [OF this] obtain t1 c t2 where
      2: "dial_stage T addr = (t1, Inr c)" "auth c = (t2, Inr (stream, q))" "t' = t1 + t2" by auto
    with auth obtain k where "tp_authentic T key = Some k" "secured T key k c t2 q stream" by (auto dest: authenticate_secured)
    with 1 2 multiplex_Inr [OF 1(2)] dial_stage_Inr [OF 2(1)] show ?thesis by auto
  qed
  ultimately show ?thesis by blast
qed

definition ref_transport :: "(nat, nat, nat, nat, unit) transport_lib" where
  "ref_transport =
     \<lparr> tp_dial = (\<lambda>addr. (30, Inr 1)), tp_authentic = (\<lambda>_. Some ()), tp_secure = (\<lambda>_ _ c. (40, Inr (Inr ([1, 2], c + 1)))),
       tp_mux = (\<lambda>stream. (5, case stream of Inl _ \<Rightarrow> Inl ''no protocol'' | Inr n \<Rightarrow> Inr (n + 1))) \<rparr>"

theorem connections_authenticated_witness:
  "\<exists>tr. build_transport ref_transport (Inr ()) (Secp256k1Pair [7]) = Inr tr \<and> tr [] = Some (75, Inr ([1, 2], 3)) \<and> (75 :: nat) \<le> 20000 \<and>
     (\<exists>c k t1 t2 t3 stream. tp_dial ref_transport [] = (t1, Inr c) \<and> secured ref_transport (Secp256k1Pair [7]) k c t2 [1, 2] stream \<and>
        tp_mux ref_transport stream = (t3, Inr 3) \<and> 75 = t1 + t2 + t3)"
proof -
  let ?tr = "transport_connect ref_transport (Secp256k1Pair [7])"
  have tr: "build_transport ref_transport (Inr ()) (Secp256k1Pair [7]) = Inr ?tr" by (simp add: build_transport_def)
  have run: "?tr [] = Some (75, Inr ([1, 2], 3))"
    by (simp add: transport_connect_def ref_transport_def dial_stage_def generate_noise_config_def authenticate_def multiplex_def
        stage_then_def with_timeout_def TRANSPORT_TIMEOUT_def)
  from connections_authenticated [OF tr run] tr run show ?thesis by blast
qed

text \<open>The panic of \<open>generate_noise_config\<close>: an attempt panics exactly when the keys cannot be signed and a
  connection was made in time.\<close>

theorem transport_panics_iff:
  assumes "build_transport T dns_config key = Inr tr"
  shows "tr addr = None \<longleftrightarrow> tp_authentic T key = None \<and> (\<exists>c t. tp_dial T addr = (t, Inr c) \<and> t \<le> 20000)"
  using assms
  by (auto simp: build_transport_def transport_connect_def Let_def generate_noise_config_def TRANSPORT_TIMEOUT_def dial_stage_def
      split: sum.splits prod.splits if_splits)

theorem transport_panics_iff_witness:
  "\<exists>tr. build_transport (ref_transport\<lparr> tp_authentic := \<lambda>_. None \<rparr>) (Inr ()) (Secp256k1Pair [7]) = Inr tr \<and> tr [] = None"
proof -
  let ?T = "ref_transport\<lparr> tp_authentic := \<lambda>_. None \<rparr>"
  have "build_transport ?T (Inr ()) (Secp256k1Pair [7]) = Inr (transport_connect ?T (Secp256k1Pair [7]))" by (simp add: build_transport_def)
  from transport_panics_iff [OF this, of "[]"] this show ?thesis by (simp add: ref_transport_def)
qed

end
