(* ===== verification/Task_Executor.thy ===== *)
theory Task_Executor
  imports Mothra_Prelude
begin

text \<open>
  \<open>core/network/src/executor.rs\<close>: the executor that spawns tasks on the runtime. A future is a state with
  a poll function; the runtime polls the spawned futures in any order. \<open>spawn\<close> and \<open>spawn_blocking\<close> wrap
  the future together with the exit future in \<open>select\<close>, which polls the task first; a wrapped task is
  dropped when the exit future is ready. A blocking closure runs on a thread of its own, and what is
  wrapped is only the handle that waits for it.
\<close>

datatype task_kind = WithExit | WithoutExit | BlockingHandle

datatype 'f task_state = Running 'f | Completed | ShutDown

record 'f task =
  tk_name :: string
  tk_kind :: task_kind
  tk_state :: "'f task_state"

record 'f task_executor =
  tasks :: "'f task list"
  exit_fired :: bool

definition executor_new :: "'f task_executor" where
  "executor_new = \<lparr> tasks = [], exit_fired = False \<rparr>"

definition spawn_kind :: "task_kind \<Rightarrow> 'f \<Rightarrow> string \<Rightarrow> 'f task_executor \<Rightarrow> 'f task_executor" where
  "spawn_kind k f name ex = ex\<lparr> tasks := tasks ex @ [\<lparr> tk_name = name, tk_kind = k, tk_state = Running f \<rparr>] \<rparr>"

definition executor_spawn :: "'f \<Rightarrow> string \<Rightarrow> 'f task_executor \<Rightarrow> 'f task_executor" where
  "executor_spawn f name ex = spawn_kind WithExit f name ex"

definition spawn_without_exit :: "'f \<Rightarrow> string \<Rightarrow> 'f task_executor \<Rightarrow> 'f task_executor" where
  "spawn_without_exit f name ex = spawn_kind WithoutExit f name ex"

definition spawn_blocking :: "'f \<Rightarrow> string \<Rightarrow> 'f task_executor \<Rightarrow> 'f task_executor" where
  "spawn_blocking handle name ex = spawn_kind BlockingHandle handle name ex"

definition discv5_spawn :: "'f \<Rightarrow> 'f task_executor \<Rightarrow> 'f task_executor" where
  "discv5_spawn f ex = executor_spawn f ''discv5'' ex"

text \<open>One poll of a spawned future: \<open>select\<close> gives the task precedence over the exit.\<close>

definition poll_task :: "(env \<Rightarrow> 'f \<Rightarrow> bool \<times> 'f) \<Rightarrow> env \<Rightarrow> bool \<Rightarrow> 'f task \<Rightarrow> 'f task" where
  "poll_task poll_f e fired t =
     (case tk_state t of
        Running f \<Rightarrow>
          (case poll_f e f of
             (True, _) \<Rightarrow> t\<lparr> tk_state := Completed \<rparr>
           | (False, f') \<Rightarrow>
               t\<lparr> tk_state := if fired \<and> tk_kind t \<noteq> WithoutExit then ShutDown else Running f' \<rparr>)
      | _ \<Rightarrow> t)"

section \<open>Runs\<close>

datatype 'f executor_call = ExSpawn task_kind 'f string | ExPoll env nat | ExExit

fun executor_step :: "(env \<Rightarrow> 'f \<Rightarrow> bool \<times> 'f) \<Rightarrow> 'f executor_call \<Rightarrow> 'f task_executor \<Rightarrow> (unit \<times> 'f task_executor) option" where
  "executor_step poll_f (ExSpawn k f name) ex =
     Some ((), case k of
                 WithExit \<Rightarrow> executor_spawn f name ex
               | WithoutExit \<Rightarrow> spawn_without_exit f name ex
               | BlockingHandle \<Rightarrow> spawn_blocking f name ex)"
| "executor_step poll_f (ExPoll e i) ex =
     Some ((), if i < length (tasks ex) then ex\<lparr> tasks := (tasks ex)[i := poll_task poll_f e (exit_fired ex) (tasks ex ! i)] \<rparr> else ex)"
| "executor_step poll_f ExExit ex = Some ((), ex\<lparr> exit_fired := True \<rparr>)"

definition task_over :: "'f task \<Rightarrow> bool" where
  "task_over t \<longleftrightarrow> (case tk_state t of Running _ \<Rightarrow> False | _ \<Rightarrow> True)"

lemma poll_task_kind [simp]: "tk_kind (poll_task poll_f e fired t) = tk_kind t"
  by (simp add: poll_task_def split: task_state.splits prod.splits bool.splits)

lemma poll_task_over: "task_over t \<Longrightarrow> poll_task poll_f e fired t = t"
  by (simp add: poll_task_def task_over_def split: task_state.splits)

lemma poll_task_exit: "tk_kind t \<noteq> WithoutExit \<Longrightarrow> task_over (poll_task poll_f e True t)"
  by (simp add: poll_task_def task_over_def split: task_state.splits prod.splits bool.splits)

definition grows :: "'f task_executor \<Rightarrow> 'f task_executor \<Rightarrow> bool" where
  "grows ex ex' \<longleftrightarrow> length (tasks ex) \<le> length (tasks ex') \<and> (exit_fired ex \<longrightarrow> exit_fired ex') \<and>
     (\<forall>i < length (tasks ex). tk_kind (tasks ex' ! i) = tk_kind (tasks ex ! i) \<and>
        (task_over (tasks ex ! i) \<longrightarrow> tasks ex' ! i = tasks ex ! i))"

lemma executor_step_grows: "executor_step poll_f c ex = Some (out, ex') \<Longrightarrow> grows ex ex'"
proof (cases c)
  case (ExSpawn k f name)
  then show "executor_step poll_f c ex = Some (out, ex') \<Longrightarrow> grows ex ex'"
    by (cases k) (auto simp: grows_def executor_spawn_def spawn_without_exit_def spawn_blocking_def spawn_kind_def nth_append)
qed (auto simp: grows_def nth_list_update poll_task_over split: if_splits)

lemma grows_trans: "grows a b \<Longrightarrow> grows b c \<Longrightarrow> grows a c"
  unfolding grows_def by (metis order_less_le_trans order_trans)

lemma executor_run_grows: "run_calls (executor_step poll_f) cs ex = Some (outs, ex') \<Longrightarrow> grows ex ex'"
proof (induction cs arbitrary: ex outs)
  case (Cons c cs)
  then obtain out ex1 outs1 where "executor_step poll_f c ex = Some (out, ex1)" "run_calls (executor_step poll_f) cs ex1 = Some (outs1, ex')"
    by (auto split: option.splits)
  with Cons.IH executor_step_grows grows_trans show ?case by metis
qed (simp add: grows_def)

section \<open>Properties\<close>

text \<open>The exit stops the tasks: once the exit has been signalled, every task that was spawned with the exit
  future is over after its next poll, whatever the runtime does before and after it, and stays over;
  and a task that is over is not touched again.\<close>

theorem exit_stops_tasks:
  assumes "exit_fired ex" and "i < length (tasks ex)" and "tk_kind (tasks ex ! i) \<noteq> WithoutExit"
    and "run_calls (executor_step poll_f) (cs1 @ ExPoll e i # cs2) ex = Some (outs, ex')"
  shows "task_over (tasks ex' ! i)"
proof -
  from assms(4) obtain outs1 ex1 out ex2 outs2 where
    run: "run_calls (executor_step poll_f) cs1 ex = Some (outs1, ex1)" "executor_step poll_f (ExPoll e i) ex1 = Some (out, ex2)"
      "run_calls (executor_step poll_f) cs2 ex2 = Some (outs2, ex')"
    by (auto simp: run_calls_append split: option.splits)
  from executor_run_grows [OF run(1)] assms(1-3) have 1: "exit_fired ex1" "i < length (tasks ex1)" "tk_kind (tasks ex1 ! i) \<noteq> WithoutExit"
    by (auto simp: grows_def)
  with run(2) have "task_over (tasks ex2 ! i)" "i < length (tasks ex2)" by (auto simp: poll_task_exit)
  with executor_run_grows [OF run(3)] show ?thesis by (simp add: grows_def)
qed

theorem exit_stops_tasks_witness:
  "\<exists>outs ex'. run_calls (executor_step (\<lambda>_ (n::nat). (n = 0, n - 1)))
       ([] @ ExPoll \<lparr> now = 1, overflow_checks = False \<rparr> 0 # [])
       \<lparr> tasks = [\<lparr> tk_name = ''libp2p'', tk_kind = WithExit, tk_state = Running 5 \<rparr>], exit_fired = True \<rparr> = Some (outs, ex') \<and>
     task_over (tasks ex' ! 0)"
proof -
  let ?ex = "\<lparr> tasks = [\<lparr> tk_name = ''libp2p'', tk_kind = WithExit, tk_state = Running 5 \<rparr>], exit_fired = True \<rparr>"
  obtain outs ex' where run: "run_calls (executor_step (\<lambda>_ (n::nat). (n = 0, n - 1)))
      ([] @ ExPoll \<lparr> now = 1, overflow_checks = False \<rparr> 0 # []) ?ex = Some (outs, ex')" by simp
  from exit_stops_tasks [OF _ _ _ run] run show ?thesis by simp
qed

end
