(* ===== verification/Rust_Parse.thy ===== *)
theory Rust_Parse
  imports Network_Config "HOL-Library.Code_Target_Numeral"
begin

text \<open>
  What the command line uses of the standard library: \<open>str::parse\<close> for the unsigned integers and for
  \<open>IpAddr\<close>. The address parser is the one of Rust 1.53 and later, which refuses leading zeros in the
  octets of an IPv4 address. A parser returns its value with the rest of the input; on \<open>None\<close> the caller
  goes on where it was, which is what \<open>read_atomically\<close> does.
\<close>

section \<open>Numbers\<close>

definition to_digit :: "nat \<Rightarrow> char \<Rightarrow> nat option" where
  "to_digit radix c =
     (let n = of_char c;
          d = (if 48 \<le> n \<and> n \<le> 57 then n - 48 else if 97 \<le> n \<and> n \<le> 122 then n - 87
               else if 65 \<le> n \<and> n \<le> 90 then n - 55 else radix)
      in if d < radix then Some d else None)"

text \<open>Digits up to the first other character, at most \<open>max_digits\<close> of them and of a value of at most \<open>bound\<close>;
  the result has the number of digits too.\<close>

fun read_digits :: "nat \<Rightarrow> nat \<Rightarrow> nat option \<Rightarrow> nat \<Rightarrow> nat \<Rightarrow> string \<Rightarrow> (nat \<times> nat \<times> string) option" where
  "read_digits radix bound max_digits cnt res [] = Some (res, cnt, [])"
| "read_digits radix bound max_digits cnt res (c # s) =
     (case to_digit radix c of
        None \<Rightarrow> Some (res, cnt, c # s)
      | Some d \<Rightarrow>
          if bound < res * radix + d \<or> (case max_digits of None \<Rightarrow> False | Some m \<Rightarrow> m < Suc cnt) then None
          else read_digits radix bound max_digits (Suc cnt) (res * radix + d) s)"

definition read_number :: "nat \<Rightarrow> nat \<Rightarrow> nat option \<Rightarrow> bool \<Rightarrow> string \<Rightarrow> (nat \<times> string) option" where
  "read_number radix bound max_digits allow_zero_prefix s =
     (case read_digits radix bound max_digits 0 0 s of
        None \<Rightarrow> None
      | Some (n, cnt, s') \<Rightarrow>
          if cnt = 0 \<or> \<not> allow_zero_prefix \<and> take 1 s = ''0'' \<and> 1 < cnt then None else Some (n, s'))"

text \<open>\<open>parse\<close> for an unsigned integer type with the maximum \<open>bound\<close>: an optional plus sign and digits only.\<close>

definition parse_uint :: "nat \<Rightarrow> string \<Rightarrow> nat option" where
  "parse_uint bound s =
     (case read_number 10 bound None True (if take 1 s = ''+'' then drop 1 s else s) of
        Some (n, []) \<Rightarrow> Some n
      | _ \<Rightarrow> None)"

section \<open>Addresses\<close>

definition read_separator :: "char \<Rightarrow> nat \<Rightarrow> (string \<Rightarrow> ('a \<times> string) option) \<Rightarrow> string \<Rightarrow> ('a \<times> string) option" where
  "read_separator sep i inner s =
     (if i = 0 then inner s
      else (case s of [] \<Rightarrow> None | c # s' \<Rightarrow> if c = sep then inner s' else None))"

fun read_octets :: "nat \<Rightarrow> nat \<Rightarrow> string \<Rightarrow> (nat list \<times> string) option" where
  "read_octets 0 i s = Some ([], s)"
| "read_octets (Suc k) i s =
     (case read_separator CHR ''.'' i (read_number 10 255 (Some 3) False) s of
        None \<Rightarrow> None
      | Some (g, s') \<Rightarrow> map_option (\<lambda>(gs, s''). (g # gs, s'')) (read_octets k (Suc i) s'))"

definition read_ipv4_addr :: "string \<Rightarrow> (nat list \<times> string) option" where
  "read_ipv4_addr s = read_octets 4 0 s"

text \<open>Up to \<open>k\<close> groups of an IPv6 address, the last two of which may be written as an IPv4 address; the flag
  tells whether they were.\<close>

fun read_groups :: "nat \<Rightarrow> nat \<Rightarrow> string \<Rightarrow> nat list \<times> bool \<times> string" where
  "read_groups 0 i s = ([], False, s)"
| "read_groups (Suc k) i s =
     (case (if 0 < k then read_separator CHR '':'' i read_ipv4_addr s else None) of
        Some (gs, s') \<Rightarrow> ([gs ! 0 * 256 + gs ! 1, gs ! 2 * 256 + gs ! 3], True, s')
      | None \<Rightarrow>
          (case read_separator CHR '':'' i (read_number 16 65535 (Some 4) True) s of
             None \<Rightarrow> ([], False, s)
           | Some (g, s') \<Rightarrow> (let (gs, v4, s'') = read_groups k (Suc i) s' in (g # gs, v4, s''))))"

definition read_ipv6_addr :: "string \<Rightarrow> (nat list \<times> string) option" where
  "read_ipv6_addr s =
     (let (head, v4, s1) = read_groups 8 0 s
      in if length head = 8 then Some (head, s1)
         else if v4 then None
         else if take 2 s1 \<noteq> ''::'' then None
         else (let (tail, _, s2) = read_groups (8 - (length head + 1)) 0 (drop 2 s1)
               in Some (head @ replicate (8 - length head - length tail) 0 @ tail, s2)))"

definition number_of_groups :: "nat \<Rightarrow> nat list \<Rightarrow> nat" where
  "number_of_groups radix gs = foldl (\<lambda>n g. n * radix + g) 0 gs"

definition parse_ip_addr :: "string \<Rightarrow> ip_addr option" where
  "parse_ip_addr s =
     (case read_ipv4_addr s of
        Some (gs, s') \<Rightarrow> if s' = [] then Some (V4 (word_of_nat (number_of_groups 256 gs))) else None
      | None \<Rightarrow>
          (case read_ipv6_addr s of
             Some (gs, []) \<Rightarrow> Some (V6 (word_of_nat (number_of_groups 65536 gs)))
           | _ \<Rightarrow> None))"

section \<open>Written numbers and addresses are read back\<close>

definition show_octets :: "u32 \<Rightarrow> nat list" where
  "show_octets a = [unat a div 16777216, unat a div 65536 mod 256, unat a div 256 mod 256, unat a mod 256]"

definition show_ipv4_addr :: "u32 \<Rightarrow> string" where
  "show_ipv4_addr a = join_with CHR ''.'' (map show_nat (show_octets a))"

lemma to_digit_char: "n < 10 \<Longrightarrow> to_digit 10 (char_of (48 + n)) = Some n"
  by (simp add: to_digit_def Let_def)

lemma read_digits_show_nat:
  "res * 10 ^ length (show_nat n) + n \<le> bound \<Longrightarrow> (case max_digits of None \<Rightarrow> True | Some m \<Rightarrow> cnt + length (show_nat n) \<le> m) \<Longrightarrow>
   read_digits 10 bound max_digits cnt res (show_nat n @ s) =
     read_digits 10 bound max_digits (cnt + length (show_nat n)) (res * 10 ^ length (show_nat n) + n) s"
proof (induction n arbitrary: s rule: show_nat.induct)
  case (1 n)
  show ?case
  proof (cases "n < 10")
    case True
    with 1 show ?thesis by (simp add: show_nat.simps [of n] to_digit_char split: option.splits)
  next
    case False
    let ?m = "n div 10" and ?l = "length (show_nat (n div 10))"
    have n: "res * 10 ^ length (show_nat n) + n = (res * 10 ^ ?l + ?m) * 10 + n mod 10"
      using False by (simp add: show_nat.simps [of n] algebra_simps)
    have len: "length (show_nat n) = Suc ?l" using False by (simp add: show_nat.simps [of n])
    from 1 False n len show ?thesis
      by (simp add: show_nat.simps [of n] to_digit_char split: option.splits) (simp_all add: algebra_simps)
  qed
qed

lemma show_nat_nonempty [simp]: "show_nat n \<noteq> []"
  by (subst show_nat.simps) simp

lemma show_nat_digits: "c \<in> set (show_nat n) \<Longrightarrow> \<exists>d::nat. d < 10 \<and> c = char_of (48 + d)"
proof (induction n rule: show_nat.induct)
  case (1 n)
  show ?case
  proof (cases "n < 10")
    case False
    with 1(2) have "c \<in> set (show_nat (n div 10)) \<or> c = char_of (48 + n mod 10)" by (auto simp: show_nat.simps [of n])
    then show ?thesis
    proof
      assume "c = char_of (48 + n mod 10)"
      then show ?thesis by (intro exI [of _ "n mod 10"]) simp
    qed (use 1(1) [OF False] in blast)
  qed (use 1(2) in \<open>auto simp: show_nat.simps [of n]\<close>)
qed

lemma show_nat_no_zero: "0 < n \<Longrightarrow> take 1 (show_nat n @ s) \<noteq> ''0''"
proof (induction n arbitrary: s rule: show_nat.induct)
  case (1 n)
  show ?case
  proof (cases "n < 10")
    case True
    have "to_digit 10 CHR ''0'' = Some 0" by (simp add: to_digit_def)
    with True to_digit_char [of n] 1(2) show ?thesis by (auto simp: show_nat.simps [of n])
  qed (use 1 in \<open>simp add: show_nat.simps [of n]\<close>)
qed

definition no_digit :: "string \<Rightarrow> bool" where
  "no_digit s \<longleftrightarrow> (case s of [] \<Rightarrow> True | c # _ \<Rightarrow> to_digit 10 c = None)"

lemma read_number_show_nat:
  assumes "n \<le> bound" and "case max_digits of None \<Rightarrow> True | Some m \<Rightarrow> length (show_nat n) \<le> m" and "no_digit s"
  shows "read_number 10 bound max_digits zero_prefix (show_nat n @ s) = Some (n, s)"
proof -
  have "read_digits 10 bound max_digits cnt res s = Some (res, cnt, s)" for cnt res
    using assms(3) by (cases s) (simp_all add: no_digit_def)
  moreover have "\<not> (take 1 (show_nat n @ s) = ''0'' \<and> 1 < length (show_nat n))"
    using show_nat_no_zero [of n s] by (cases "n = 0") (simp_all add: show_nat.simps [of 0])
  moreover have "read_digits 10 bound max_digits 0 0 (show_nat n @ s) = read_digits 10 bound max_digits (length (show_nat n)) n s"
    by (subst read_digits_show_nat) (use assms(1,2) in \<open>simp_all split: option.splits\<close>)
  ultimately show ?thesis by (auto simp: read_number_def)
qed

lemma plus_no_digit: "to_digit 10 CHR ''+'' = None"
  by (simp add: to_digit_def)

lemma parse_uint_show_nat:
  assumes "n \<le> bound"
  shows "parse_uint bound (show_nat n) = Some n"
proof -
  have "CHR ''+'' \<notin> set (show_nat n)" using show_nat_digits [of "CHR ''+''" n] to_digit_char by (metis option.distinct(1) plus_no_digit)
  then have "take 1 (show_nat n) \<noteq> ''+''" by (cases "show_nat n") auto
  then show ?thesis
    using read_number_show_nat [OF assms, of None "[]" True] by (simp add: parse_uint_def no_digit_def)
qed

lemma octet_length: "n < 256 \<Longrightarrow> length (show_nat n) \<le> 3"
  by (simp add: show_nat.simps [of n] show_nat.simps [of "n div 10"] show_nat.simps [of "n div 10 div 10"])

lemma read_octet: "n < 256 \<Longrightarrow> no_digit s \<Longrightarrow> read_number 10 255 (Some 3) False (show_nat n @ s) = Some (n, s)"
  using octet_length by (intro read_number_show_nat) simp_all

lemma no_digit_simps [simp]: "no_digit []" "no_digit (CHR ''.'' # s)"
  by (simp_all add: no_digit_def to_digit_def)

lemma read_octets_show:
  "gs \<noteq> [] \<Longrightarrow> list_all (\<lambda>g. g < 256) gs \<Longrightarrow>
   read_octets (length gs) i ((if i = 0 then [] else ''.'') @ join_with CHR ''.'' (map show_nat gs)) = Some (gs, [])"
proof (induction gs arbitrary: i)
  case (Cons g gs)
  show ?case
  proof (cases "gs = []")
    case True
    with Cons.prems show ?thesis using read_octet [of g "[]"] by (simp add: read_separator_def)
  next
    case False
    let ?rest = "CHR ''.'' # join_with CHR ''.'' (map show_nat gs)"
    from Cons.IH [OF False, of "Suc i"] Cons.prems have "read_octets (length gs) (Suc i) ?rest = Some (gs, [])" by simp
    with False Cons.prems show ?thesis
      using read_octet [of g ?rest] by (cases "i = 0") (simp_all add: read_separator_def join_with_Cons)
  qed
qed simp

lemma parse_show_ipv4_addr: "parse_ip_addr (show_ipv4_addr a) = Some (V4 a)"
proof -
  have "unat a div 16777216 < 256" using unsigned_less [of a, where ?'a = nat] by simp
  then have "list_all (\<lambda>g. g < 256) (show_octets a)" by (simp add: show_octets_def)
  moreover have "length (show_octets a) = 4" "show_octets a \<noteq> []" by (simp_all add: show_octets_def)
  ultimately have "read_octets 4 0 (show_ipv4_addr a) = Some (show_octets a, [])"
    using read_octets_show [of "show_octets a" 0] by (simp add: show_ipv4_addr_def)
  then have "read_ipv4_addr (show_ipv4_addr a) = Some (show_octets a, [])" by (simp add: read_ipv4_addr_def)
  moreover have "number_of_groups 256 (show_octets a) = unat a"
    using div_mult_mod_eq [of "unat a" 256] div_mult_mod_eq [of "unat a div 256" 256] div_mult_mod_eq [of "unat a div 65536" 256]
    by (simp add: number_of_groups_def show_octets_def div_mult2_eq [symmetric])
  ultimately show ?thesis by (simp add: parse_ip_addr_def)
qed

end
