(* ===== verification/Cli_Config.thy ===== *)
theory Cli_Config
  imports Rust_Parse
begin

text \<open>
  \<open>core/src/config.rs\<close> and \<open>core/src/cli.rs\<close>: the configuration of Mothra and how the command line changes
  it. The command line itself is read by clap: \<open>cli_app\<close> holds the declarations that the source makes, and
  the matches are the parameter \<open>arg_matches\<close>, with what clap promises about them in the locale
  \<open>cli_matches\<close>. Records and addresses of peers are parsed by the enr and multiaddr libraries.
\<close>

section \<open>The command line\<close>

record cli_arg =
  arg_name :: string
  arg_short :: "string option"
  takes_value :: bool
  default_value :: "string option"
  possible_values :: "string list"

definition flag_arg :: "string \<Rightarrow> string option \<Rightarrow> cli_arg" where
  "flag_arg name short = \<lparr> arg_name = name, arg_short = short, takes_value = False, default_value = None, possible_values = [] \<rparr>"

definition value_arg :: "string \<Rightarrow> string option \<Rightarrow> string list \<Rightarrow> cli_arg" where
  "value_arg name dflt possible =
     \<lparr> arg_name = name, arg_short = None, takes_value = True, default_value = dflt, possible_values = possible \<rparr>"

text \<open>Every long option has the name of its argument.\<close>

definition cli_app :: "cli_arg list" where
  "cli_app =
     [value_arg ''datadir'' None [], flag_arg ''auto-ports'' (Some ''a''),
      value_arg ''listen-address'' (Some ''127.0.0.1'') [], value_arg ''port'' (Some ''9000'') [],
      value_arg ''discovery-port'' None [], value_arg ''maxpeers'' (Some ''50'') [],
      value_arg ''boot-nodes'' None [], flag_arg ''disable-enr-auto-update'' (Some ''-d''),
      value_arg ''topics'' None [], value_arg ''libp2p-addresses'' None [],
      value_arg ''debug-level'' (Some ''info'') [''info'', ''debug'', ''trace'', ''warn'', ''error'', ''crit'']]"

record arg_matches =
  value_of :: "string \<Rightarrow> string option"
  is_present :: "string \<Rightarrow> bool"

text \<open>Clap finds only declared arguments; a flag has no value; an argument with a default always has a
  value; and a value is one of the possible values where these are given. The values are byte strings:
  whether one is UTF-8, without which reading it panics, is left open.\<close>

locale cli_matches =
  fixes app :: "cli_arg list" and m :: arg_matches
  assumes undeclared: "n \<notin> arg_name ` set app \<Longrightarrow> value_of m n = None \<and> \<not> is_present m n"
    and flag_no_value: "a \<in> set app \<Longrightarrow> \<not> takes_value a \<Longrightarrow> value_of m (arg_name a) = None"
    and default_given: "a \<in> set app \<Longrightarrow> default_value a \<noteq> None \<Longrightarrow> value_of m (arg_name a) \<noteq> None"
    and value_possible: "a \<in> set app \<Longrightarrow> possible_values a \<noteq> [] \<Longrightarrow> value_of m (arg_name a) = Some v \<Longrightarrow> v \<in> set (possible_values a)"

section \<open>The configuration\<close>

definition DEFAULT_DEBUG_LEVEL :: string where "DEFAULT_DEBUG_LEVEL = ''info''"

record 'e mothra_config =
  client_name :: string
  client_version :: string
  debug_level :: string
  mc_network :: "'e network_config"

text \<open>\<open>build\<close> is what the build and the machine contribute: versions of the two packages, target, home directory.\<close>

record build_info =
  bi_version :: string
  bi_network_version :: string
  bi_arch :: string
  bi_os :: string
  bi_home :: "string option"

definition mothra_config_default :: "build_info \<Rightarrow> 'e mothra_config" where
  "mothra_config_default bi =
     \<lparr> client_name = DEFAULT_CLIENT_NAME, client_version = ''v'' @ bi_version bi, debug_level = DEFAULT_DEBUG_LEVEL,
       mc_network = config_default (bi_network_version bi) (bi_arch bi) (bi_os bi) (bi_home bi) \<rparr>"

definition mothra_config_new ::
  "build_info \<Rightarrow> string option \<Rightarrow> string option \<Rightarrow> string option \<Rightarrow> 'e mothra_config" where
  "mothra_config_new bi name version protocol_version =
     (let config = mothra_config_default bi;
          config = (case name of Some x \<Rightarrow> config\<lparr> client_name := x \<rparr> | None \<Rightarrow> config);
          config = (case version of Some x \<Rightarrow> config\<lparr> client_version := x \<rparr> | None \<Rightarrow> config)
      in (case protocol_version of
            Some x \<Rightarrow> config\<lparr> mc_network := (mc_network config)\<lparr> cfg_protocol_version := x \<rparr> \<rparr>
          | None \<Rightarrow> config))"

section \<open>Applying the command line\<close>

text \<open>\<open>cl_printable\<close> are the Unicode tables for Debug texts; the two sockets are those of \<open>unused_port\<close>.\<close>

record 'e cli_lib =
  cl_enr_parse :: "string \<Rightarrow> 'e option"
  cl_multiaddr_parse :: "string \<Rightarrow> multiaddr option"
  cl_printable :: "nat \<Rightarrow> bool"
  cl_tcp_bind :: "string + (string + u16)"
  cl_udp_bind :: "string + (string + u16)"

definition U16_MAX :: nat where "U16_MAX = 65535"
definition USIZE_MAX :: nat where "USIZE_MAX = 18446744073709551615"

definition parse_u16 :: "string \<Rightarrow> u16 option" where
  "parse_u16 s = map_option word_of_nat (parse_uint U16_MAX s)"

text \<open>A statement of \<open>apply_cli_args\<close>: the configuration it leaves, and the error it returns with. It panics
  when clap does: \<open>value_of\<close> does so on a value that is not UTF-8.\<close>

datatype cli_stop = CliErr string | CliPanic

type_synonym 'e cli_step = "'e mothra_config \<Rightarrow> cli_stop option \<times> 'e mothra_config"

definition then_apply :: "'e cli_step \<Rightarrow> 'e cli_step \<Rightarrow> 'e cli_step" where
  "then_apply f g c = (case f c of (None, c') \<Rightarrow> g c' | (Some err, c') \<Rightarrow> (Some err, c'))"

definition on_network :: "('e network_config \<Rightarrow> 'e network_config) \<Rightarrow> 'e mothra_config \<Rightarrow> 'e mothra_config" where
  "on_network f c = c\<lparr> mc_network := f (mc_network c) \<rparr>"

text \<open>\<open>if let Some(s) = args.value_of(name)\<close>, with a value that is parsed or refused before anything is
  assigned.\<close>

definition apply_value ::
  "arg_matches \<Rightarrow> string \<Rightarrow> (string \<Rightarrow> 'v option) \<Rightarrow> (string \<Rightarrow> string) \<Rightarrow> ('v \<Rightarrow> 'e mothra_config \<Rightarrow> 'e mothra_config) \<Rightarrow> 'e cli_step" where
  "apply_value m name parse message assign c =
     (case value_of m name of
        None \<Rightarrow> (None, c)
      | Some s \<Rightarrow>
          if \<not> utf8_valid (as_bytes s) then (Some CliPanic, c)
          else (case parse s of None \<Rightarrow> (Some (CliErr (message s)), c) | Some v \<Rightarrow> (None, assign v c)))"

text \<open>A list separated by commas; the error names the first piece that cannot be parsed.\<close>

fun parse_pieces :: "(string \<Rightarrow> 'v option) \<Rightarrow> string list \<Rightarrow> string + 'v list" where
  "parse_pieces parse [] = Inr []"
| "parse_pieces parse (s # ss) =
     (case parse s of
        None \<Rightarrow> Inl s
      | Some v \<Rightarrow> (case parse_pieces parse ss of Inl err \<Rightarrow> Inl err | Inr vs \<Rightarrow> Inr (v # vs)))"

definition apply_list ::
  "arg_matches \<Rightarrow> string \<Rightarrow> (string \<Rightarrow> 'v option) \<Rightarrow> string \<Rightarrow> ('v list \<Rightarrow> 'e mothra_config \<Rightarrow> 'e mothra_config) \<Rightarrow> 'e cli_step" where
  "apply_list m name parse message assign c =
     (case value_of m name of
        None \<Rightarrow> (None, c)
      | Some s \<Rightarrow>
          if \<not> utf8_valid (as_bytes s) then (Some CliPanic, c)
          else (case parse_pieces parse (split_on CHR '','' s) of
             Inl piece \<Rightarrow> (Some (CliErr (message @ piece)), c)
           | Inr vs \<Rightarrow> (None, assign vs c)))"

definition apply_auto_ports :: "'e cli_lib \<Rightarrow> arg_matches \<Rightarrow> 'e cli_step" where
  "apply_auto_ports cl m c =
     (if is_present m ''auto-ports''
      then
        (let c = on_network (\<lambda>n. if enr_address n = Some (V4 0) then n\<lparr> enr_address := None \<rparr> else n) c
         in (case unused_port (cl_tcp_bind cl) (cl_udp_bind cl) ''tcp'' of
               Inl err \<Rightarrow> (Some (CliErr (''Failed to get port for libp2p: '' @ err)), c)
             | Inr tcp \<Rightarrow>
                 (let c = on_network (\<lambda>n. n\<lparr> libp2p_port := tcp \<rparr>) c
                  in (case unused_port (cl_tcp_bind cl) (cl_udp_bind cl) ''udp'' of
                        Inl err \<Rightarrow> (Some (CliErr (''Failed to get port for discovery: '' @ err)), c)
                      | Inr udp \<Rightarrow>
                          (None, on_network (\<lambda>n. n\<lparr> discovery_port := udp, enr_tcp_port := Some (libp2p_port n), enr_udp_port := Some udp \<rparr>) c)))))
      else (None, c))"

definition apply_cli_args :: "'e cli_lib \<Rightarrow> arg_matches \<Rightarrow> 'e cli_step" where
  "apply_cli_args cl m =
     foldr then_apply
       [apply_value m ''datadir'' Some (\<lambda>_. []) (\<lambda>dir. on_network (\<lambda>n. n\<lparr> network_dir := path_push dir ''network'' \<rparr>)),
        apply_value m ''listen-address'' parse_ip_addr (\<lambda>s. ''Invalid listen address: '' @ debug_str (cl_printable cl) s)
          (\<lambda>a. on_network (\<lambda>n. n\<lparr> listen_address := a, enr_address := Some a \<rparr>)),
        apply_value m ''maxpeers'' (parse_uint USIZE_MAX) (\<lambda>s. ''Invalid number of max peers: '' @ s)
          (\<lambda>k. on_network (\<lambda>n. n\<lparr> max_peers := k \<rparr>)),
        apply_value m ''port'' parse_u16 (\<lambda>s. ''Invalid port: '' @ s)
          (\<lambda>p. on_network (\<lambda>n. n\<lparr> libp2p_port := p, discovery_port := p, enr_tcp_port := Some p, enr_udp_port := Some p \<rparr>)),
        apply_value m ''discovery-port'' parse_u16 (\<lambda>s. ''Invalid discovery port: '' @ s)
          (\<lambda>p. on_network (\<lambda>n. n\<lparr> discovery_port := p, enr_udp_port := Some p \<rparr>)),
        apply_list m ''boot-nodes'' (cl_enr_parse cl) ''Invalid ENR: '' (\<lambda>es. on_network (\<lambda>n. n\<lparr> boot_nodes := es \<rparr>)),
        apply_list m ''libp2p-addresses'' (cl_multiaddr_parse cl) ''Invalid Multiaddr: '' (\<lambda>as. on_network (\<lambda>n. n\<lparr> libp2p_nodes := as \<rparr>)),
        apply_value m ''enr-address'' parse_ip_addr (\<lambda>s. ''Invalid discovery address: '' @ debug_str (cl_printable cl) s)
          (\<lambda>a. on_network (\<lambda>n. n\<lparr> enr_address := Some a \<rparr>)),
        apply_value m ''enr-udp-port'' parse_u16 (\<lambda>s. ''Invalid discovery port: '' @ s)
          (\<lambda>p. on_network (\<lambda>n. n\<lparr> enr_udp_port := Some p \<rparr>)),
        apply_value m ''enr-tcp-port'' parse_u16 (\<lambda>s. ''Invalid ENR TCP port: '' @ s)
          (\<lambda>p. on_network (\<lambda>n. n\<lparr> enr_tcp_port := Some p \<rparr>)),
        (\<lambda>c. (None, if is_present m ''disable_enr_auto_update''
                    then on_network (\<lambda>n. n\<lparr> network_config.discv5_config := (network_config.discv5_config n)\<lparr> enr_update := Some False \<rparr> \<rparr>) c else c)),
        apply_list m ''topics'' Some [] (\<lambda>ts. on_network (\<lambda>n. n\<lparr> cfg_topics := ts \<rparr>)),
        apply_value m ''debug-level'' Some (\<lambda>_. []) (\<lambda>l c. c\<lparr> debug_level := l \<rparr>),
        apply_auto_ports cl m]
       (Pair None)"

text \<open>\<open>Mothra::get_config\<close> unwraps the result: an error is a panic too.\<close>

definition get_config ::
  "'e cli_lib \<Rightarrow> build_info \<Rightarrow> string option \<Rightarrow> string option \<Rightarrow> string option \<Rightarrow> arg_matches \<Rightarrow> 'e mothra_config option" where
  "get_config cl bi name version protocol_version m =
     (case apply_cli_args cl m (mothra_config_new bi name version protocol_version) of
        (None, config) \<Rightarrow> Some config
      | (Some _, _) \<Rightarrow> None)"

section \<open>Reasoning about the statements\<close>

text \<open>What holds after a statement that returned no error.\<close>

definition step_ok :: "('e mothra_config \<Rightarrow> bool) \<Rightarrow> 'e cli_step \<Rightarrow> ('e mothra_config \<Rightarrow> bool) \<Rightarrow> bool" where
  "step_ok P f Q \<longleftrightarrow> (\<forall>c c'. P c \<and> f c = (None, c') \<longrightarrow> Q c')"

lemma step_ok_then: "step_ok P f Q \<Longrightarrow> step_ok Q g R \<Longrightarrow> step_ok P (then_apply f g) R"
  unfolding step_ok_def then_apply_def by (fastforce split: prod.splits option.splits)

lemma step_ok_value: "(\<And>s v c. value_of m name = Some s \<Longrightarrow> parse s = Some v \<Longrightarrow> P c \<Longrightarrow> Q (assign v c)) \<Longrightarrow>
   (\<And>c. value_of m name = None \<Longrightarrow> P c \<Longrightarrow> Q c) \<Longrightarrow> step_ok P (apply_value m name parse message assign) Q"
  unfolding step_ok_def apply_value_def by (fastforce split: option.splits if_splits)

lemma step_ok_list: "(\<And>vs c. P c \<Longrightarrow> P (assign vs c)) \<Longrightarrow> step_ok P (apply_list m name parse message assign) P"
  unfolding step_ok_def apply_list_def by (fastforce split: option.splits sum.splits if_splits)

lemma step_ok_done: "step_ok P (Pair None) P"
  by (simp add: step_ok_def)

text \<open>Whether a statement fails does not depend on the configuration.\<close>

definition utf8_value :: "arg_matches \<Rightarrow> string \<Rightarrow> bool" where
  "utf8_value m name = (case value_of m name of Some s \<Rightarrow> utf8_valid (as_bytes s) | None \<Rightarrow> True)"

lemma then_apply_fails: "fst (then_apply f g c) = None \<longleftrightarrow> fst (f c) = None \<and> fst (g (snd (f c))) = None"
  by (auto simp: then_apply_def split: prod.splits option.splits)

lemma apply_value_fails: "fst (apply_value m name parse message assign c) = None \<longleftrightarrow>
   utf8_value m name \<and> (\<forall>s. value_of m name = Some s \<longrightarrow> parse s \<noteq> None)"
  by (auto simp: apply_value_def utf8_value_def split: option.splits)

lemma parse_pieces_fails: "(\<exists>vs. parse_pieces parse ss = Inr vs) \<longleftrightarrow> (\<forall>s \<in> set ss. parse s \<noteq> None)"
  by (induction ss) (auto split: option.splits sum.splits)

lemma parse_pieces_Some [simp]: "parse_pieces Some ss = Inr ss"
  by (induction ss) simp_all

lemma apply_list_fails:
  "fst (apply_list m name parse message assign c) = None \<longleftrightarrow>
   utf8_value m name \<and> (\<forall>s. value_of m name = Some s \<longrightarrow> (\<forall>piece \<in> set (split_on CHR '','' s). parse piece \<noteq> None))"
proof (cases "value_of m name")
  case (Some s)
  then have "fst (apply_list m name parse message assign c) = None \<longleftrightarrow>
      utf8_valid (as_bytes s) \<and> (\<exists>vs. parse_pieces parse (split_on CHR '','' s) = Inr vs)"
    by (simp add: apply_list_def split: sum.splits)
  then show ?thesis unfolding parse_pieces_fails by (simp add: Some utf8_value_def)
qed (simp add: apply_list_def utf8_value_def)

definition port_found :: "string + (string + u16) \<Rightarrow> bool" where
  "port_found r = (case r of Inr (Inr _) \<Rightarrow> True | _ \<Rightarrow> False)"

lemma apply_auto_ports_fails:
  "fst (apply_auto_ports cl m c) = None \<longleftrightarrow> (is_present m ''auto-ports'' \<longrightarrow> port_found (cl_tcp_bind cl) \<and> port_found (cl_udp_bind cl))"
  by (auto simp: apply_auto_ports_def unused_port_def port_found_def Let_def split: sum.splits)

lemmas fails = then_apply_fails apply_value_fails apply_list_fails apply_auto_ports_fails

lemma on_network_simps [simp]: "mc_network (on_network f c) = f (mc_network c)"
  by (simp add: on_network_def)

section \<open>What clap promises for this program\<close>

lemma cli_app_args:
  "value_arg ''listen-address'' (Some ''127.0.0.1'') [] \<in> set cli_app" "value_arg ''port'' (Some ''9000'') [] \<in> set cli_app"
  "value_arg ''maxpeers'' (Some ''50'') [] \<in> set cli_app"
  by (simp_all add: cli_app_def)

lemma cli_app_names:
  "arg_name ` set cli_app =
     {''datadir'', ''auto-ports'', ''listen-address'', ''port'', ''discovery-port'', ''maxpeers'', ''boot-nodes'',
      ''disable-enr-auto-update'', ''topics'', ''libp2p-addresses'', ''debug-level''}"
  by (simp add: cli_app_def value_arg_def flag_arg_def)

lemma given_values:
  assumes "cli_matches cli_app m"
  obtains l p k where "value_of m ''listen-address'' = Some l" "value_of m ''port'' = Some p" "value_of m ''maxpeers'' = Some k"
  using cli_matches.default_given [OF assms cli_app_args(1)] cli_matches.default_given [OF assms cli_app_args(2)]
    cli_matches.default_given [OF assms cli_app_args(3)] by (auto simp: value_arg_def)

lemma unknown_names:
  assumes "cli_matches cli_app m"
  shows "value_of m ''enr-address'' = None" "value_of m ''enr-udp-port'' = None" "value_of m ''enr-tcp-port'' = None"
    "\<not> is_present m ''disable_enr_auto_update''"
  using cli_matches.undeclared [OF assms] by (simp_all add: cli_app_names)

lemma utf8_values:
  assumes "cli_matches cli_app m"
  shows "(\<forall>a \<in> set cli_app. utf8_value m (arg_name a)) \<longleftrightarrow>
     list_all (utf8_value m) [''datadir'', ''listen-address'', ''maxpeers'', ''port'', ''discovery-port'', ''boot-nodes'', ''libp2p-addresses'',
       ''topics'', ''debug-level'']"
proof -
  have flags: "value_of m ''auto-ports'' = None" "value_of m ''disable-enr-auto-update'' = None"
    using cli_matches.flag_no_value [OF assms, of "flag_arg ''auto-ports'' (Some ''a'')"]
      cli_matches.flag_no_value [OF assms, of "flag_arg ''disable-enr-auto-update'' (Some ''-d'')"]
    by (simp_all add: cli_app_def flag_arg_def)
  have "(\<forall>a \<in> set cli_app. utf8_value m (arg_name a)) \<longleftrightarrow> (\<forall>n \<in> arg_name ` set cli_app. utf8_value m n)" by simp
  then show ?thesis unfolding cli_app_names by (auto simp: utf8_value_def [of m "''auto-ports''"] utf8_value_def [of m "''disable-enr-auto-update''"] flags)
qed

lemma find_key: "distinct (map f xs) \<Longrightarrow> x \<in> set xs \<Longrightarrow> find (\<lambda>y. f y = f x) xs = Some x"
  by (induction xs) auto

lemma cli_app_distinct: "distinct (map arg_name cli_app)"
  by code_simp

lemma cli_app_defaults: "list_all (\<lambda>a. default_value a = None \<or> possible_values a = [] \<or> the (default_value a) \<in> set (possible_values a)) cli_app"
  by code_simp

lemma cli_app_flags: "list_all (\<lambda>a. takes_value a \<or> default_value a = None) cli_app"
  by code_simp

text \<open>A command line as a list of options with their values, for the examples.\<close>

definition ref_matches :: "cli_arg list \<Rightarrow> (string \<times> string) list \<Rightarrow> arg_matches" where
  "ref_matches app given =
     \<lparr> value_of = (\<lambda>n. case find (\<lambda>a. arg_name a = n) app of
          None \<Rightarrow> None
        | Some a \<Rightarrow> if \<not> takes_value a then None
            else (case map_of given n of
                    Some v \<Rightarrow> if possible_values a = [] \<or> v \<in> set (possible_values a) then Some v else default_value a
                  | None \<Rightarrow> default_value a)),
       is_present = (\<lambda>n. n \<in> arg_name ` set app \<and> map_of given n \<noteq> None) \<rparr>"

interpretation ref_cli: cli_matches cli_app "ref_matches cli_app given"
  for given
proof
  show "n \<notin> arg_name ` set cli_app \<Longrightarrow> value_of (ref_matches cli_app given) n = None \<and> \<not> is_present (ref_matches cli_app given) n" for n
    by (auto simp: ref_matches_def find_Some_iff split: option.splits)
next
  fix a v
  assume "a \<in> set cli_app"
  then have a: "find (\<lambda>b. arg_name b = arg_name a) cli_app = Some a" by (rule find_key [OF cli_app_distinct])
  show "\<not> takes_value a \<Longrightarrow> value_of (ref_matches cli_app given) (arg_name a) = None" by (simp add: ref_matches_def a)
  show "default_value a \<noteq> None \<Longrightarrow> value_of (ref_matches cli_app given) (arg_name a) \<noteq> None"
    using \<open>a \<in> set cli_app\<close> cli_app_flags by (auto simp: ref_matches_def a list_all_iff split: option.splits)
  show "possible_values a \<noteq> [] \<Longrightarrow> value_of (ref_matches cli_app given) (arg_name a) = Some v \<Longrightarrow> v \<in> set (possible_values a)"
    using \<open>a \<in> set cli_app\<close> cli_app_defaults by (fastforce simp: ref_matches_def a list_all_iff split: option.splits if_splits)
qed

lemma cli_app_utf8: "list_all (\<lambda>a. case default_value a of Some s \<Rightarrow> utf8_valid (as_bytes s) | None \<Rightarrow> True) cli_app"
  by code_simp

lemma ref_matches_utf8:
  assumes "list_all (\<lambda>(n, s). utf8_valid (as_bytes s)) given" "value_of (ref_matches cli_app given) n = Some s"
  shows "utf8_valid (as_bytes s)"
proof -
  have "utf8_valid (as_bytes s)" if "a \<in> set cli_app" "default_value a = Some s" for a s
    using that cli_app_utf8 by (fastforce simp: list_all_iff)
  moreover have "utf8_valid (as_bytes s)" if "map_of given n = Some s" for s
    using assms(1) map_of_SomeD [OF that] by (fastforce simp: list_all_iff)
  ultimately show ?thesis
    using assms(2) by (auto simp: ref_matches_def find_Some_iff in_set_conv_nth split: option.splits if_splits)
qed

section \<open>What is announced\<close>

definition announced :: "'e network_config \<Rightarrow> bool" where
  "announced n \<longleftrightarrow> enr_tcp_port n = Some (libp2p_port n) \<and> enr_udp_port n = Some (discovery_port n)"

definition address_announced :: "'e network_config \<Rightarrow> bool" where
  "address_announced n \<longleftrightarrow> enr_address n = Some (listen_address n)"

abbreviation update_default :: "'e mothra_config \<Rightarrow> bool" where
  "update_default c \<equiv> enr_update (network_config.discv5_config (mc_network c)) = None"

abbreviation addressed :: "'e mothra_config \<Rightarrow> bool" where
  "addressed c \<equiv> update_default c \<and> address_announced (mc_network c)"

abbreviation ported :: "'e mothra_config \<Rightarrow> bool" where
  "ported c \<equiv> addressed c \<and> announced (mc_network c)"

lemma auto_ports_announced:
  "step_ok ported (apply_auto_ports cl m)
     (\<lambda>c. update_default c \<and> announced (mc_network c) \<and>
          enr_address (mc_network c) =
            (if is_present m ''auto-ports'' \<and> listen_address (mc_network c) = V4 0 then None else Some (listen_address (mc_network c))))"
  unfolding step_ok_def
  by (auto simp: apply_auto_ports_def announced_def address_announced_def Let_def split: sum.splits if_splits)

lemma apply_cli_args_announced:
  assumes "cli_matches cli_app m"
  shows "step_ok update_default (apply_cli_args cl m)
     (\<lambda>c. update_default c \<and> announced (mc_network c) \<and>
          enr_address (mc_network c) =
            (if is_present m ''auto-ports'' \<and> listen_address (mc_network c) = V4 0 then None else Some (listen_address (mc_network c))))"
proof -
  obtain l p k where given: "value_of m ''listen-address'' = Some l" "value_of m ''port'' = Some p" "value_of m ''maxpeers'' = Some k"
    using given_values [OF assms] .
  note facts = given unknown_names [OF assms] announced_def address_announced_def
  show ?thesis
    unfolding apply_cli_args_def foldr.simps o_apply id_apply
    apply (rule step_ok_then [of _ _ update_default], rule step_ok_value, simp, simp)
    apply (rule step_ok_then [of _ _ addressed], rule step_ok_value, simp add: facts, simp add: facts)
    apply (rule step_ok_then [of _ _ addressed], rule step_ok_value, simp add: facts, simp add: facts)
    apply (rule step_ok_then [of _ _ ported], rule step_ok_value, simp add: facts, simp add: facts)
    apply (rule step_ok_then [of _ _ ported], rule step_ok_value, simp add: facts, simp add: facts)
    apply (rule step_ok_then [of _ _ ported], rule step_ok_list, simp add: facts)
    apply (rule step_ok_then [of _ _ ported], rule step_ok_list, simp add: facts)
    apply (rule step_ok_then [of _ _ ported], rule step_ok_value, simp add: facts, simp add: facts)
    apply (rule step_ok_then [of _ _ ported], rule step_ok_value, simp add: facts, simp add: facts)
    apply (rule step_ok_then [of _ _ ported], rule step_ok_value, simp add: facts, simp add: facts)
    apply (rule step_ok_then [of _ _ ported], simp add: step_ok_def facts)
    apply (rule step_ok_then [of _ _ ported], rule step_ok_list, simp add: facts)
    apply (rule step_ok_then [of _ _ ported], rule step_ok_value, simp add: facts, simp add: facts)
    by (rule step_ok_then [OF auto_ports_announced step_ok_done])
qed

lemma config_new_update: "update_default (mothra_config_new bi name version protocol_version)"
  by (simp add: mothra_config_new_def mothra_config_default_def config_default_def discv5_config_default_def Let_def split: option.splits)

definition ref_build :: build_info where
  "ref_build = \<lparr> bi_version = ''0.1.0'', bi_network_version = ''0.1.0'', bi_arch = ''x86_64'', bi_os = ''linux'', bi_home = Some ''/root'' \<rparr>"

definition ref_cli_lib :: "string cli_lib" where
  "ref_cli_lib = \<lparr> cl_enr_parse = (\<lambda>s. if take 4 s = ''enr:'' then Some s else None), cl_multiaddr_parse = (\<lambda>_. None),
     cl_printable = (\<lambda>_. True), cl_tcp_bind = Inr (Inr 4001), cl_udp_bind = Inr (Inr 4002) \<rparr>"

section \<open>Properties\<close>

text \<open>C14. The node announces where it listens: a configuration made from the command line always announces
  the TCP port of libp2p, the UDP port of discovery and the listening address, and only automatic
  ports together with the address 0.0.0.0 leave the announced address open. So the options
  \<open>enr-address\<close>, \<open>enr-udp-port\<close> and \<open>enr-tcp-port\<close>, which the program reads but does not declare,
  never take effect, and neither does \<open>disable-enr-auto-update\<close>, which is read under another name.\<close>

theorem announces_where_it_listens:
  assumes "cli_matches cli_app m" and "get_config cl bi name version protocol_version m = Some c"
  shows "enr_tcp_port (mc_network c) = Some (libp2p_port (mc_network c)) \<and>
         enr_udp_port (mc_network c) = Some (discovery_port (mc_network c)) \<and>
         enr_address (mc_network c) =
           (if is_present m ''auto-ports'' \<and> listen_address (mc_network c) = V4 0 then None else Some (listen_address (mc_network c))) \<and>
         enr_update (network_config.discv5_config (mc_network c)) = None"
proof -
  let ?c0 = "mothra_config_new bi name version protocol_version"
  from assms(2) have "apply_cli_args cl m ?c0 = (None, c)" by (simp add: get_config_def split: prod.splits option.splits)
  with apply_cli_args_announced [OF assms(1), of cl, unfolded step_ok_def, rule_format, OF conjI, OF config_new_update]
  show ?thesis unfolding announced_def by blast
qed

theorem announces_where_it_listens_witness:
  "\<exists>c. get_config ref_cli_lib ref_build None None None (ref_matches cli_app [(''discovery-port'', ''9001''), (''disable-enr-auto-update'', [])]) = Some c \<and>
     enr_udp_port (mc_network c) = Some 9001 \<and> enr_update (network_config.discv5_config (mc_network c)) = None"
proof -
  let ?m = "ref_matches cli_app [(''discovery-port'', ''9001''), (''disable-enr-auto-update'', [])]"
  have "case get_config ref_cli_lib ref_build None None None ?m of Some c \<Rightarrow> discovery_port (mc_network c) = 9001 | None \<Rightarrow> False" by code_simp
  then obtain c where "get_config ref_cli_lib ref_build None None None ?m = Some c" "discovery_port (mc_network c) = 9001"
    by (auto split: option.splits)
  with announces_where_it_listens [OF ref_cli.cli_matches_axioms this(1)] show ?thesis by auto
qed

text \<open>C15. Reading the command line panics exactly when a value cannot be read: the listening address, the
  number of peers, one of the ports, a boot node or an address in the lists that are separated by
  commas; or when the value of any option is not UTF-8; or when automatic ports are asked for and one of
  the two sockets cannot be opened.\<close>

theorem get_config_panics_iff:
  assumes "cli_matches cli_app m"
  shows "get_config cl bi name version protocol_version m = None \<longleftrightarrow>
     parse_ip_addr (the (value_of m ''listen-address'')) = None \<or> parse_uint USIZE_MAX (the (value_of m ''maxpeers'')) = None \<or>
     parse_u16 (the (value_of m ''port'')) = None \<or> (\<exists>s. value_of m ''discovery-port'' = Some s \<and> parse_u16 s = None) \<or>
     (\<exists>s piece. value_of m ''boot-nodes'' = Some s \<and> piece \<in> set (split_on CHR '','' s) \<and> cl_enr_parse cl piece = None) \<or>
     (\<exists>s piece. value_of m ''libp2p-addresses'' = Some s \<and> piece \<in> set (split_on CHR '','' s) \<and> cl_multiaddr_parse cl piece = None) \<or>
     is_present m ''auto-ports'' \<and> \<not> (port_found (cl_tcp_bind cl) \<and> port_found (cl_udp_bind cl)) \<or>
     (\<exists>a \<in> set cli_app. \<exists>s. value_of m (arg_name a) = Some s \<and> \<not> utf8_valid (as_bytes s))"
proof -
  obtain l p k where given: "value_of m ''listen-address'' = Some l" "value_of m ''port'' = Some p" "value_of m ''maxpeers'' = Some k"
    using given_values [OF assms] .
  have "get_config cl bi name version protocol_version m = None \<longleftrightarrow>
      fst (apply_cli_args cl m (mothra_config_new bi name version protocol_version)) \<noteq> None"
    by (auto simp: get_config_def split: prod.splits option.splits)
  also have "\<dots> \<longleftrightarrow> \<not> (parse_ip_addr l \<noteq> None \<and> parse_uint USIZE_MAX k \<noteq> None \<and> parse_u16 p \<noteq> None \<and>
      (\<forall>s. value_of m ''discovery-port'' = Some s \<longrightarrow> parse_u16 s \<noteq> None) \<and>
      (\<forall>s. value_of m ''boot-nodes'' = Some s \<longrightarrow> (\<forall>piece \<in> set (split_on CHR '','' s). cl_enr_parse cl piece \<noteq> None)) \<and>
      (\<forall>s. value_of m ''libp2p-addresses'' = Some s \<longrightarrow> (\<forall>piece \<in> set (split_on CHR '','' s). cl_multiaddr_parse cl piece \<noteq> None)) \<and>
      (is_present m ''auto-ports'' \<longrightarrow> port_found (cl_tcp_bind cl) \<and> port_found (cl_udp_bind cl)) \<and>
      (\<forall>a \<in> set cli_app. utf8_value m (arg_name a)))"
    unfolding apply_cli_args_def foldr.simps o_apply id_apply fails utf8_values [OF assms]
    by (auto simp: given unknown_names [OF assms] utf8_value_def)
  finally have iff: "get_config cl bi name version protocol_version m = None \<longleftrightarrow> \<dots>" .
  show ?thesis unfolding iff given option.sel utf8_value_def by (auto split: option.splits)
qed

theorem get_config_panics_iff_witness:
  "get_config ref_cli_lib ref_build None None None (ref_matches cli_app [(''port'', ''65536'')]) = None"
proof -
  have "parse_u16 (the (value_of (ref_matches cli_app [(''port'', ''65536'')]) ''port'')) = None" by code_simp
  then show ?thesis unfolding get_config_panics_iff [OF ref_cli.cli_matches_axioms] by blast
qed

text \<open>Options are read back as they were written: an IPv4 address in dotted notation, ports and the
  number of peers in decimal notation, within the range of their types, end up in the configuration.\<close>

theorem options_read_back:
  assumes "cli_matches cli_app m" and "\<not> is_present m ''auto-ports''"
    and "value_of m ''boot-nodes'' = None" and "value_of m ''libp2p-addresses'' = None"
    and "value_of m ''listen-address'' = Some (show_ipv4_addr a)" and "value_of m ''port'' = Some (show_nat (unat p))"
    and "value_of m ''discovery-port'' = Some (show_nat (unat q))" and "value_of m ''maxpeers'' = Some (show_nat k)" and "k \<le> USIZE_MAX"
    and "\<And>n s. value_of m n = Some s \<Longrightarrow> utf8_valid (as_bytes s)"
  shows "\<exists>c. get_config cl bi name version protocol_version m = Some c \<and> listen_address (mc_network c) = V4 a \<and>
           libp2p_port (mc_network c) = p \<and> discovery_port (mc_network c) = q \<and> max_peers (mc_network c) = k"
proof -
  have u16: "parse_u16 (show_nat (unat w)) = Some w" for w :: u16
    using parse_uint_show_nat [of "unat w" U16_MAX] unsigned_less [of w, where ?'a = nat]
    by (simp add: parse_u16_def U16_MAX_def)
  have utf8: "utf8_valid (as_bytes (show_ipv4_addr a))" "utf8_valid (as_bytes (show_nat (unat p)))"
    "utf8_valid (as_bytes (show_nat (unat q)))" "utf8_valid (as_bytes (show_nat k))"
    using assms(5-8) assms(10) by auto
  show ?thesis
    unfolding get_config_def apply_cli_args_def foldr.simps o_apply id_apply then_apply_def
    by (simp add: apply_value_def assms u16 parse_show_ipv4_addr parse_uint_show_nat apply_list_def apply_auto_ports_def unknown_names utf8 assms(10)
        split: option.splits sum.splits)
qed

theorem options_read_back_witness:
  "\<exists>c. get_config ref_cli_lib ref_build None None None (ref_matches cli_app [(''listen-address'', ''10.0.0.1''), (''discovery-port'', ''9001'')]) = Some c \<and>
     listen_address (mc_network c) = V4 0x0A000001 \<and> libp2p_port (mc_network c) = 9000 \<and> discovery_port (mc_network c) = 9001 \<and> max_peers (mc_network c) = 50"
proof -
  let ?m = "ref_matches cli_app [(''listen-address'', ''10.0.0.1''), (''discovery-port'', ''9001'')]"
  have "value_of ?m ''listen-address'' = Some (show_ipv4_addr 0x0A000001)" by code_simp
  moreover have "value_of ?m ''port'' = Some (show_nat (unat (9000 :: u16)))" "value_of ?m ''discovery-port'' = Some (show_nat (unat (9001 :: u16)))"
    "value_of ?m ''maxpeers'' = Some (show_nat 50)" by code_simp+
  moreover have "\<not> is_present ?m ''auto-ports''" "value_of ?m ''boot-nodes'' = None" "value_of ?m ''libp2p-addresses'' = None" by code_simp+
  moreover have "utf8_valid (as_bytes s)" if "value_of ?m n = Some s" for n s
    by (rule ref_matches_utf8 [OF _ that]) code_simp
  ultimately show ?thesis
    by (intro options_read_back [OF ref_cli.cli_matches_axioms]) (simp_all add: USIZE_MAX_def)
qed

end
