(* ===== verification/Mothra_Core.thy ===== *)
theory Mothra_Core
  imports Network_Service Cli_Config
begin

text \<open>
  \<open>core/src/mothra.rs\<close>: the task between the application and the network service. It takes the messages
  of the application from a channel, waits for events of the service, and calls the application back.

  The calls on the application (\<open>Subscriber\<close>) are outputs. The texts of peer ids and the base58 and
  multihash parsers are third-party code (\<open>core_lib\<close>). Requests of peers that wait for an answer of the
  application are kept in an array of 256 slots with a counter of type \<open>u8\<close>.
\<close>

section \<open>Messages and calls\<close>

definition BAN_PEER_TIMEOUT :: nat where "BAN_PEER_TIMEOUT = 30"

datatype network_message =
    Subscribe "gossip_topic list"
  | SendRequest peer_id request request_id
  | SendResponse peer_id response u8
  | Publish gossip_topic "u8 list"
  | Propagate peer_id message_id
  | Disconnect peer_id

datatype client_call =
    CallInit enr_fork_id
  | CallDiscoveredPeer string
  | CallReceiveGossip string u64 string string string "u8 list"
  | CallReceiveRpc string u8 string "u8 list"

record core_lib =
  peer_to_string :: "peer_id \<Rightarrow> string"
  bs58_decode :: "string \<Rightarrow> (u8 list) option"
  peer_from_bytes :: "u8 list \<Rightarrow> peer_id option"

record ('sw, 'g, 'i, 'q, 'd, 'l, 'e) mothra =
  libp2p :: "('sw, 'g, 'i, 'q, 'd, 'l, 'e) service"
  network_recv :: "network_message list"
  mo_propagation_percentage :: "u8 option"
  requests :: "peer_request_id option list"
  num_requests :: u8
  running :: bool

section \<open>The start\<close>

fun subscribe_kinds ::
  "('g, 'gh, 'gm, 'i, 'ih, 'im, 'q, 'd, 'l, 'b, 'e, 'k) bv_lib \<Rightarrow> string list \<Rightarrow>
   ('sw, 'g, 'i, 'q, 'd, 'l, 'e) service \<Rightarrow> ('sw, 'g, 'i, 'q, 'd, 'l, 'e) service" where
  "subscribe_kinds B [] s = s"
| "subscribe_kinds B (t # ts) s = subscribe_kinds B ts (s\<lparr> sv_behaviour := snd (subscribe_kind B t (sv_behaviour s)) \<rparr>)"

definition mothra_new ::
  "('g, 'gh, 'gm, 'i, 'ih, 'im, 'q, 'd, 'l, 'b, 'e, 'k) bv_lib \<Rightarrow> 'sw swarm_lib \<Rightarrow> key_store_lib \<Rightarrow> u8 list \<Rightarrow> string + unit \<Rightarrow>
   'e mothra_config \<Rightarrow> enr_fork_id \<Rightarrow> u8 list \<Rightarrow> u8 list \<Rightarrow> key_file \<Rightarrow> disk_file \<Rightarrow>
   (client_call list \<times> (string + ('sw, 'g, 'i, 'q, 'd, 'l, 'e) mothra) \<times> key_file \<times> disk_file) option" where
  "mothra_new B S kst fresh transport config fork_id meta_data ping_data kf disk =
     map_option (\<lambda>(r, kf', disk').
       ([CallInit fork_id],
        (case r of
           Inl err \<Rightarrow> Inl err
         | Inr s \<Rightarrow> Inr \<lparr> libp2p = subscribe_kinds B (cfg_topics (mc_network config)) s, network_recv = [],
             mo_propagation_percentage = propagation_percentage (mc_network config),
             requests = replicate 256 None, num_requests = 0, running = True \<rparr>),
        kf', disk'))
       (service_new B S kst fresh transport (mc_network config) fork_id meta_data ping_data kf disk)"

section \<open>Messages of the application\<close>

definition on_libp2p ::
  "(('sw, 'g, 'i, 'q, 'd, 'l, 'e) service \<Rightarrow> ('sw, 'g, 'i, 'q, 'd, 'l, 'e) service) \<Rightarrow>
   ('sw, 'g, 'i, 'q, 'd, 'l, 'e) mothra \<Rightarrow> ('sw, 'g, 'i, 'q, 'd, 'l, 'e) mothra" where
  "on_libp2p f m = m\<lparr> libp2p := f (libp2p m) \<rparr>"

definition on_behaviour ::
  "(('g, 'i, 'q, 'd, 'l, 'e) behaviour \<Rightarrow> ('g, 'i, 'q, 'd, 'l, 'e) behaviour) \<Rightarrow>
   ('sw, 'g, 'i, 'q, 'd, 'l, 'e) service \<Rightarrow> ('sw, 'g, 'i, 'q, 'd, 'l, 'e) service" where
  "on_behaviour f s = s\<lparr> sv_behaviour := f (sv_behaviour s) \<rparr>"

text \<open>The arithmetic of \<open>AtomicU8\<close> wraps. A \<open>u8\<close> is always an index of the array. The timers of a ban are
  the only thing here that could panic.\<close>

fun on_message ::
  "('g, 'gh, 'gm, 'i, 'ih, 'im, 'q, 'd, 'l, 'b, 'e, 'k) bv_lib \<Rightarrow> env \<Rightarrow> network_message \<Rightarrow>
   ('sw, 'g, 'i, 'q, 'd, 'l, 'e) mothra \<Rightarrow> ('sw, 'g, 'i, 'q, 'd, 'l, 'e) mothra option" where
  "on_message B e (SendRequest p req rid) m = Some (on_libp2p (service_send_request p rid req) m)"
| "on_message B e (SendResponse p res index) m =
     (let m' = (case requests m ! unat index of
                  Some rid \<Rightarrow> on_libp2p (service_send_response p rid res) (m\<lparr> num_requests := num_requests m - 1 \<rparr>)
                | None \<Rightarrow> m)
      in Some (m'\<lparr> requests := (requests m')[unat index := None] \<rparr>))"
| "on_message B e (Propagate source message) m = Some (on_libp2p (on_behaviour (behaviour_propagate_message B source message)) m)"
| "on_message B e (Publish t message) m = Some (on_libp2p (on_behaviour (behaviour_publish B t message)) m)"
| "on_message B e (Disconnect p) m =
     map_option (\<lambda>s. m\<lparr> libp2p := s \<rparr>) (disconnect_and_ban_peer B e p (from_secs BAN_PEER_TIMEOUT) (libp2p m))"
| "on_message B e (Subscribe subscriptions) m = Some (on_libp2p (subscribe_kinds B (map gossip_topic_into_string subscriptions)) m)"

section \<open>Events of the service\<close>

text \<open>\<open>topics[0]\<close> panics when there is none.\<close>

fun on_behaviour_event ::
  "core_lib \<Rightarrow> behaviour_event \<Rightarrow> ('sw, 'g, 'i, 'q, 'd, 'l, 'e) mothra \<Rightarrow>
   (client_call list \<times> ('sw, 'g, 'i, 'q, 'd, 'l, 'e) mothra) option" where
  "on_behaviour_event L (RequestReceived p rid req) m =
     (let index = num_requests m
      in Some ([CallReceiveRpc ''Status'' 1 (peer_to_string L p) [index]],
               m\<lparr> requests := (requests m)[unat index := Some rid], num_requests := num_requests m + 1 \<rparr>))"
| "on_behaviour_event L (ResponseReceived p rid res) m = Some ([], m)"
| "on_behaviour_event L (RPCFailed rid p err) m = Some ([], m)"
| "on_behaviour_event L (StatusPeer p) m = Some ([CallReceiveRpc ''Status'' 0 (peer_to_string L p) []], m)"
| "on_behaviour_event L (PubsubMessage i seq agent source topics message) m =
     (case topics of
        [] \<Rightarrow> None
      | t # _ \<Rightarrow> Some ([CallReceiveGossip i seq agent (peer_to_string L source) t message], m))"
| "on_behaviour_event L (PeerSubscribed p t) m = Some ([], m)"

fun on_libp2p_event ::
  "core_lib \<Rightarrow> libp2p_event \<Rightarrow> ('sw, 'g, 'i, 'q, 'd, 'l, 'e) mothra \<Rightarrow>
   (client_call list \<times> ('sw, 'g, 'i, 'q, 'd, 'l, 'e) mothra) option" where
  "on_libp2p_event L (LBehaviour ev) m = on_behaviour_event L ev m"
| "on_libp2p_event L (LNewListenAddr addr) m =
     Some ([], on_libp2p (on_behaviour (with_globals (\<lambda>g. g\<lparr> g_listen_multiaddrs := g_listen_multiaddrs g @ [addr] \<rparr>))) m)"
| "on_libp2p_event L (LPeerConnected p endpoint) m = Some ([CallReceiveRpc ''Status'' 0 (peer_to_string L p) []], m)"
| "on_libp2p_event L (LPeerDisconnected p endpoint) m = Some ([], m)"

section \<open>The task\<close>

text \<open>A round of the loop in \<open>spawn_mothra\<close>: the task is told to exit, takes a message from the channel, or
  lets the service work, which may give an event. \<open>CoreSend\<close> is the application's end of the channel, and
  it is used at any time.\<close>

datatype ('gm, 'im, 'e) core_call =
    CoreExit
  | CoreReceive
  | CoreService "('gm, 'im, 'e) service_call"
  | CoreSend network_message

fun mothra_step ::
  "core_lib \<Rightarrow> ('g, 'gh, 'gm, 'i, 'ih, 'im, 'q, 'd, 'l, 'b, 'e, 'k) bv_lib \<Rightarrow> 'sw swarm_lib \<Rightarrow> env \<times> ('gm, 'im, 'e) core_call \<Rightarrow>
   ('sw, 'g, 'i, 'q, 'd, 'l, 'e) mothra \<Rightarrow> (client_call list \<times> ('sw, 'g, 'i, 'q, 'd, 'l, 'e) mothra) option" where
  "mothra_step L B S (e, CoreSend msg) m = Some ([], m\<lparr> network_recv := network_recv m @ [msg] \<rparr>)"
| "mothra_step L B S (e, CoreExit) m = Some ([], m\<lparr> running := False \<rparr>)"
| "mothra_step L B S (e, CoreReceive) m =
     (case network_recv m of
        msg # msgs \<Rightarrow>
          if running m then map_option (\<lambda>m'. ([], m')) (on_message B e msg (m\<lparr> network_recv := msgs \<rparr>)) else Some ([], m)
      | [] \<Rightarrow> Some ([], m))"
| "mothra_step L B S (e, CoreService call) m =
     (if running m
      then (case service_step B S (e, call) (libp2p m) of
              None \<Rightarrow> None
            | Some (None, s) \<Rightarrow> Some ([], m\<lparr> libp2p := s \<rparr>)
            | Some (Some ev, s) \<Rightarrow> on_libp2p_event L ev (m\<lparr> libp2p := s \<rparr>))
      else Some ([], m))"

section \<open>The helper functions\<close>

text \<open>A channel is \<open>None\<close> once its receiver is gone; sending is then only logged. The parsers' results are
  unwrapped.\<close>

type_synonym channel = "network_message list option"

definition channel_send :: "network_message \<Rightarrow> channel \<Rightarrow> channel" where
  "channel_send msg ch = map_option (\<lambda>msgs. msgs @ [msg]) ch"

definition core_gossip :: "string \<Rightarrow> u8 list \<Rightarrow> channel \<Rightarrow> channel" where
  "core_gossip t data ch = channel_send (Publish (gossip_topic_new t) data) ch"

definition parse_peer :: "core_lib \<Rightarrow> string \<Rightarrow> peer_id option" where
  "parse_peer L peer = (case bs58_decode L peer of None \<Rightarrow> None | Some bytes \<Rightarrow> peer_from_bytes L bytes)"

definition core_rpc_request :: "core_lib \<Rightarrow> string \<Rightarrow> string \<Rightarrow> u8 list \<Rightarrow> channel \<Rightarrow> channel option" where
  "core_rpc_request L meth peer data ch =
     (case parse_peer L peer of
        None \<Rightarrow> None
      | Some p \<Rightarrow> Some (channel_send (SendRequest p (RqStatus data) Behaviour) ch))"

definition core_rpc_response :: "core_lib \<Rightarrow> string \<Rightarrow> string \<Rightarrow> u8 list \<Rightarrow> channel \<Rightarrow> channel option" where
  "core_rpc_response L meth peer data ch =
     (case parse_peer L peer of
        None \<Rightarrow> None
      | Some p \<Rightarrow> Some (channel_send (SendResponse p (RsStatus data) 0) ch))"

section \<open>Runs of the task\<close>

definition mothra_inv ::
  "peer_id set \<Rightarrow> ('q \<Rightarrow> dq_key \<Rightarrow> (peer_id \<times> instant) option) \<Rightarrow> ('sw, 'g, 'i, 'q, 'd, 'l, 'e) mothra \<Rightarrow> bool" where
  "mothra_inv X items m \<longleftrightarrow> sv_inv X items (libp2p m) \<and> length (requests m) = 256"

fun core_call_ok :: "('q, 'd, 'l, 'b, 'e, 'k) pm_lib \<Rightarrow> env \<times> ('gm, 'im, 'e) core_call \<Rightarrow> bool" where
  "core_call_ok P (e, CoreService call) = service_call_ok P (e, call)"
| "core_call_ok P (e, _) = True"

fun core_dialed_peers :: "env \<times> ('gm, 'im, 'e) core_call \<Rightarrow> peer_id set" where
  "core_dialed_peers (e, CoreService call) = dialed_peers (e, call)"
| "core_dialed_peers _ = {}"

text \<open>The one event that makes the task panic.\<close>

definition topicless_message ::
  "('g, 'gh, 'gm, 'i, 'ih, 'im, 'q, 'd, 'l, 'b, 'e, 'k) bv_lib \<Rightarrow> 'sw swarm_lib \<Rightarrow> env \<times> ('gm, 'im, 'e) core_call \<Rightarrow>
   ('sw, 'g, 'i, 'q, 'd, 'l, 'e) mothra \<Rightarrow> bool" where
  "topicless_message B S c m \<longleftrightarrow>
     (\<exists>e call i seq agent p data s. c = (e, CoreService call) \<and>
        service_step B S (e, call) (libp2p m) = Some (Some (LBehaviour (PubsubMessage i seq agent p [] data)), s))"

lemma on_libp2p_fields [simp]:
  "libp2p (on_libp2p f m) = f (libp2p m)" "requests (on_libp2p f m) = requests m" "num_requests (on_libp2p f m) = num_requests m"
  "running (on_libp2p f m) = running m" "network_recv (on_libp2p f m) = network_recv m"
  "mo_propagation_percentage (on_libp2p f m) = mo_propagation_percentage m"
  by (simp_all add: on_libp2p_def)

context behaviour_env
begin

lemma subscribe_kind_inv: "bv_inv X items b \<Longrightarrow> bv_inv X items (snd (subscribe_kind B t b))"
  using bv_step_ok [of X b "(e, BvSubscribe t)"] by auto

lemma subscribe_kinds_inv: "sv_inv X items s \<Longrightarrow> sv_inv X items (subscribe_kinds B ts s)"
  by (induction ts arbitrary: s) (simp_all add: sv_inv_def subscribe_kind_inv)

lemma on_message_inv:
  assumes "mothra_inv X items m"
  shows "\<exists>m'. on_message B e msg m = Some m' \<and> mothra_inv X items m'"
proof (cases msg)
  case (Subscribe ts)
  with assms show ?thesis by (simp add: mothra_inv_def subscribe_kinds_inv)
next
  case (Disconnect p)
  have "from_secs BAN_PEER_TIMEOUT \<le> dq_max (lib_dq (bl_pm B))" using tq.max_minutes by (simp add: BAN_PEER_TIMEOUT_def)
  then show ?thesis
    by (rule disconnect_and_ban_ok [of "from_secs BAN_PEER_TIMEOUT" e p "libp2p m"])
      (use assms in \<open>simp add: Disconnect mothra_inv_def sv_inv_def\<close>)
qed (use assms in \<open>auto simp: mothra_inv_def sv_inv_def on_behaviour_def behaviour_propagate_message_def behaviour_publish_def Let_def bv_inv_def
      service_send_request_def service_send_response_def bv_rpc_ops split: option.splits\<close>)

lemma on_libp2p_event_inv:
  assumes "mothra_inv X items m" and "\<not> (\<exists>i seq agent p data. ev = LBehaviour (PubsubMessage i seq agent p [] data))"
  shows "\<exists>out m'. on_libp2p_event L ev m = Some (out, m') \<and> mothra_inv X items m'"
proof (cases ev)
  case (LBehaviour bev)
  then show ?thesis
    using assms by (cases bev) (auto simp: mothra_inv_def Let_def split: list.splits)
qed (use assms in \<open>auto simp: mothra_inv_def sv_inv_def bv_inv_def pm_inv_def on_behaviour_def with_globals_def\<close>)

lemma mothra_step_ok:
  assumes inv: "mothra_inv X items m" and ok: "core_call_ok (bl_pm B) c" and dialed: "core_dialed_peers c \<inter> X = {}"
    and topics: "\<not> topicless_message B S c m"
  shows "\<exists>out m'. mothra_step L B S c m = Some (out, m') \<and> mothra_inv X items m'"
proof -
  obtain e call where c: "c = (e, call)" by (cases c)
  show ?thesis
  proof (cases call)
    case (CoreService sc)
    have "sv_inv X items (libp2p m)" using inv by (simp add: mothra_inv_def)
    from service_step_ok [OF this, of "(e, sc)" S] ok dialed obtain out s where
      s: "service_step B S (e, sc) (libp2p m) = Some (out, s)" "sv_inv X items s" by (auto simp: c CoreService)
    then have inv': "mothra_inv X items (m\<lparr> libp2p := s \<rparr>)" using inv by (simp add: mothra_inv_def)
    show ?thesis
    proof (cases out)
      case (Some ev)
      have "\<not> (\<exists>i seq agent p data. ev = LBehaviour (PubsubMessage i seq agent p [] data))"
        using topics s(1) Some by (auto simp: topicless_message_def c CoreService)
      from on_libp2p_event_inv [OF inv' this] s(1) Some inv show ?thesis by (auto simp: c CoreService)
    qed (use s inv inv' in \<open>simp add: c CoreService\<close>)
  next
    case CoreReceive
    have "mothra_inv X items (m\<lparr> network_recv := msgs \<rparr>)" for msgs using inv by (simp add: mothra_inv_def)
    from on_message_inv [OF this, of e] inv show ?thesis by (cases "network_recv m") (fastforce simp: c CoreReceive)+
  qed (use inv in \<open>auto simp: c mothra_inv_def\<close>)
qed

lemma mothra_run:
  assumes "mothra_inv X items m" "list_all (\<lambda>c. core_call_ok (bl_pm B) c \<and> core_dialed_peers c \<inter> X = {}) cs"
  shows "(\<exists>outs m'. run_calls (mothra_step L B S) cs m = Some (outs, m') \<and> mothra_inv X items m') \<or>
         (\<exists>cs1 c cs2 outs m1. cs = cs1 @ c # cs2 \<and> run_calls (mothra_step L B S) cs1 m = Some (outs, m1) \<and> topicless_message B S c m1)"
  using assms
proof (induction cs arbitrary: m)
  case (Cons c cs)
  show ?case
  proof (cases "topicless_message B S c m")
    case True
    then have "c # cs = [] @ c # cs" "run_calls (mothra_step L B S) [] m = Some ([], m)" by simp_all
    with True show ?thesis by blast
  next
    case False
    from mothra_step_ok [OF Cons.prems(1) _ _ False, of L] Cons.prems(2) obtain out m1 where
      m1: "mothra_step L B S c m = Some (out, m1)" "mothra_inv X items m1" by auto
    have "list_all (\<lambda>c. core_call_ok (bl_pm B) c \<and> core_dialed_peers c \<inter> X = {}) cs" using Cons.prems(2) by simp
    from Cons.IH [OF m1(2) this] show ?thesis
    proof (elim disjE exE conjE, goal_cases)
      case (1 outs m')
      with m1(1) show ?case by auto
    next
      case (2 cs1 c' cs2 outs m2)
      with m1(1) have "c # cs = (c # cs1) @ c' # cs2" "run_calls (mothra_step L B S) (c # cs1) m = Some (out # outs, m2)" by simp_all
      with 2(3) show ?case by blast
    qed
  qed
qed simp

lemma mothra_new_inv:
  assumes "mothra_new B S kst fresh transport config fork_id meta_data ping_data kf disk = Some (calls, Inr m, kf', disk')"
  shows "mothra_inv X items m"
proof -
  from assms obtain r where r: "service_new B S kst fresh transport (mc_network config) fork_id meta_data ping_data kf disk = Some (r, kf', disk')"
    and m: "(case r of Inl err \<Rightarrow> Inl err | Inr s \<Rightarrow> Inr \<lparr> libp2p = subscribe_kinds B (cfg_topics (mc_network config)) s, network_recv = [],
             mo_propagation_percentage = propagation_percentage (mc_network config),
             requests = replicate 256 None, num_requests = 0, running = True \<rparr>) = Inr m"
    by (auto simp: mothra_new_def)
  from m obtain s where s: "r = Inr s" by (cases r) simp_all
  from service_new_inv [OF r [unfolded s], of X] m show ?thesis by (auto simp: s mothra_inv_def subscribe_kinds_inv)
qed

end

section \<open>Slots\<close>

text \<open>The requests that wait for an answer, oldest first, when the slots in use are a prefix of the array.\<close>

definition slots :: "peer_request_id list \<Rightarrow> ('sw, 'g, 'i, 'q, 'd, 'l, 'e) mothra \<Rightarrow> bool" where
  "slots rids m \<longleftrightarrow> length rids \<le> 256 \<and> num_requests m = word_of_nat (length rids) \<and>
     requests m = map Some rids @ replicate (256 - length rids) None"

datatype slot_op = SlotReceive peer_id peer_request_id request | SlotAnswer peer_id response u8

fun slot_step ::
  "core_lib \<Rightarrow> ('g, 'gh, 'gm, 'i, 'ih, 'im, 'q, 'd, 'l, 'b, 'e, 'k) bv_lib \<Rightarrow> env \<Rightarrow> slot_op \<Rightarrow>
   ('sw, 'g, 'i, 'q, 'd, 'l, 'e) mothra \<Rightarrow> (client_call list \<times> ('sw, 'g, 'i, 'q, 'd, 'l, 'e) mothra) option" where
  "slot_step L B e (SlotReceive p rid req) m = on_libp2p_event L (LBehaviour (RequestReceived p rid req)) m"
| "slot_step L B e (SlotAnswer p res index) m = map_option (\<lambda>m'. ([], m')) (on_message B e (SendResponse p res index) m)"

text \<open>Nested use, with \<open>n\<close> requests waiting: a request is answered, under the index it was announced with,
  when all later requests have been answered. The second list has the responses that are due.\<close>

inductive nested :: "nat \<Rightarrow> slot_op list \<Rightarrow> (peer_id \<times> peer_request_id \<times> response) list \<Rightarrow> bool" where
  nested_Nil: "nested n [] []"
| nested_step: "n < 256 \<Longrightarrow> nested (Suc n) inner sent1 \<Longrightarrow> nested n rest sent2 \<Longrightarrow>
    nested n (SlotReceive p rid req # inner @ SlotAnswer q res (word_of_nat n) # rest) (sent1 @ (q, rid, res) # sent2)"

definition send_all ::
  "(peer_id \<times> peer_request_id \<times> response) list \<Rightarrow> ('sw, 'g, 'i, 'q, 'd, 'l, 'e) service \<Rightarrow> ('sw, 'g, 'i, 'q, 'd, 'l, 'e) service" where
  "send_all sent s = foldl (\<lambda>s (q, rid, res). service_send_response q rid res s) s sent"

lemma slots_libp2p [simp]: "slots rids (on_libp2p f m) = slots rids m"
  by (simp add: slots_def)

lemma unat_u8: "n < 256 \<Longrightarrow> unat (word_of_nat n :: u8) = n"
  by (simp add: unat_of_nat)

lemma slots_receive:
  assumes "slots rids m" and "length rids < 256"
  shows "\<exists>m'. slot_step L B e (SlotReceive p rid req) m =
                Some ([CallReceiveRpc ''Status'' 1 (peer_to_string L p) [word_of_nat (length rids)]], m') \<and>
              slots (rids @ [rid]) m' \<and> libp2p m' = libp2p m \<and> network_recv m' = network_recv m \<and> running m' = running m \<and>
              mo_propagation_percentage m' = mo_propagation_percentage m"
proof -
  have "replicate (256 - length rids) None = None # replicate (255 - length rids) (None :: peer_request_id option)"
    using assms(2) by (simp add: Suc_diff_le flip: replicate_Suc)
  then show ?thesis
    using assms by (simp add: slots_def Let_def unat_u8 list_update_append)
qed

lemma slots_answer:
  assumes "slots (rids @ [rid]) m'" and "slots rids m" and "libp2p m' = f (libp2p m)"
    and "network_recv m' = network_recv m" "running m' = running m" "mo_propagation_percentage m' = mo_propagation_percentage m"
  shows "slot_step L B e (SlotAnswer q res (word_of_nat (length rids))) m' = Some ([], on_libp2p (\<lambda>s. service_send_response q rid res (f s)) m)"
proof -
  have len: "length rids < 256" using assms(1) by (simp add: slots_def)
  have "replicate (256 - length rids) None = None # replicate (255 - length rids) (None :: peer_request_id option)"
    using len by (simp add: Suc_diff_le flip: replicate_Suc)
  with assms len have "requests m = (requests m')[length rids := None]" "requests m' ! length rids = Some rid" "num_requests m = num_requests m' - 1"
    by (simp_all add: slots_def nth_append list_update_append)
  with assms(3-6) len show ?thesis by (simp add: unat_u8 on_libp2p_def)
qed

lemma nested_run:
  assumes "nested n ops sent" "slots rids m" "length rids = n"
  shows "\<exists>outs. run_calls (slot_step L B e) ops m = Some (outs, on_libp2p (send_all sent) m)"
  using assms
proof (induction arbitrary: rids m rule: nested.induct)
  case (nested_step n inner sent1 rest sent2 p rid req q res)
  from slots_receive [OF nested_step.prems(1), of L B e p rid req] nested_step.hyps(1) nested_step.prems(2) obtain out m1 where
    m1: "slot_step L B e (SlotReceive p rid req) m = Some (out, m1)" "slots (rids @ [rid]) m1" and
    same: "libp2p m1 = libp2p m" "network_recv m1 = network_recv m" "running m1 = running m"
      "mo_propagation_percentage m1 = mo_propagation_percentage m" by auto
  from nested_step.IH(1) [OF m1(2)] nested_step.prems(2) obtain outs1 where
    m2: "run_calls (slot_step L B e) inner m1 = Some (outs1, on_libp2p (send_all sent1) m1)" by auto
  have m3: "slot_step L B e (SlotAnswer q res (word_of_nat n)) (on_libp2p (send_all sent1) m1) =
      Some ([], on_libp2p (\<lambda>s. service_send_response q rid res (send_all sent1 s)) m)"
    using slots_answer [of rids rid "on_libp2p (send_all sent1) m1" m "send_all sent1" L B e q res] m1(2) same nested_step.prems
    by simp
  from nested_step.IH(2) [of rids "on_libp2p (\<lambda>s. service_send_response q rid res (send_all sent1 s)) m"] nested_step.prems obtain outs2 where
    m4: "run_calls (slot_step L B e) rest (on_libp2p (\<lambda>s. service_send_response q rid res (send_all sent1 s)) m) =
      Some (outs2, on_libp2p (send_all sent2) (on_libp2p (\<lambda>s. service_send_response q rid res (send_all sent1 s)) m))" by auto
  from m1(1) m2 m3 m4 show ?case by (simp add: run_calls_append on_libp2p_def send_all_def)
qed (simp add: on_libp2p_def send_all_def)

section \<open>Concrete runs\<close>

definition ref_core_lib :: core_lib where
  "ref_core_lib = \<lparr> peer_to_string = map (char_of \<circ> unat), bs58_decode = (\<lambda>s. Some (map of_char s)), peer_from_bytes = Some \<rparr>"

definition ref_mothra_config :: "ref_enr mothra_config" where
  "ref_mothra_config = \<lparr> client_name = [], client_version = [], debug_level = [], mc_network = ref_config\<lparr> cfg_topics := [''blocks''] \<rparr> \<rparr>"

abbreviation ref_mothra where
  "ref_mothra \<equiv> mothra_new ref_bv_lib ref_swarm_lib ref_key_store (replicate 32 7) (Inr ()) ref_mothra_config [1] [2] [3] NoKeyFile NoFile"

lemma ref_mothra_new: "\<exists>calls m kf disk. ref_mothra = Some (calls, Inr m, kf, disk) \<and> slots [] m"
proof -
  have "case ref_mothra of Some (_, Inr m, _) \<Rightarrow> slots [] m | _ \<Rightarrow> False" by code_simp
  then show ?thesis by (auto split: option.splits sum.splits)
qed

section \<open>Properties\<close>

text \<open>C5. The task keeps running: from a new task, in every sequence of messages of the application, events of
  the network and exits, every round returns, the array keeps its 256 slots, and every peer that is
  connected or being dialed has its timers, unless it was connected by a dial of this node. The only
  exception is a gossip message without topics, which makes the task panic. This is about builds without
  overflow checks, and about node records and peer ids whose keys can be decoded (\<open>core_call_ok\<close>).\<close>

theorem core_keeps_running:
  assumes "behaviour_env B items gossip_waiting identify_waiting"
    and "mothra_new B S kst fresh transport config fork_id meta_data ping_data kf disk = Some (calls, Inr m, kf', disk')"
    and "list_all (core_call_ok (bl_pm B)) cs"
  shows "(\<exists>outs m'. run_calls (mothra_step L B S) cs m = Some (outs, m') \<and> length (requests m') = 256 \<and>
            (\<forall>p. is_connected_or_dialing (pm_db (bv_pm (sv_behaviour (libp2p m')))) p \<and> p \<notin> (\<Union>c \<in> set cs. core_dialed_peers c) \<longrightarrow>
               hsd_contains p (ping_peers (bv_pm (sv_behaviour (libp2p m')))) \<and> hsd_contains p (status_peers (bv_pm (sv_behaviour (libp2p m')))))) \<or>
         (\<exists>cs1 c cs2 outs m1. cs = cs1 @ c # cs2 \<and> run_calls (mothra_step L B S) cs1 m = Some (outs, m1) \<and> topicless_message B S c m1)"
proof -
  let ?X = "- (\<Union>c \<in> set cs. core_dialed_peers c)"
  have "list_all (\<lambda>c. core_call_ok (bl_pm B) c \<and> core_dialed_peers c \<inter> ?X = {}) cs" using assms(3) by (auto simp: list_all_iff)
  from behaviour_env.mothra_run [OF assms(1) behaviour_env.mothra_new_inv [OF assms(1,2)] this, of L S] show ?thesis
  proof (elim disjE, goal_cases)
    case 1
    then obtain outs m' where run: "run_calls (mothra_step L B S) cs m = Some (outs, m')" "mothra_inv ?X items m'" by blast
    then show ?case by (intro disjI1 exI [of _ outs] exI [of _ m']) (auto simp: mothra_inv_def sv_inv_def bv_inv_def pm_inv_def)
  qed (rule disjI2)
qed

definition busy_core :: "(env \<times> (nat, nat, ref_enr) core_call) list" where
  "busy_core =
     [(e_free 1, CoreService (ScRound (BrSwarm (SwConnectionEstablished [1, 2] (Listener [] []) 1)))),
      (e_free 2, CoreSend (Publish (gossip_topic_new ''blocks'') [1])), (e_free 3, CoreSend (Disconnect [1, 2])),
      (e_free 4, CoreReceive), (e_free 5, CoreReceive), (e_free 300, CoreService (ScRound BrBan)), (e_free 400, CoreExit)]"

lemma busy_core_no_message: "busy_core = cs1 @ c # cs2 \<Longrightarrow> \<not> topicless_message B S c m"
  by (auto simp: busy_core_def topicless_message_def Cons_eq_append_conv split: if_splits poll.splits option.splits sum.splits)

theorem core_keeps_running_witness:
  "\<exists>calls m kf disk outs m'. ref_mothra = Some (calls, Inr m, kf, disk) \<and>
     run_calls (mothra_step ref_core_lib ref_bv_lib ref_swarm_lib) busy_core m = Some (outs, m') \<and> length (requests m') = 256"
proof -
  obtain calls m kf disk where new: "ref_mothra = Some (calls, Inr m, kf, disk)" using ref_mothra_new by blast
  have ok: "list_all (core_call_ok (bl_pm ref_bv_lib)) busy_core" by (simp add: busy_core_def e_free_def)
  from core_keeps_running [OF ref_bv.behaviour_env_axioms new ok, of ref_core_lib] obtain outs m' where
    "run_calls (mothra_step ref_core_lib ref_bv_lib ref_swarm_lib) busy_core m = Some (outs, m')" "length (requests m') = 256"
    by (elim disjE exE conjE) (auto dest: busy_core_no_message)
  with new show ?thesis by blast
qed

text \<open>C10. The slots work as a stack: with at most 256 requests waiting, in every properly nested sequence of
  requests of peers and answers of the application, each answer goes out on the connection and stream
  of the request whose index it names, and in the end the slots are as they were before.\<close>

theorem request_slots_stack:
  assumes "slots rids m" and "nested (length rids) ops sent"
  shows "\<exists>outs. run_calls (slot_step L B e) ops m = Some (outs, on_libp2p (send_all sent) m)"
  using nested_run [OF assms(2,1)] by simp

theorem request_slots_stack_witness:
  "\<exists>calls m kf disk outs. ref_mothra = Some (calls, Inr m, kf, disk) \<and>
     run_calls (slot_step ref_core_lib ref_bv_lib (e_free 1))
       [SlotReceive [1, 2] (1, 1) (RqStatus []), SlotReceive [1, 3] (2, 1) (RqStatus []), SlotAnswer [1, 3] (RsStatus [3]) 1, SlotAnswer [1, 2] (RsStatus [2]) 0] m =
       Some (outs, on_libp2p (send_all [([1, 3], (2, 1), RsStatus [3]), ([1, 2], (1, 1), RsStatus [2])]) m)"
proof -
  obtain calls m kf disk where new: "ref_mothra = Some (calls, Inr m, kf, disk)" "slots [] m" using ref_mothra_new by blast
  have "nested 1 [SlotReceive [1, 3] (2, 1) (RqStatus []), SlotAnswer [1, 3] (RsStatus [3]) 1] [([1, 3], (2, 1), RsStatus [3])]"
    using nested_step [of 1 "[]" "[]" "[]" "[]" "[1, 3]" "(2, 1)" "RqStatus []" "[1, 3]" "RsStatus [3]"] by (simp add: nested_Nil)
  from nested_step [of 0, OF _ this [unfolded One_nat_def] nested_Nil, of "[1, 2]" "(1, 1)" "RqStatus []" "[1, 2]" "RsStatus [2]"]
  have "nested 0 [SlotReceive [1, 2] (1, 1) (RqStatus []), SlotReceive [1, 3] (2, 1) (RqStatus []), SlotAnswer [1, 3] (RsStatus [3]) 1, SlotAnswer [1, 2] (RsStatus [2]) 0]
     [([1, 3], (2, 1), RsStatus [3]), ([1, 2], (1, 1), RsStatus [2])]" by simp
  with request_slots_stack [OF new(2)] new(1) show ?thesis by fastforce
qed

text \<open>C38. An answer out of order loses a request: when of two waiting requests the older one is answered first,
  the next request that arrives is given the slot of the one that still waits, whose identifier is then
  in no slot, so that no answer of the application can reach it.\<close>

theorem out_of_order_answer_loses_request:
  assumes "slots [] m" and "b \<noteq> c"
  shows "\<exists>outs m'. run_calls (slot_step L B e)
           [SlotReceive p1 a req1, SlotReceive p2 b req2, SlotAnswer p1 res 0, SlotReceive p3 c req3] m = Some (outs, m') \<and>
           outs = [[CallReceiveRpc ''Status'' 1 (peer_to_string L p1) [0]], [CallReceiveRpc ''Status'' 1 (peer_to_string L p2) [1]], [],
                   [CallReceiveRpc ''Status'' 1 (peer_to_string L p3) [1]]] \<and>
           requests m' ! 1 = Some c \<and> Some b \<notin> set (requests m')"
proof -
  have "requests m = None # None # replicate 254 None" "num_requests m = 0"
    using assms(1) by (simp_all add: slots_def numeral_eq_Suc)
  with assms(2) show ?thesis by (simp add: Let_def)
qed

theorem out_of_order_answer_loses_request_witness:
  "\<exists>calls m kf disk outs m'. ref_mothra = Some (calls, Inr m, kf, disk) \<and>
     run_calls (slot_step ref_core_lib ref_bv_lib (e_free 1))
       [SlotReceive [1] (1, 1) (RqStatus []), SlotReceive [2] (2, 1) (RqStatus []), SlotAnswer [1] (RsStatus [1]) 0, SlotReceive [3] (3, 1) (RqStatus [])] m = Some (outs, m') \<and>
     Some (2, 1) \<notin> set (requests m')"
proof -
  obtain calls m kf disk where new: "ref_mothra = Some (calls, Inr m, kf, disk)" "slots [] m" using ref_mothra_new by blast
  from out_of_order_answer_loses_request [OF new(2), of "(2, 1)" "(3, 1)" ref_core_lib ref_bv_lib "e_free 1"] new(1) show ?thesis
    by fastforce
qed

text \<open>With the helper function the application answers only one request: \<open>rpc_response\<close> always names slot
  0, so of two answers, to two waiting requests, the first goes to the older request, whichever was
  meant, and the second is dropped.\<close>

theorem helper_answers_one_request:
  assumes "slots [a, b] m" and "running m" and "network_recv m = []" and "parse_peer L peer1 = Some p1" and "parse_peer L peer2 = Some p2"
  shows "\<exists>msgs ch. core_rpc_response L meth peer1 data1 (Some []) = Some ch \<and> core_rpc_response L meth peer2 data2 ch = Some (Some msgs) \<and>
           (\<exists>outs m'. run_calls (mothra_step L B S) (map (\<lambda>msg. (e, CoreSend msg)) msgs @ [(e, CoreReceive), (e, CoreReceive)]) m = Some (outs, m') \<and>
              libp2p m' = service_send_response p1 a (RsStatus data1) (libp2p m) \<and> requests m' ! 1 = Some b)"
proof -
  have "requests m = Some a # Some b # replicate 254 None" using assms(1) by (simp add: slots_def numeral_eq_Suc)
  with assms show ?thesis by (simp add: core_rpc_response_def channel_send_def Let_def on_libp2p_def)
qed

theorem helper_answers_one_request_witness:
  "\<exists>calls m0 kf disk m outs m'. ref_mothra = Some (calls, Inr m0, kf, disk) \<and> slots [(1, 1), (2, 1)] m \<and> libp2p m = libp2p m0 \<and>
     run_calls (mothra_step ref_core_lib ref_bv_lib ref_swarm_lib)
       [(e_free 1, CoreSend (SendResponse [50] (RsStatus [2]) 0)), (e_free 1, CoreSend (SendResponse [49] (RsStatus [1]) 0)), (e_free 1, CoreReceive), (e_free 1, CoreReceive)] m = Some (outs, m') \<and>
     libp2p m' = service_send_response [50] (1, 1) (RsStatus [2]) (libp2p m0) \<and> requests m' ! 1 = Some (2, 1)"
proof -
  obtain calls m0 kf disk where new: "ref_mothra = Some (calls, Inr m0, kf, disk)" using ref_mothra_new by blast
  define m where "m = m0\<lparr> requests := [Some (1, 1), Some (2, 1)] @ replicate 254 None, num_requests := 2, running := True, network_recv := [] \<rparr>"
  have m: "slots [(1, 1), (2, 1)] m" "running m" "network_recv m = []" "libp2p m = libp2p m0" by (simp_all add: m_def slots_def)
  have peers: "parse_peer ref_core_lib ''2'' = Some [50]" "parse_peer ref_core_lib ''1'' = Some [49]" by (simp_all add: parse_peer_def ref_core_lib_def)
  from helper_answers_one_request [OF m(1-3) peers, of _ "[2]" "[1]" ref_bv_lib ref_swarm_lib "e_free 1"]
  have "\<exists>outs m'. run_calls (mothra_step ref_core_lib ref_bv_lib ref_swarm_lib)
       [(e_free 1, CoreSend (SendResponse [50] (RsStatus [2]) 0)), (e_free 1, CoreSend (SendResponse [49] (RsStatus [1]) 0)), (e_free 1, CoreReceive), (e_free 1, CoreReceive)] m = Some (outs, m') \<and>
     libp2p m' = service_send_response [50] (1, 1) (RsStatus [2]) (libp2p m) \<and> requests m' ! 1 = Some (2, 1)"
    using peers by (auto simp: core_rpc_response_def channel_send_def)
  with new m show ?thesis by fastforce
qed

fun heard :: "client_call \<Rightarrow> bool" where
  "heard (CallReceiveGossip _ _ _ _ _ _) = True"
| "heard (CallReceiveRpc meth k _ data) \<longleftrightarrow> meth = ''Status'' \<and> (k = 0 \<and> data = [] \<or> k = 1 \<and> length data = 1)"
| "heard _ = False"

lemma on_libp2p_event_heard: "on_libp2p_event L ev m = Some (calls, m') \<Longrightarrow> list_all heard calls"
proof (cases ev)
  case (LBehaviour bev)
  then show "on_libp2p_event L ev m = Some (calls, m') \<Longrightarrow> list_all heard calls" by (cases bev) (auto simp: Let_def split: list.splits)
qed auto

lemma mothra_step_heard: "mothra_step L B S c m = Some (calls, m') \<Longrightarrow> list_all heard calls"
proof -
  obtain e call where c: "c = (e, call)" by (cases c)
  show "mothra_step L B S c m = Some (calls, m') \<Longrightarrow> list_all heard calls"
    by (cases call) (auto simp: c dest: on_libp2p_event_heard split: list.splits option.splits if_splits)
qed

text \<open>C11. The application never sees the contents of a request or a response: whatever happens, it is told of
  gossip messages, asked for a status (method \<open>Status\<close>, kind 0, no data), or told of a waiting request
  (kind 1) with nothing but its index; it is never told of a discovered peer, of a response to its own
  requests or of their failure.\<close>

theorem application_hears:
  assumes "run_calls (mothra_step L B S) cs m = Some (outs, m')"
  shows "list_all (list_all heard) outs"
  using assms
proof (induction cs arbitrary: m outs)
  case (Cons c cs)
  then obtain out m1 outs1 where "mothra_step L B S c m = Some (out, m1)" "run_calls (mothra_step L B S) cs m1 = Some (outs1, m')" "outs = out # outs1"
    by (auto split: option.splits)
  with Cons.IH mothra_step_heard show ?case by simp
qed simp

theorem application_hears_witness:
  "\<exists>calls m kf disk outs m'. ref_mothra = Some (calls, Inr m, kf, disk) \<and>
     run_calls (mothra_step ref_core_lib ref_bv_lib ref_swarm_lib) busy_core m = Some (outs, m') \<and> list_all (list_all heard) outs"
proof -
  have "case ref_mothra of Some (_, Inr m, _) \<Rightarrow> run_calls (mothra_step ref_core_lib ref_bv_lib ref_swarm_lib) busy_core m \<noteq> None | _ \<Rightarrow> False" by code_simp
  then obtain calls m kf disk outs m' where run: "ref_mothra = Some (calls, Inr m, kf, disk)"
    "run_calls (mothra_step ref_core_lib ref_bv_lib ref_swarm_lib) busy_core m = Some (outs, m')"
    by (auto split: option.splits sum.splits)
  from application_hears [OF run(2)] run show ?thesis by blast
qed

end
