(* ===== verification/Ffi.thy ===== *)
theory Ffi
  imports Mothra_Core
begin

text \<open>
  \<open>core/ffi/src/lib.rs\<close>: the interface for programs in other languages. Static variables hold the C
  functions that are called back and the networks that were started; the exported functions start a
  network and put messages on its channel.

  A C function is a value of the type \<open>'h\<close>. A pointer with its length is the buffer it points to and the
  length that is passed beside it, which need not agree. C strings are their bytes without the final
  zero. Clap, the runtime and the libraries below are parameters; \<open>env_logger\<close> panics, as it documents,
  when a logger has been installed already.
\<close>

section \<open>State\<close>

record ('h, 'sw, 'g, 'i, 'q, 'd, 'l, 'e) ffi_state =
  CONTEXT :: "('sw, 'g, 'i, 'q, 'd, 'l, 'e) mothra list"
  DISCOVERED_PEER_PTR :: "'h option"
  RECEIVE_GOSSIP_PTR :: "'h option"
  RECEIVE_RPC_PTR :: "'h option"
  logger_set :: bool

type_synonym buffer = "u8 list \<times> 16 word"

datatype 'h c_call =
    CDiscoveredPeer 'h buffer
  | CReceiveGossip 'h buffer buffer buffer buffer
  | CReceiveRpc 'h buffer "16 word" buffer buffer

definition ffi_initial :: "('h, 'sw, 'g, 'i, 'q, 'd, 'l, 'e) ffi_state" where
  "ffi_initial = \<lparr> CONTEXT = [], DISCOVERED_PEER_PTR = None, RECEIVE_GOSSIP_PTR = None, RECEIVE_RPC_PTR = None, logger_set = False \<rparr>"

definition register_handlers ::
  "'h \<Rightarrow> 'h \<Rightarrow> 'h \<Rightarrow> ('h, 'sw, 'g, 'i, 'q, 'd, 'l, 'e) ffi_state \<Rightarrow> ('h, 'sw, 'g, 'i, 'q, 'd, 'l, 'e) ffi_state" where
  "register_handlers h_peer h_gossip h_rpc f =
     f\<lparr> DISCOVERED_PEER_PTR := Some h_peer, RECEIVE_GOSSIP_PTR := Some h_gossip, RECEIVE_RPC_PTR := Some h_rpc \<rparr>"

section \<open>Callbacks\<close>

text \<open>\<open>i16(n).unwrap()\<close>\<close>

definition to_i16 :: "nat \<Rightarrow> 16 word option" where
  "to_i16 n = (if n \<le> 32767 then Some (word_of_nat n) else None)"

definition client_discovered_peer :: "string \<Rightarrow> ('h, 'sw, 'g, 'i, 'q, 'd, 'l, 'e) ffi_state \<Rightarrow> 'h c_call option" where
  "client_discovered_peer peer f =
     (case to_i16 (length peer) of
        None \<Rightarrow> None
      | Some peer_length \<Rightarrow> map_option (\<lambda>h. CDiscoveredPeer h (as_bytes peer, peer_length)) (DISCOVERED_PEER_PTR f))"

definition client_receive_gossip ::
  "string \<Rightarrow> u64 \<Rightarrow> string \<Rightarrow> string \<Rightarrow> string \<Rightarrow> u8 list \<Rightarrow> ('h, 'sw, 'g, 'i, 'q, 'd, 'l, 'e) ffi_state \<Rightarrow> 'h c_call option" where
  "client_receive_gossip message_id seq agent peer t data f =
     (case (to_i16 (length t), to_i16 (length t), to_i16 (length t), to_i16 (length data)) of
        (Some message_id_length, Some peer_id_length, Some topic_length, Some data_length) \<Rightarrow>
          map_option (\<lambda>h. CReceiveGossip h (as_bytes message_id, message_id_length) (as_bytes peer, peer_id_length)
                            (as_bytes t, topic_length) (data, data_length)) (RECEIVE_GOSSIP_PTR f)
      | _ \<Rightarrow> None)"

definition client_receive_rpc ::
  "string \<Rightarrow> u8 \<Rightarrow> string \<Rightarrow> u8 list \<Rightarrow> ('h, 'sw, 'g, 'i, 'q, 'd, 'l, 'e) ffi_state \<Rightarrow> 'h c_call option" where
  "client_receive_rpc meth req_resp peer data f =
     (case (to_i16 (length meth), to_i16 (length peer), to_i16 (length data)) of
        (Some method_length, Some peer_length, Some data_length) \<Rightarrow>
          map_option (\<lambda>h. CReceiveRpc h (as_bytes meth, method_length) (ucast req_resp) (as_bytes peer, peer_length) (data, data_length))
            (RECEIVE_RPC_PTR f)
      | _ \<Rightarrow> None)"

text \<open>The methods of \<open>Client\<close>; \<open>init\<close> is empty.\<close>

fun client_callback :: "('h, 'sw, 'g, 'i, 'q, 'd, 'l, 'e) ffi_state \<Rightarrow> client_call \<Rightarrow> 'h c_call list option" where
  "client_callback f (CallInit fork_id) = Some []"
| "client_callback f (CallDiscoveredPeer peer) = map_option (\<lambda>c. [c]) (client_discovered_peer peer f)"
| "client_callback f (CallReceiveGossip message_id seq agent peer t data) =
     map_option (\<lambda>c. [c]) (client_receive_gossip message_id seq agent peer t data f)"
| "client_callback f (CallReceiveRpc meth req_resp peer data) = map_option (\<lambda>c. [c]) (client_receive_rpc meth req_resp peer data f)"

section \<open>Starting a network\<close>

datatype 'a ffi_result = FfiPanic | FfiExit nat | FfiOk 'a

text \<open>\<open>CStr::to_str\<close>, with the empty string as \<open>None\<close>.\<close>

definition c_constant :: "u8 list \<Rightarrow> string option" where
  "c_constant bytes = (if utf8_valid bytes \<and> bytes \<noteq> [] then Some (from_bytes bytes) else None)"

definition c_args :: "u8 list list \<Rightarrow> string list" where
  "c_args args = map from_bytes (filter utf8_valid args)"

text \<open>What the machine contributes to a start: clap, the build, the command line libraries, the runtime, the
  key that would be generated, the transport, and the two files.\<close>

record 'e machine =
  clap :: "string list \<Rightarrow> string + arg_matches"
  mc_cli :: "'e cli_lib"
  mc_build :: build_info
  mc_runtime :: "string + unit"
  mc_fresh :: "u8 list"
  mc_transport :: "string + unit"
  mc_key_file :: key_file
  mc_disk :: disk_file

definition network_start ::
  "('g, 'gh, 'gm, 'i, 'ih, 'im, 'q, 'd, 'l, 'b, 'e, 'k) bv_lib \<Rightarrow> 'sw swarm_lib \<Rightarrow> key_store_lib \<Rightarrow> 'e machine \<Rightarrow>
   u8 list \<Rightarrow> u8 list \<Rightarrow> u8 list \<Rightarrow> u8 list list \<Rightarrow> ('h, 'sw, 'g, 'i, 'q, 'd, 'l, 'e) ffi_state \<Rightarrow>
   ('h, 'sw, 'g, 'i, 'q, 'd, 'l, 'e) ffi_state ffi_result" where
  "network_start B S kst mc name version protocol_version args f =
     (case clap mc (c_args args) of
        Inl _ \<Rightarrow> FfiExit 1
      | Inr m \<Rightarrow>
          (case get_config (mc_cli mc) (mc_build mc) (c_constant name) (c_constant version) (c_constant protocol_version) m of
             None \<Rightarrow> FfiPanic
           | Some config \<Rightarrow>
               if logger_set f then FfiPanic
               else (case mc_runtime mc of
                       Inl _ \<Rightarrow> FfiPanic
                     | Inr _ \<Rightarrow>
                         (case mothra_new B S kst (mc_fresh mc) (mc_transport mc) config (replicate 32 0) (replicate 32 0) (replicate 32 0)
                                 (mc_key_file mc) (mc_disk mc) of
                            Some (_, Inr mothra, _) \<Rightarrow> FfiOk (f\<lparr> CONTEXT := CONTEXT f @ [mothra], logger_set := True \<rparr>)
                          | _ \<Rightarrow> FfiPanic))))"

section \<open>Sending\<close>

text \<open>The channel of the first network: it is closed when its task has ended. An index beyond the end of
  \<open>CONTEXT\<close> panics.\<close>

definition mothra_channel :: "('sw, 'g, 'i, 'q, 'd, 'l, 'e) mothra \<Rightarrow> channel" where
  "mothra_channel m = (if running m then Some (network_recv m) else None)"

definition with_channel :: "channel \<Rightarrow> ('sw, 'g, 'i, 'q, 'd, 'l, 'e) mothra \<Rightarrow> ('sw, 'g, 'i, 'q, 'd, 'l, 'e) mothra" where
  "with_channel ch m = (case ch of None \<Rightarrow> m | Some msgs \<Rightarrow> m\<lparr> network_recv := msgs \<rparr>)"

definition on_context ::
  "(channel \<Rightarrow> channel option) \<Rightarrow> ('h, 'sw, 'g, 'i, 'q, 'd, 'l, 'e) ffi_state \<Rightarrow> ('h, 'sw, 'g, 'i, 'q, 'd, 'l, 'e) ffi_state option" where
  "on_context send f =
     (case CONTEXT f of
        [] \<Rightarrow> None
      | m # ms \<Rightarrow> map_option (\<lambda>ch. f\<lparr> CONTEXT := with_channel ch m # ms \<rparr>) (send (mothra_channel m)))"

definition send_gossip ::
  "u8 list \<Rightarrow> u8 list \<Rightarrow> ('h, 'sw, 'g, 'i, 'q, 'd, 'l, 'e) ffi_state \<Rightarrow> ('h, 'sw, 'g, 'i, 'q, 'd, 'l, 'e) ffi_state option" where
  "send_gossip t data f = on_context (\<lambda>ch. Some (core_gossip (from_bytes t) data ch)) f"

definition send_rpc_request ::
  "core_lib \<Rightarrow> u8 list \<Rightarrow> u8 list \<Rightarrow> u8 list \<Rightarrow> ('h, 'sw, 'g, 'i, 'q, 'd, 'l, 'e) ffi_state \<Rightarrow>
   ('h, 'sw, 'g, 'i, 'q, 'd, 'l, 'e) ffi_state option" where
  "send_rpc_request L meth peer data f = on_context (core_rpc_request L (from_bytes meth) (from_bytes peer) data) f"

definition send_rpc_response ::
  "core_lib \<Rightarrow> u8 list \<Rightarrow> u8 list \<Rightarrow> u8 list \<Rightarrow> ('h, 'sw, 'g, 'i, 'q, 'd, 'l, 'e) ffi_state \<Rightarrow>
   ('h, 'sw, 'g, 'i, 'q, 'd, 'l, 'e) ffi_state option" where
  "send_rpc_response L meth peer data f = on_context (core_rpc_response L (from_bytes meth) (from_bytes peer) data) f"

section \<open>Runs\<close>

text \<open>The host program's calls, interleaved with the rounds of the task of the first network, whose calls on
  the application become calls of C functions.\<close>

datatype ('h, 'gm, 'im, 'e) ffi_call =
    FfiRegister 'h 'h 'h
  | FfiSendGossip "u8 list" "u8 list"
  | FfiSendRpcRequest "u8 list" "u8 list" "u8 list"
  | FfiSendRpcResponse "u8 list" "u8 list" "u8 list"
  | FfiTask "env \<times> ('gm, 'im, 'e) core_call"

fun client_callbacks :: "('h, 'sw, 'g, 'i, 'q, 'd, 'l, 'e) ffi_state \<Rightarrow> client_call list \<Rightarrow> 'h c_call list option" where
  "client_callbacks f [] = Some []"
| "client_callbacks f (call # calls) =
     (case client_callback f call of
        None \<Rightarrow> None
      | Some cs \<Rightarrow> map_option (\<lambda>cs'. cs @ cs') (client_callbacks f calls))"

fun ffi_step ::
  "core_lib \<Rightarrow> ('g, 'gh, 'gm, 'i, 'ih, 'im, 'q, 'd, 'l, 'b, 'e, 'k) bv_lib \<Rightarrow> 'sw swarm_lib \<Rightarrow> ('h, 'gm, 'im, 'e) ffi_call \<Rightarrow>
   ('h, 'sw, 'g, 'i, 'q, 'd, 'l, 'e) ffi_state \<Rightarrow> ('h c_call list \<times> ('h, 'sw, 'g, 'i, 'q, 'd, 'l, 'e) ffi_state) option" where
  "ffi_step L B S (FfiRegister h1 h2 h3) f = Some ([], register_handlers h1 h2 h3 f)"
| "ffi_step L B S (FfiSendGossip t data) f = map_option (Pair []) (send_gossip t data f)"
| "ffi_step L B S (FfiSendRpcRequest meth peer data) f = map_option (Pair []) (send_rpc_request L meth peer data f)"
| "ffi_step L B S (FfiSendRpcResponse meth peer data) f = map_option (Pair []) (send_rpc_response L meth peer data f)"
| "ffi_step L B S (FfiTask c) f =
     (case CONTEXT f of
        [] \<Rightarrow> Some ([], f)
      | m # ms \<Rightarrow>
          (case mothra_step L B S c m of
             None \<Rightarrow> None
           | Some (calls, m') \<Rightarrow> map_option (\<lambda>cs. (cs, f\<lparr> CONTEXT := m' # ms \<rparr>)) (client_callbacks f calls)))"

section \<open>Lemmas\<close>

lemma to_i16_Some: "to_i16 n = Some l \<Longrightarrow> sint l = int n"
  by (auto simp: to_i16_def signed_of_nat signed_take_bit_int_eq_self split: if_splits)

lemma to_i16_None: "to_i16 n = None \<longleftrightarrow> 32767 < n"
  by (auto simp: to_i16_def)

fun sized :: "buffer \<Rightarrow> bool" where
  "sized (bytes, l) \<longleftrightarrow> sint l = int (length bytes)"

fun c_call_ok :: "'h c_call \<Rightarrow> bool" where
  "c_call_ok (CDiscoveredPeer h peer) = False"
| "c_call_ok (CReceiveGossip h message_id peer t data) \<longleftrightarrow> sized t \<and> sized data \<and> snd message_id = snd t \<and> snd peer = snd t"
| "c_call_ok (CReceiveRpc h meth req_resp peer data) \<longleftrightarrow>
     sized meth \<and> sized peer \<and> sized data \<and> fst meth = as_bytes ''Status'' \<and>
     (req_resp = 0 \<and> fst data = [] \<or> req_resp = 1 \<and> length (fst data) = 1)"

lemma client_callback_ok: "heard call \<Longrightarrow> client_callback f call = Some cs \<Longrightarrow> list_all c_call_ok cs"
  by (cases call)
    (auto simp: client_receive_gossip_def client_receive_rpc_def dest!: to_i16_Some split: option.splits)

lemma client_callbacks_ok: "list_all heard calls \<Longrightarrow> client_callbacks f calls = Some cs \<Longrightarrow> list_all c_call_ok cs"
  by (induction calls arbitrary: cs) (auto dest: client_callback_ok split: option.splits)

lemma on_context_fields:
  "on_context send f = Some f' \<Longrightarrow> logger_set f' = logger_set f \<and> length (CONTEXT f') = length (CONTEXT f)"
  by (auto simp: on_context_def split: list.splits)

lemmas sends = send_gossip_def send_rpc_request_def send_rpc_response_def

lemma ffi_step_ok: "ffi_step L B S c f = Some (cs, f') \<Longrightarrow> list_all c_call_ok cs"
  by (cases c) (auto dest!: mothra_step_heard client_callbacks_ok split: list.splits option.splits)

lemma ffi_step_fields:
  "ffi_step L B S c f = Some (cs, f') \<Longrightarrow> logger_set f' = logger_set f \<and> length (CONTEXT f') = length (CONTEXT f)"
  by (cases c) (auto simp: sends register_handlers_def dest!: on_context_fields split: list.splits option.splits)

lemma ffi_run_fields:
  "run_calls (ffi_step L B S) cs f = Some (outs, f') \<Longrightarrow> logger_set f' = logger_set f \<and> length (CONTEXT f') = length (CONTEXT f)"
proof (induction cs arbitrary: f outs)
  case (Cons c cs)
  then obtain out f1 outs1 where "ffi_step L B S c f = Some (out, f1)" "run_calls (ffi_step L B S) cs f1 = Some (outs1, f')"
    by (auto split: option.splits)
  with Cons.IH ffi_step_fields show ?case by metis
qed simp

text \<open>A message for a network: appended to its channel while the task runs.\<close>

definition queued_message :: "('sw, 'g, 'i, 'q, 'd, 'l, 'e) mothra \<Rightarrow> network_message \<Rightarrow> ('sw, 'g, 'i, 'q, 'd, 'l, 'e) mothra" where
  "queued_message m msg = (if running m then m\<lparr> network_recv := network_recv m @ [msg] \<rparr> else m)"

lemma queued_message_channel: "with_channel (channel_send msg (mothra_channel m)) m = queued_message m msg"
  by (simp add: queued_message_def with_channel_def channel_send_def mothra_channel_def)

lemma sends_to_network:
  assumes "CONTEXT f = m # ms"
  shows "send_gossip t data f = Some (f\<lparr> CONTEXT := queued_message m (Publish (gossip_topic_new (from_bytes t)) data) # ms \<rparr>)"
    and "send_rpc_request L meth peer data f =
      map_option (\<lambda>p. f\<lparr> CONTEXT := queued_message m (SendRequest p (RqStatus data) Behaviour) # ms \<rparr>) (parse_peer L (from_bytes peer))"
    and "send_rpc_response L meth peer data f =
      map_option (\<lambda>p. f\<lparr> CONTEXT := queued_message m (SendResponse p (RsStatus data) 0) # ms \<rparr>) (parse_peer L (from_bytes peer))"
  using assms
  by (simp_all add: sends on_context_def core_gossip_def core_rpc_request_def core_rpc_response_def queued_message_channel split: option.split)

text \<open>Sending and receiving gossip.\<close>

lemma send_all_gossip:
  "CONTEXT f = m # ms \<Longrightarrow> running m \<Longrightarrow>
   run_calls (ffi_step L B S) (map (\<lambda>(t, data). FfiSendGossip t data) msgs) f =
     Some (map (\<lambda>_. []) msgs, f\<lparr> CONTEXT := m\<lparr> network_recv := network_recv m @ map (\<lambda>(t, data). Publish (gossip_topic_new (from_bytes t)) data) msgs \<rparr> # ms \<rparr>)"
proof (induction msgs arbitrary: f m)
  case (Cons msg msgs)
  obtain t data where msg: "msg = (t, data)" by force
  let ?m = "m\<lparr> network_recv := network_recv m @ [Publish (gossip_topic_new (from_bytes t)) data] \<rparr>"
  have "ffi_step L B S (FfiSendGossip t data) f = Some ([], f\<lparr> CONTEXT := ?m # ms \<rparr>)"
    using Cons.prems by (simp add: send_gossip_def on_context_def mothra_channel_def with_channel_def core_gossip_def channel_send_def)
  with Cons.IH [of "f\<lparr> CONTEXT := ?m # ms \<rparr>" ?m] Cons.prems show ?case by (simp add: msg)
qed simp

lemma receive_all_gossip:
  "CONTEXT f = m # ms \<Longrightarrow> running m \<Longrightarrow> network_recv m = map (\<lambda>(t, data). Publish t data) msgs \<Longrightarrow>
   \<exists>outs. run_calls (ffi_step L B S) (map (\<lambda>_. FfiTask (e, CoreReceive)) msgs) f =
     Some (outs, f\<lparr> CONTEXT := (on_libp2p (on_behaviour (\<lambda>b. foldl (\<lambda>b (t, data). behaviour_publish B t data b) b msgs)) m)\<lparr> network_recv := [] \<rparr> # ms \<rparr>)"
proof (induction msgs arbitrary: f m)
  case (Cons msg msgs)
  obtain t data where msg: "msg = (t, data)" by force
  let ?m = "on_libp2p (on_behaviour (behaviour_publish B t data)) (m\<lparr> network_recv := map (\<lambda>(t, data). Publish t data) msgs \<rparr>)"
  have step: "ffi_step L B S (FfiTask (e, CoreReceive)) f = Some ([], f\<lparr> CONTEXT := ?m # ms \<rparr>)"
    using Cons.prems by (simp add: msg)
  from Cons.IH [of "f\<lparr> CONTEXT := ?m # ms \<rparr>" ?m] Cons.prems show ?case
    using step by (auto simp: msg on_libp2p_def on_behaviour_def)
qed (simp add: on_libp2p_def on_behaviour_def)

section \<open>A concrete host\<close>

definition ref_machine :: "ref_enr machine" where
  "ref_machine =
     \<lparr> clap = (\<lambda>args. Inr (ref_matches cli_app [(''port'', ''7''), (''listen-address'', ''0.0.0.1''), (''topics'', ''blocks'')])),
       mc_cli = \<lparr> cl_enr_parse = (\<lambda>_. None), cl_multiaddr_parse = (\<lambda>_. None), cl_printable = (\<lambda>_. True), cl_tcp_bind = Inl [], cl_udp_bind = Inl [] \<rparr>,
       mc_build = ref_build, mc_runtime = Inr (), mc_fresh = replicate 32 7, mc_transport = Inr (), mc_key_file = NoKeyFile, mc_disk = NoFile \<rparr>"

type_synonym ref_ffi =
  "(nat, multiaddr list \<times> peer_id list, (nat, gossip_event) nb_action list, (nat, identify_event) nb_action list, peer_id list_queue,
    ref_enr list, (peer_id \<times> ref_enr) list, ref_enr) ffi_state"

definition ref_ffi_start :: "ref_ffi ffi_result" where
  "ref_ffi_start = network_start ref_bv_lib ref_swarm_lib ref_key_store ref_machine [] [] [] [] (register_handlers 1 2 3 ffi_initial)"

lemma ref_ffi_started:
  "\<exists>f m. ref_ffi_start = FfiOk f \<and> CONTEXT f = [m] \<and> running m \<and> network_recv m = [] \<and> RECEIVE_RPC_PTR f = Some 3"
proof -
  have "case ref_ffi_start of FfiOk f \<Rightarrow> (case CONTEXT f of [m] \<Rightarrow> running m \<and> network_recv m = [] | _ \<Rightarrow> False) \<and> RECEIVE_RPC_PTR f = Some 3 | _ \<Rightarrow> False"
    by code_simp
  then show ?thesis by (auto split: ffi_result.splits list.splits)
qed

definition peer_connects :: "(nat, nat, nat, ref_enr) ffi_call list" where
  "peer_connects = [FfiTask (e_free 1, CoreService (ScRound (BrSwarm (SwConnectionEstablished [1, 2] (Listener [] []) 1))))]"

section \<open>Properties\<close>

text \<open>C13. What the host program is called with: in every run, the lengths that are passed with the method, the
  peer and the data of a request are those of the buffers, the method is \<open>Status\<close>, and the data is at
  most the index of the request; with a gossip message, the lengths of the topic and of the data are
  right, but the message id and the peer id both come with the length of the topic.\<close>

theorem callbacks_lengths:
  assumes "run_calls (ffi_step L B S) cs f = Some (outs, f')"
  shows "list_all (list_all c_call_ok) outs"
  using assms
proof (induction cs arbitrary: f outs)
  case (Cons c cs)
  then obtain out f1 outs1 where "ffi_step L B S c f = Some (out, f1)" "run_calls (ffi_step L B S) cs f1 = Some (outs1, f')" "outs = out # outs1"
    by (auto split: option.splits)
  with Cons.IH ffi_step_ok show ?case by auto
qed simp

theorem callbacks_lengths_witness:
  "\<exists>f outs f'. ref_ffi_start = FfiOk f \<and>
     run_calls (ffi_step ref_core_lib ref_bv_lib ref_swarm_lib)
       peer_connects f = Some (outs, f') \<and>
     outs \<noteq> [[]] \<and> list_all (list_all c_call_ok) outs"
proof -
  have "case ref_ffi_start of FfiOk f \<Rightarrow>
      (case run_calls (ffi_step ref_core_lib ref_bv_lib ref_swarm_lib)
         peer_connects f of Some (outs, _) \<Rightarrow> outs \<noteq> [[]] | None \<Rightarrow> False) | _ \<Rightarrow> False"
    by code_simp
  then obtain f outs f' where run: "ref_ffi_start = FfiOk f"
    "run_calls (ffi_step ref_core_lib ref_bv_lib ref_swarm_lib)
       peer_connects f = Some (outs, f')" "outs \<noteq> [[]]"
    by (auto split: ffi_result.splits option.splits)
  from callbacks_lengths [OF run(2)] run show ?thesis by blast
qed

text \<open>C39. When a callback panics: exactly when its C function was not registered, or when one of the lengths
  does not fit into 16 bits with sign. In particular a gossip message of more than 32767 bytes stops
  the task, although the network accepts messages of up to a mebibyte.\<close>

theorem callback_panics_iff:
  "(client_callback f call = None \<longleftrightarrow>
     (case call of
        CallInit _ \<Rightarrow> False
      | CallDiscoveredPeer peer \<Rightarrow> DISCOVERED_PEER_PTR f = None \<or> 32767 < length peer
      | CallReceiveGossip message_id seq agent peer t data \<Rightarrow> RECEIVE_GOSSIP_PTR f = None \<or> 32767 < length t \<or> 32767 < length data
      | CallReceiveRpc meth k peer data \<Rightarrow> RECEIVE_RPC_PTR f = None \<or> 32767 < length meth \<or> 32767 < length peer \<or> 32767 < length data)) \<and>
   32767 < GOSSIP_MAX_SIZE"
proof (cases call)
  case (CallReceiveGossip message_id seq agent peer t data)
  then show ?thesis
    using to_i16_None [of "length t"] to_i16_None [of "length data"]
    by (auto simp: client_receive_gossip_def GOSSIP_MAX_SIZE_def split: option.splits)
next
  case (CallReceiveRpc meth k peer data)
  then show ?thesis
    using to_i16_None [of "length meth"] to_i16_None [of "length peer"] to_i16_None [of "length data"]
    by (auto simp: client_receive_rpc_def GOSSIP_MAX_SIZE_def split: option.splits)
next
  case (CallDiscoveredPeer peer)
  then show ?thesis
    using to_i16_None [of "length peer"] by (auto simp: client_discovered_peer_def GOSSIP_MAX_SIZE_def split: option.splits)
qed (simp add: GOSSIP_MAX_SIZE_def)

text \<open>C17. A process starts one network, and all messages go to it. After a start, and whatever the host
  program and the task do then, there is one network, and no further start succeeds, since the logger
  can be installed only once. As long as its task runs, what the host program sends is appended to the
  channel of this network: gossip with its topic and data, requests and responses with the peer that was
  named (a name that does not parse panics), a response always for slot 0. Once the task has ended the
  messages are dropped.\<close>

theorem network_starts_once:
  assumes "network_start B S kst mc name version protocol_version args f00 = FfiOk f0" and "CONTEXT f00 = []"
    and "run_calls (ffi_step L B S) cs f0 = Some (outs, f)"
  shows "\<exists>m. CONTEXT f = [m] \<and>
           (\<forall>f'. network_start B' S' kst' mc' name' version' protocol_version' args' f \<noteq> FfiOk f') \<and>
           send_gossip t data f = Some (f\<lparr> CONTEXT := [queued_message m (Publish (gossip_topic_new (from_bytes t)) data)] \<rparr>) \<and>
           send_rpc_request L meth peer data f =
             map_option (\<lambda>p. f\<lparr> CONTEXT := [queued_message m (SendRequest p (RqStatus data) Behaviour)] \<rparr>) (parse_peer L (from_bytes peer)) \<and>
           send_rpc_response L meth peer data f =
             map_option (\<lambda>p. f\<lparr> CONTEXT := [queued_message m (SendResponse p (RsStatus data) 0)] \<rparr>) (parse_peer L (from_bytes peer))"
proof -
  have f0: "logger_set f0" "length (CONTEXT f0) = 1"
    using assms(1,2) by (auto simp: network_start_def split: sum.splits option.splits prod.splits if_splits)
  with ffi_run_fields [OF assms(3)] obtain m where m: "CONTEXT f = [m]" "logger_set f" by (auto simp: length_Suc_conv)
  then have "\<forall>f'. network_start B' S' kst' mc' name' version' protocol_version' args' f \<noteq> FfiOk f'"
    by (auto simp: network_start_def split: sum.splits option.splits)
  with m show ?thesis by (simp add: sends_to_network)
qed

definition host_calls :: "(nat, nat, nat, ref_enr) ffi_call list" where
  "host_calls = [FfiRegister 1 2 3, FfiSendRpcResponse [83] [49] [7]]"

theorem network_starts_once_witness:
  "\<exists>f0 outs f m. network_start ref_bv_lib ref_swarm_lib ref_key_store ref_machine [] [] [] [] (ffi_initial :: ref_ffi) = FfiOk f0 \<and>
     run_calls (ffi_step ref_core_lib ref_bv_lib ref_swarm_lib) host_calls f0 = Some (outs, f) \<and> CONTEXT f = [m] \<and>
     (\<forall>f'. network_start ref_bv_lib ref_swarm_lib ref_key_store ref_machine [] [] [] [] f \<noteq> FfiOk f') \<and>
     send_gossip [98] [5] f = Some (f\<lparr> CONTEXT := [queued_message m (Publish (gossip_topic_new (from_bytes [98])) [5])] \<rparr>)"
proof -
  have "case network_start ref_bv_lib ref_swarm_lib ref_key_store ref_machine [] [] [] [] (ffi_initial :: ref_ffi) of
      FfiOk f0 \<Rightarrow> (case run_calls (ffi_step ref_core_lib ref_bv_lib ref_swarm_lib) host_calls f0 of Some _ \<Rightarrow> True | None \<Rightarrow> False)
    | _ \<Rightarrow> False" by code_simp
  then obtain f0 outs f where f0: "network_start ref_bv_lib ref_swarm_lib ref_key_store ref_machine [] [] [] [] (ffi_initial :: ref_ffi) = FfiOk f0"
    and run: "run_calls (ffi_step ref_core_lib ref_bv_lib ref_swarm_lib) host_calls f0 = Some (outs, f)"
    by (auto split: ffi_result.splits option.splits)
  have "CONTEXT (ffi_initial :: ref_ffi) = []" by (simp add: ffi_initial_def)
  from network_starts_once [OF f0 this run, where t = "[98]" and data = "[5]" and B' = ref_bv_lib and S' = ref_swarm_lib and
      kst' = ref_key_store and mc' = ref_machine and name' = "[]" and version' = "[]" and protocol_version' = "[]" and args' = "[]"]
  obtain m where "CONTEXT f = [m]" "\<forall>f'. network_start ref_bv_lib ref_swarm_lib ref_key_store ref_machine [] [] [] [] f \<noteq> FfiOk f'"
    "send_gossip [98] [5] f = Some (f\<lparr> CONTEXT := [queued_message m (Publish (gossip_topic_new (from_bytes [98])) [5])] \<rparr>)"
    by blast
  with f0 run show ?thesis by blast
qed

text \<open>C16. Gossip is published in the order in which it was sent: messages that the host program sends while
  the task runs are published by the network, all of them and in order, when the task takes them from
  the channel.\<close>

theorem gossip_published_in_order:
  assumes "CONTEXT f = m # ms" and "running m" and "network_recv m = []"
  shows "\<exists>outs f' m'. run_calls (ffi_step L B S) (map (\<lambda>(t, data). FfiSendGossip t data) msgs @ map (\<lambda>_. FfiTask (e, CoreReceive)) msgs) f = Some (outs, f') \<and>
           CONTEXT f' = m' # ms \<and> network_recv m' = [] \<and>
           gossipsub (sv_behaviour (libp2p m')) = foldl (\<lambda>g (t, data). gs_publish B (from_bytes t) data g) (gossipsub (sv_behaviour (libp2p m))) msgs"
proof -
  let ?pubs = "map (\<lambda>(t, data). (gossip_topic_new (from_bytes t), data)) msgs"
  let ?m = "m\<lparr> network_recv := map (\<lambda>(t, data). Publish t data) ?pubs \<rparr>"
  let ?f = "f\<lparr> CONTEXT := ?m # ms \<rparr>"
  have recv: "map (\<lambda>(t, data). Publish t data) ?pubs = map (\<lambda>(t, data). Publish (gossip_topic_new (from_bytes t)) data) msgs"
    by (simp add: o_def case_prod_beta)
  have 1: "run_calls (ffi_step L B S) (map (\<lambda>(t, data). FfiSendGossip t data) msgs) f = Some (map (\<lambda>_. []) msgs, ?f)"
    unfolding recv using send_all_gossip [OF assms(1,2), of L B S msgs] assms(3) by simp
  from receive_all_gossip [of ?f ?m ms ?pubs L B S e] assms(2) obtain outs where
    2: "run_calls (ffi_step L B S) (map (\<lambda>_. FfiTask (e, CoreReceive)) msgs) ?f =
      Some (outs, ?f\<lparr> CONTEXT := (on_libp2p (on_behaviour (\<lambda>b. foldl (\<lambda>b (t, data). behaviour_publish B t data b) b ?pubs)) ?m)\<lparr> network_recv := [] \<rparr> # ms \<rparr>)"
    by (auto simp: o_def)
  have 3: "gossipsub (foldl (\<lambda>b (t, data). behaviour_publish B t data b) b ?pubs) = foldl (\<lambda>g (t, data). gs_publish B (from_bytes t) data g) (gossipsub b) msgs" for b
    by (induction msgs arbitrary: b) (auto simp: behaviour_publish_def gossip_topic_new_def gossip_topic_into_string_def)
  from 1 2 show ?thesis by (simp add: run_calls_append on_behaviour_def 3)
qed

theorem gossip_published_in_order_witness:
  "\<exists>f m outs f' m'. ref_ffi_start = FfiOk f \<and> CONTEXT f = [m] \<and>
     run_calls (ffi_step ref_core_lib ref_bv_lib ref_swarm_lib)
       [FfiSendGossip [98] [1], FfiSendGossip [99] [2], FfiTask (e_free 1, CoreReceive), FfiTask (e_free 1, CoreReceive)] f = Some (outs, f') \<and>
     CONTEXT f' = [m'] \<and> network_recv m' = []"
proof -
  obtain f m where f: "ref_ffi_start = FfiOk f" "CONTEXT f = [m]" "running m" "network_recv m = []" using ref_ffi_started by blast
  from gossip_published_in_order [OF f(2-4), of ref_core_lib ref_bv_lib ref_swarm_lib "[([98], [1]), ([99], [2])]" "e_free 1"] f show ?thesis
    by auto
qed

end
