(* ===== verification/Example_Client.thy ===== *)
theory Example_Client
  imports Ffi
begin

text \<open>
  \<open>examples/rust/src/main.rs\<close>: the example program. \<open>main\<close> reads the command line, sets up the logger and
  the runtime, and then waits for an interrupt while a thread of the runtime starts a network and
  gossips every five seconds. What the network reports is printed.

  The matches of clap and the exit status it ends the process with are parameters. The standard output
  is the list of printed lines. The runtime catches a panic of a task or of a blocking thread, so it ends
  only that task or thread.
\<close>

section \<open>The subscriber\<close>

definition println_debug :: "(nat \<Rightarrow> bool) \<Rightarrow> string \<Rightarrow> string \<Rightarrow> string" where
  "println_debug pr label s = label @ ''='' @ debug_str pr s"

definition example_discovered_peer :: "(nat \<Rightarrow> bool) \<Rightarrow> string \<Rightarrow> string list" where
  "example_discovered_peer pr peer = [''Rust: discovered peer'', println_debug pr ''peer'' peer]"

definition example_receive_gossip ::
  "(nat \<Rightarrow> bool) \<Rightarrow> string \<Rightarrow> u64 \<Rightarrow> string \<Rightarrow> string \<Rightarrow> string \<Rightarrow> u8 list \<Rightarrow> string list" where
  "example_receive_gossip pr message_id seq agent peer t data =
     [''Rust: received gossip'', println_debug pr ''message id'' message_id, println_debug pr ''peer id'' peer,
      println_debug pr ''topic'' t, println_debug pr ''data'' (from_bytes (from_utf8_lossy data))]"

definition example_receive_rpc :: "(nat \<Rightarrow> bool) \<Rightarrow> string \<Rightarrow> u8 \<Rightarrow> string \<Rightarrow> u8 list \<Rightarrow> string list" where
  "example_receive_rpc pr meth req_resp peer data =
     [''Rust: received rpc'', println_debug pr ''method'' meth, ''req_resp='' @ show_nat (unat req_resp),
      println_debug pr ''peer'' peer, println_debug pr ''data'' (from_bytes (from_utf8_lossy data))]"

fun example_callback :: "(nat \<Rightarrow> bool) \<Rightarrow> client_call \<Rightarrow> string list" where
  "example_callback pr (CallInit fork_id) = []"
| "example_callback pr (CallDiscoveredPeer peer) = example_discovered_peer pr peer"
| "example_callback pr (CallReceiveGossip message_id seq agent peer t data) = example_receive_gossip pr message_id seq agent peer t data"
| "example_callback pr (CallReceiveRpc meth req_resp peer data) = example_receive_rpc pr meth req_resp peer data"

section \<open>The start of the program\<close>

definition example_args :: "cli_arg list" where
  "example_args = [flag_arg ''foo'' (Some ''f'')]"

text \<open>Matches of an application with subcommands.\<close>

record app_matches =
  am_args :: arg_matches
  am_subcommand :: "(string \<times> arg_matches) option"

definition subcommand_matches :: "app_matches \<Rightarrow> string \<Rightarrow> arg_matches option" where
  "subcommand_matches m name =
     (case am_subcommand m of Some (n, sub) \<Rightarrow> if n = name then Some sub else None | None \<Rightarrow> None)"

datatype log_level = LevelCritical | LevelError | LevelWarning | LevelInfo | LevelDebug | LevelTrace

definition filter_level :: "string \<Rightarrow> log_level" where
  "filter_level s =
     (if s = ''info'' then LevelInfo
      else if s = ''debug'' then LevelDebug
      else if s = ''trace'' then LevelTrace
      else if s = ''warn'' then LevelWarning
      else if s = ''error'' then LevelError
      else if s = ''crit'' then LevelCritical
      else LevelInfo)"

text \<open>The thread that starts the network and gossips: it has not run yet, sleeps until an instant, or has
  panicked. The main thread waits for the interrupt, shuts the runtime down, or has returned.\<close>

datatype example_thread = ThreadStarting | ThreadSleeping instant | ThreadPanicked
datatype main_phase = MainWaiting | MainShutdown instant | MainReturned

record ('sw, 'g, 'i, 'q, 'd, 'l, 'e) example =
  ex_start :: instant
  ex_config :: "'e mothra_config"
  ex_level :: log_level
  ex_thread :: example_thread
  ex_mothra :: "('sw, 'g, 'i, 'q, 'd, 'l, 'e) mothra option"
  ex_fired :: bool
  ex_main :: main_phase

definition example_config :: "'e machine \<Rightarrow> string \<Rightarrow> arg_matches \<Rightarrow> 'e mothra_config option" where
  "example_config mc version m =
     get_config (mc_cli mc) (mc_build mc) (Some ''rust-example'') (Some (''v'' @ version @ ''-unstable'')) (Some ''rust-example/libp2p'') m"

text \<open>\<open>main\<close> up to the wait in \<open>block_on\<close>, with what it prints. \<open>clap_result\<close> is the result of clap, where \<open>Inl\<close> is
  the status of a process that clap ends; \<open>version\<close> is the version of the package.\<close>

definition example_main ::
  "'e machine \<Rightarrow> string \<Rightarrow> env \<Rightarrow> nat + app_matches \<Rightarrow> string list \<times> ('sw, 'g, 'i, 'q, 'd, 'l, 'e) example ffi_result" where
  "example_main mc version e clap_result =
     (case clap_result of
        Inl code \<Rightarrow> ([], FfiExit code)
      | Inr m \<Rightarrow>
          (if is_present (am_args m) ''foo'' then [''Foo flag found''] else [],
           case subcommand_matches m ''mothra'' of
             None \<Rightarrow> FfiPanic
           | Some sub \<Rightarrow>
               (case example_config mc version sub of
                  None \<Rightarrow> FfiPanic
                | Some config \<Rightarrow>
                    (case mc_runtime mc of
                       Inl _ \<Rightarrow> FfiPanic
                     | Inr _ \<Rightarrow>
                         FfiOk \<lparr> ex_start = now e, ex_config = config, ex_level = filter_level (debug_level config),
                                 ex_thread = ThreadStarting, ex_mothra = None, ex_fired = False, ex_main = MainWaiting \<rparr>))))"

section \<open>The running program\<close>

definition GOSSIP_PERIOD :: nat where "GOSSIP_PERIOD = 5"
definition SHUTDOWN_MILLIS :: nat where "SHUTDOWN_MILLIS = 300"
definition example_topic :: string where "example_topic = ''/mothra/topic1''"

text \<open>The clock of the model counts milliseconds; \<open>ns\<close> are the nanoseconds beyond the last one.\<close>

definition hello :: "nat \<Rightarrow> u8 list" where
  "hello nanos = as_bytes (''Hello from Rust.  Elapsed time: '' @ debug_duration nanos)"

definition elapsed :: "env \<Rightarrow> nat \<Rightarrow> instant \<Rightarrow> nat" where
  "elapsed e ns start = (now e - start) * 1000000 + ns"

datatype example_event =
    Printed string
  | Gossiped instant string "u8 list"

text \<open>A turn of the blocking thread: \<open>Mothra::new\<close> with its result unwrapped, or a round of the loop, which
  begins with the sleep.\<close>

definition example_thread_turn ::
  "('g, 'gh, 'gm, 'i, 'ih, 'im, 'q, 'd, 'l, 'b, 'e, 'k) bv_lib \<Rightarrow> 'sw swarm_lib \<Rightarrow> key_store_lib \<Rightarrow> 'e machine \<Rightarrow> env \<Rightarrow> nat \<Rightarrow>
   ('sw, 'g, 'i, 'q, 'd, 'l, 'e) example \<Rightarrow> example_event list \<times> ('sw, 'g, 'i, 'q, 'd, 'l, 'e) example" where
  "example_thread_turn B S kst mc e ns x =
     (case ex_thread x of
        ThreadStarting \<Rightarrow>
          (case mothra_new B S kst (mc_fresh mc) (mc_transport mc) (ex_config x) (replicate 32 0) (replicate 32 0) (replicate 32 0)
                  (mc_key_file mc) (mc_disk mc) of
             Some (calls, Inr m, _) \<Rightarrow>
               (map Printed (concat (map (example_callback (cl_printable (mc_cli mc))) calls)),
                x\<lparr> ex_mothra := Some m, ex_thread := ThreadSleeping (now e + from_secs GOSSIP_PERIOD) \<rparr>)
           | _ \<Rightarrow> ([], x\<lparr> ex_thread := ThreadPanicked \<rparr>))
      | ThreadSleeping wake \<Rightarrow>
          if wake \<le> now e
          then (let data = hello (elapsed e ns (ex_start x))
                in ([Gossiped (now e) example_topic data],
                    x\<lparr> ex_mothra := map_option (\<lambda>m. with_channel (core_gossip example_topic data (mothra_channel m)) m) (ex_mothra x),
                       ex_thread := ThreadSleeping (now e + from_secs GOSSIP_PERIOD) \<rparr>))
          else ([], x)
      | ThreadPanicked \<Rightarrow> ([], x))"

text \<open>A turn of the network's task. It sees the exit only when that was signalled, and its channel is used
  by the thread alone.\<close>

definition example_task_turn ::
  "core_lib \<Rightarrow> ('g, 'gh, 'gm, 'i, 'ih, 'im, 'q, 'd, 'l, 'b, 'e, 'k) bv_lib \<Rightarrow> 'sw swarm_lib \<Rightarrow> 'e machine \<Rightarrow> env \<Rightarrow> ('gm, 'im, 'e) core_call \<Rightarrow>
   ('sw, 'g, 'i, 'q, 'd, 'l, 'e) example \<Rightarrow> example_event list \<times> ('sw, 'g, 'i, 'q, 'd, 'l, 'e) example" where
  "example_task_turn L B S mc e call x =
     (case ex_mothra x of
        None \<Rightarrow> ([], x)
      | Some m \<Rightarrow>
          if (case call of CoreSend _ \<Rightarrow> False | CoreExit \<Rightarrow> ex_fired x | _ \<Rightarrow> True)
          then (case mothra_step L B S (e, call) m of
                  None \<Rightarrow> ([], x\<lparr> ex_mothra := Some (m\<lparr> running := False \<rparr>) \<rparr>)
                | Some (calls, m') \<Rightarrow>
                    (map Printed (concat (map (example_callback (cl_printable (mc_cli mc))) calls)), x\<lparr> ex_mothra := Some m' \<rparr>))
          else ([], x))"

text \<open>\<open>ExInterrupt\<close> is the result of \<open>ctrl_c\<close>, where \<open>False\<close> is an error, which makes the main thread panic and the
  process end. \<open>shutdown_timeout\<close> waits for the blocking thread, but not longer than its argument.\<close>

datatype ('gm, 'im, 'e) example_call =
    ExThread nat
  | ExTask "('gm, 'im, 'e) core_call"
  | ExInterrupt bool
  | ExShutdown

fun example_step ::
  "core_lib \<Rightarrow> ('g, 'gh, 'gm, 'i, 'ih, 'im, 'q, 'd, 'l, 'b, 'e, 'k) bv_lib \<Rightarrow> 'sw swarm_lib \<Rightarrow> key_store_lib \<Rightarrow> 'e machine \<Rightarrow>
   env \<times> ('gm, 'im, 'e) example_call \<Rightarrow> ('sw, 'g, 'i, 'q, 'd, 'l, 'e) example \<Rightarrow>
   (example_event list \<times> ('sw, 'g, 'i, 'q, 'd, 'l, 'e) example) option" where
  "example_step L B S kst mc (e, ExThread ns) x =
     Some (if ex_main x = MainReturned then ([], x) else example_thread_turn B S kst mc e ns x)"
| "example_step L B S kst mc (e, ExTask call) x =
     Some (if ex_main x = MainReturned then ([], x) else example_task_turn L B S mc e call x)"
| "example_step L B S kst mc (e, ExInterrupt ok) x =
     (if ex_main x = MainWaiting
      then (if ok then Some ([], x\<lparr> ex_fired := True, ex_main := MainShutdown (now e) \<rparr>) else None)
      else Some ([], x))"
| "example_step L B S kst mc (e, ExShutdown) x =
     (case ex_main x of
        MainShutdown t \<Rightarrow>
          Some ([], if ex_thread x = ThreadPanicked \<or> t + SHUTDOWN_MILLIS \<le> now e then x\<lparr> ex_main := MainReturned \<rparr> else x)
      | _ \<Rightarrow> Some ([], x))"

section \<open>What is printed\<close>

fun printed :: "example_event list \<Rightarrow> string list" where
  "printed [] = []"
| "printed (Printed l # evs) = l # printed evs"
| "printed (Gossiped t s d # evs) = printed evs"

lemma printed_append [simp]: "printed (evs @ evs') = printed evs @ printed evs'"
  by (induction evs rule: printed.induct) simp_all

lemma printed_map [simp]: "printed (map Printed ls) = ls"
  by (induction ls) simp_all

text \<open>The shape of a report: a heading and four lines with their labels, each free of control characters.\<close>

definition labelled :: "string \<Rightarrow> string \<Rightarrow> bool" where
  "labelled label l \<longleftrightarrow> take (Suc (length label)) l = label @ ''='' \<and> no_control l"

fun report :: "string list \<Rightarrow> bool" where
  "report [h, l1, l2, l3, l4] \<longleftrightarrow>
     h = ''Rust: received gossip'' \<and> labelled ''message id'' l1 \<and> labelled ''peer id'' l2 \<and> labelled ''topic'' l3 \<and> labelled ''data'' l4 \<or>
     h = ''Rust: received rpc'' \<and> l1 = [CHR ''m'', CHR ''e'', CHR ''t'', CHR ''h'', CHR ''o'', CHR ''d'', CHR ''='', CHR 0x22] @ ''Status'' @ [CHR 0x22] \<and>
       l2 \<in> {''req_resp=0'', ''req_resp=1''} \<and> labelled ''peer'' l3 \<and> labelled ''data'' l4"
| "report _ \<longleftrightarrow> False"

lemma labelled_debug: "no_control label \<Longrightarrow> labelled label (println_debug pr label s)"
  by (simp add: labelled_def println_debug_def debug_str_no_control)

lemma status_line: "println_debug pr ''method'' ''Status'' =
  [CHR ''m'', CHR ''e'', CHR ''t'', CHR ''h'', CHR ''o'', CHR ''d'', CHR ''='', CHR 0x22] @ ''Status'' @ [CHR 0x22]"
  by (simp add: println_debug_def debug_str_def as_bytes_def debug_chars.simps escape_debug_def from_bytes_def) (simp add: char_of_def bit_0)

lemma digit_texts: "show_nat 0 = ''0''" "show_nat (Suc 0) = ''1''"
  by (simp_all add: show_nat.simps char_of_def bit_0)

lemma heard_report: "heard call \<Longrightarrow> report (example_callback pr call)"
  by (cases call)
    (auto simp: example_receive_gossip_def example_receive_rpc_def labelled_debug status_line digit_texts)

definition all_reports :: "example_event list \<Rightarrow> bool" where
  "all_reports evs \<longleftrightarrow> (\<exists>rs. printed evs = concat rs \<and> list_all report rs)"

lemma all_reports_Nil [simp]: "printed evs = [] \<Longrightarrow> all_reports evs"
  unfolding all_reports_def by (rule exI [of _ "[]"]) simp

lemma all_reports_append: "all_reports evs \<Longrightarrow> all_reports evs' \<Longrightarrow> all_reports (evs @ evs')"
  unfolding all_reports_def by (elim exE, rule_tac x = "rs @ rsa" in exI) simp

lemma all_reports_heard: "list_all heard calls \<Longrightarrow> all_reports (map Printed (concat (map (example_callback pr) calls)))"
  unfolding all_reports_def by (rule exI [of _ "map (example_callback pr) calls"]) (auto simp: list_all_iff heard_report)

lemma thread_turn_reports: "all_reports (fst (example_thread_turn B S kst mc e ns x))"
  by (auto simp: example_thread_turn_def mothra_new_def Let_def split: example_thread.splits option.splits sum.splits prod.splits)

lemma task_turn_reports: "all_reports (fst (example_task_turn L B S mc e call x))"
  by (auto simp: example_task_turn_def intro: all_reports_heard mothra_step_heard split: option.splits)

lemma example_step_reports:
  assumes "example_step L B S kst mc c x = Some (out, x')"
  shows "all_reports out"
proof -
  obtain e call where c: "c = (e, call)" by (cases c)
  show ?thesis
  proof (cases call)
    case (ExThread ns)
    with assms thread_turn_reports [of B S kst mc e ns x] show ?thesis by (auto simp: c split: if_splits)
  next
    case (ExTask t)
    with assms task_turn_reports [of L B S mc e t x] show ?thesis by (auto simp: c split: if_splits)
  qed (use assms in \<open>auto simp: c split: if_splits main_phase.splits\<close>)
qed

section \<open>When it gossips\<close>

fun gossiped :: "example_event list \<Rightarrow> (instant \<times> string \<times> u8 list) list" where
  "gossiped [] = []"
| "gossiped (Printed l # evs) = gossiped evs"
| "gossiped (Gossiped t s d # evs) = (t, s, d) # gossiped evs"

lemma gossiped_append [simp]: "gossiped (evs @ evs') = gossiped evs @ gossiped evs'"
  by (induction evs rule: gossiped.induct) simp_all

lemma gossiped_map [simp]: "gossiped (map Printed ls) = []"
  by (induction ls) simp_all

text \<open>A list of messages of which the first comes at \<open>wake\<close> or later and each other one a period after the
  one before it.\<close>

fun paced :: "instant \<Rightarrow> instant \<Rightarrow> (instant \<times> string \<times> u8 list) list \<Rightarrow> bool" where
  "paced start wake [] = True"
| "paced start wake ((t, s, d) # ms) \<longleftrightarrow>
     wake \<le> t \<and> s = example_topic \<and> (\<exists>ns. d = hello ((t - start) * 1000000 + ns)) \<and> paced start (t + from_secs GOSSIP_PERIOD) ms"

definition earliest :: "('sw, 'g, 'i, 'q, 'd, 'l, 'e) example \<Rightarrow> instant" where
  "earliest x = (case ex_thread x of ThreadSleeping wake \<Rightarrow> wake | _ \<Rightarrow> ex_start x + from_secs GOSSIP_PERIOD)"

lemma task_turn_fields:
  "gossiped (fst (example_task_turn L B S mc e call x)) = []" "ex_thread (snd (example_task_turn L B S mc e call x)) = ex_thread x"
  "ex_start (snd (example_task_turn L B S mc e call x)) = ex_start x" "ex_main (snd (example_task_turn L B S mc e call x)) = ex_main x"
  by (auto simp: example_task_turn_def split: option.splits)

lemma thread_turn_fields:
  "ex_start (snd (example_thread_turn B S kst mc e ns x)) = ex_start x" "ex_main (snd (example_thread_turn B S kst mc e ns x)) = ex_main x"
  by (auto simp: example_thread_turn_def Let_def split: option.splits example_thread.splits sum.splits)

text \<open>A step gossips nothing and does not make the thread wake earlier, or it gossips one message.\<close>

lemma example_step_paced:
  assumes "example_step L B S kst mc (e, call) x = Some (out, x')" and "ex_start x \<le> now e"
  shows "ex_start x' = ex_start x \<and>
     (gossiped out = [] \<and> earliest x \<le> earliest x' \<or>
      (\<exists>ns. gossiped out = [(now e, example_topic, hello ((now e - ex_start x) * 1000000 + ns))] \<and> earliest x \<le> now e \<and>
         earliest x' = now e + from_secs GOSSIP_PERIOD))"
proof (cases call)
  case (ExThread ns)
  with assms show ?thesis
    by (auto simp: example_thread_turn_def earliest_def elapsed_def Let_def split: if_splits example_thread.splits option.splits sum.splits)
next
  case (ExTask t)
  with assms task_turn_fields [of L B S mc e t x] show ?thesis by (auto simp: earliest_def split: if_splits example_thread.splits)
qed (use assms in \<open>auto simp: earliest_def split: if_splits main_phase.splits example_thread.splits\<close>)

lemma paced_mono: "paced start wake ms \<Longrightarrow> wake' \<le> wake \<Longrightarrow> paced start wake' ms"
  by (cases ms) auto

lemma example_run_paced:
  assumes "run_calls (example_step L B S kst mc) cs x = Some (outs, x')" and "list_all (\<lambda>(e, _). ex_start x \<le> now e) cs"
  shows "paced (ex_start x) (earliest x) (gossiped (concat outs))"
  using assms
proof (induction cs arbitrary: x outs)
  case (Cons c cs)
  obtain e call where c: "c = (e, call)" by (cases c)
  from Cons.prems obtain out x1 outs1 where
    1: "example_step L B S kst mc (e, call) x = Some (out, x1)" "run_calls (example_step L B S kst mc) cs x1 = Some (outs1, x')" "outs = out # outs1"
    by (auto simp: c split: option.splits)
  have "ex_start x \<le> now e" using Cons.prems(2) by (simp add: c)
  from example_step_paced [OF 1(1) this] Cons.IH [OF 1(2)] Cons.prems(2) show ?case
    by (auto simp: c 1(3) intro: paced_mono)
qed simp

lemma paced_gap: "paced start wake ms \<Longrightarrow> Suc i < length ms \<Longrightarrow> fst (ms ! i) + from_secs GOSSIP_PERIOD \<le> fst (ms ! Suc i)"
proof (induction start wake ms arbitrary: i rule: paced.induct)
  case (2 start wake t s d ms)
  show ?case
  proof (cases i)
    case 0
    with 2(2,3) show ?thesis by (cases ms) auto
  next
    case (Suc k)
    with 2 show ?thesis by auto
  qed
qed simp

lemma paced_nth:
  assumes "paced start wake ms" and "i < length ms"
  shows "wake + i * from_secs GOSSIP_PERIOD \<le> fst (ms ! i) \<and> fst (snd (ms ! i)) = example_topic \<and>
         (\<exists>ns. snd (snd (ms ! i)) = hello ((fst (ms ! i) - start) * 1000000 + ns))"
  using assms
proof (induction start wake ms arbitrary: i rule: paced.induct)
  case (2 start wake t s d ms)
  show ?case
  proof (cases i)
    case (Suc k)
    with 2(1) [of k] 2(2,3) show ?thesis by auto
  qed (use 2(2) in auto)
qed simp

section \<open>Waiting for the interrupt\<close>

definition interrupts :: "env \<times> ('gm, 'im, 'e) example_call \<Rightarrow> bool" where
  "interrupts c \<longleftrightarrow> (case snd c of ExInterrupt _ \<Rightarrow> True | _ \<Rightarrow> False)"

lemma ex_result: "(\<exists>a b. p = (a, b) \<and> Q b) \<longleftrightarrow> Q (snd p)"
  by (cases p) simp

lemma example_waits:
  assumes "ex_main x = MainWaiting" and "\<not> interrupts c"
  shows "\<exists>out x'. example_step L B S kst mc c x = Some (out, x') \<and> ex_main x' = MainWaiting"
proof -
  obtain e call where c: "c = (e, call)" by (cases c)
  show ?thesis
    using assms by (cases call) (auto simp: c interrupts_def ex_result task_turn_fields thread_turn_fields)
qed

interpretation waiting_example: op_machine "example_step L B S kst mc" "\<lambda>x. ex_main x = MainWaiting" "\<lambda>c. \<not> interrupts c" for L B S kst mc
  by unfold_locales (rule example_waits)

section \<open>A concrete program\<close>

type_synonym ref_example =
  "(multiaddr list \<times> peer_id list, (nat, gossip_event) nb_action list, (nat, identify_event) nb_action list, peer_id list_queue,
    ref_enr list, (peer_id \<times> ref_enr) list, ref_enr) example"

definition ref_app :: app_matches where
  "ref_app =
     \<lparr> am_args = ref_matches example_args [],
       am_subcommand = Some (''mothra'', ref_matches cli_app [(''port'', ''7''), (''listen-address'', ''0.0.0.1''), (''topics'', ''blocks'')]) \<rparr>"

definition ref_main :: "string list \<times> ref_example ffi_result" where
  "ref_main = example_main ref_machine ''0.1.0'' (e_free 0) (Inr ref_app)"

definition ref_calls :: "(env \<times> (nat, nat, ref_enr) example_call) list" where
  "ref_calls =
     [(e_free 10, ExThread 0), (e_free 20, ExTask (CoreService (ScRound (BrSwarm (SwConnectionEstablished [49, 50] (Listener [] []) 1))))),
      (e_free 6000, ExThread 0), (e_free 6001, ExTask CoreReceive), (e_free 7000, ExThread 0)]"

lemma ref_main_runs:
  "\<exists>x outs x'. ref_main = ([], FfiOk x) \<and>
     run_calls (example_step ref_core_lib ref_bv_lib ref_swarm_lib ref_key_store ref_machine) ref_calls x = Some (outs, x') \<and>
     length (printed (concat outs)) = 5 \<and> gossiped (concat outs) = [(6000, ''/mothra/topic1'', as_bytes ''Hello from Rust.  Elapsed time: 6s'')]"
proof -
  have "case ref_main of ([], FfiOk x) \<Rightarrow>
      (case run_calls (example_step ref_core_lib ref_bv_lib ref_swarm_lib ref_key_store ref_machine) ref_calls x of
         Some (outs, x') \<Rightarrow> length (printed (concat outs)) = 5 \<and>
           gossiped (concat outs) = [(6000, ''/mothra/topic1'', as_bytes ''Hello from Rust.  Elapsed time: 6s'')]
       | None \<Rightarrow> False) | _ \<Rightarrow> False"
    by code_simp
  then show ?thesis by (auto split: prod.splits list.splits ffi_result.splits option.splits)
qed

section \<open>Properties\<close>

text \<open>C40. The output cannot be forged: whatever peers send, the example prints nothing but reports of five
  lines each, a heading and four labelled lines, and no line of them contains a line break or another
  ASCII control character. So a gossip message cannot add or overwrite lines of the output, and a report
  of a discovered peer is never printed.\<close>

theorem example_prints_reports:
  assumes "run_calls (example_step L B S kst mc) cs x = Some (outs, x')"
  shows "\<exists>rs. printed (concat outs) = concat rs \<and> list_all report rs"
  unfolding all_reports_def [symmetric] using assms
proof (induction cs arbitrary: x outs)
  case (Cons c cs)
  then obtain out x1 outs1 where "example_step L B S kst mc c x = Some (out, x1)"
    "run_calls (example_step L B S kst mc) cs x1 = Some (outs1, x')" "outs = out # outs1"
    by (auto split: option.splits)
  with Cons.IH example_step_reports [of L B S kst mc c x out x1] show ?case by (auto intro: all_reports_append)
qed simp

theorem example_prints_reports_witness:
  "\<exists>x outs x'. ref_main = ([], FfiOk x) \<and>
     run_calls (example_step ref_core_lib ref_bv_lib ref_swarm_lib ref_key_store ref_machine) ref_calls x = Some (outs, x') \<and>
     length (printed (concat outs)) = 5 \<and> (\<exists>rs. printed (concat outs) = concat rs \<and> list_all report rs)"
proof -
  obtain x outs x' where run: "ref_main = ([], FfiOk x)"
    "run_calls (example_step ref_core_lib ref_bv_lib ref_swarm_lib ref_key_store ref_machine) ref_calls x = Some (outs, x')"
    "length (printed (concat outs)) = 5" using ref_main_runs by blast
  from example_prints_reports [OF run(2)] run show ?thesis by blast
qed

text \<open>The example gossips at most every five seconds: with a clock that does not run backwards, the message
  with index \<open>i\<close> is sent at least \<open>5 * (i + 1)\<close> seconds after the start of the program and at least five seconds
  before the next one, on the topic of the example, and its text states the time that has passed.\<close>

theorem example_gossip_rate:
  assumes "example_main mc version e0 m = (ls, FfiOk x)"
    and "list_all (\<lambda>(e, _). now e0 \<le> now e) cs"
    and "run_calls (example_step L B S kst mc) cs x = Some (outs, x')"
    and "i < length (gossiped (concat outs))"
    and "gossiped (concat outs) ! i = (t, s, d)"
  shows "now e0 + 5000 * (i + 1) \<le> t \<and> s = ''/mothra/topic1'' \<and>
         (\<exists>ns. d = as_bytes (''Hello from Rust.  Elapsed time: '' @ debug_duration ((t - now e0) * 1000000 + ns))) \<and>
         (Suc i < length (gossiped (concat outs)) \<longrightarrow> t + 5000 \<le> fst (gossiped (concat outs) ! Suc i))"
proof -
  have x: "ex_start x = now e0" "earliest x = now e0 + 5000"
    using assms(1) by (auto simp: example_main_def earliest_def GOSSIP_PERIOD_def split: sum.splits option.splits)
  from example_run_paced [OF assms(3)] assms(2) have "paced (now e0) (now e0 + 5000) (gossiped (concat outs))" by (simp add: x)
  from paced_nth [OF this assms(4)] paced_gap [OF this, of i] assms(5) show ?thesis
    by (simp add: GOSSIP_PERIOD_def example_topic_def hello_def mult.commute)
qed

theorem example_gossip_rate_witness:
  "\<exists>x outs x' d. ref_main = ([], FfiOk x) \<and>
     run_calls (example_step ref_core_lib ref_bv_lib ref_swarm_lib ref_key_store ref_machine) ref_calls x = Some (outs, x') \<and>
     gossiped (concat outs) = [(6000, ''/mothra/topic1'', d)] \<and> now (e_free 0) + 5000 * (0 + 1) \<le> (6000 :: nat) \<and>
     (\<exists>ns. d = as_bytes (''Hello from Rust.  Elapsed time: '' @ debug_duration ((6000 - now (e_free 0)) * 1000000 + ns)))"
proof -
  obtain x outs x' d where run: "ref_main = ([], FfiOk x)"
    "run_calls (example_step ref_core_lib ref_bv_lib ref_swarm_lib ref_key_store ref_machine) ref_calls x = Some (outs, x')"
    "gossiped (concat outs) = [(6000, ''/mothra/topic1'', d)]" using ref_main_runs by blast
  have clock: "list_all (\<lambda>(e, _). now (e_free 0) \<le> now e) ref_calls" by (simp add: ref_calls_def e_free_def)
  from example_gossip_rate [OF run(1) [unfolded ref_main_def] clock run(2), of 0 6000 "''/mothra/topic1''" d] run show ?thesis by auto
qed

text \<open>Only the interrupt ends the example: without one, every sequence of turns is survived and the main thread
  keeps waiting, a failed start of the network included; with one, the program returns when the timeout
  of the shutdown has passed, although the thread that gossips never ends.\<close>

theorem example_ends_by_interrupt:
  assumes "example_main mc version e0 m = (ls, FfiOk x)" and "list_all (\<lambda>c. \<not> interrupts c) cs" and "now e1 + 300 \<le> now e2"
  shows "\<exists>outs x'. run_calls (example_step L B S kst mc) cs x = Some (outs, x') \<and> ex_main x' = MainWaiting \<and>
           (\<exists>outs' x''. run_calls (example_step L B S kst mc) [(e1, ExInterrupt True), (e2, ExShutdown)] x' = Some (outs', x'') \<and>
              ex_main x'' = MainReturned)"
proof -
  have "ex_main x = MainWaiting" using assms(1) by (auto simp: example_main_def split: sum.splits option.splits)
  from waiting_example.run_ok [OF this assms(2), of L B S kst mc] obtain outs x' where
    "run_calls (example_step L B S kst mc) cs x = Some (outs, x')" "ex_main x' = MainWaiting" by blast
  with assms(3) show ?thesis by (simp add: SHUTDOWN_MILLIS_def)
qed

theorem example_ends_by_interrupt_witness:
  "\<exists>x outs x'. ref_main = ([], FfiOk x) \<and>
     run_calls (example_step ref_core_lib ref_bv_lib ref_swarm_lib ref_key_store ref_machine) ref_calls x = Some (outs, x') \<and> ex_main x' = MainWaiting"
proof -
  obtain x where x: "ref_main = ([], FfiOk x)" using ref_main_runs by blast
  have "list_all (\<lambda>c. \<not> interrupts c) ref_calls" by (simp add: ref_calls_def interrupts_def)
  moreover have "now (e_free 7000) + 300 \<le> now (e_free 8000)" by (simp add: e_free_def)
  ultimately show ?thesis
    using example_ends_by_interrupt [OF x [unfolded ref_main_def], of ref_calls "e_free 7000" "e_free 8000" ref_core_lib ref_bv_lib ref_swarm_lib ref_key_store] x
    by blast
qed

text \<open>A network that cannot be started is never noticed by the main thread: the program waits as before, and
  has no network.\<close>

theorem example_waits_without_network:
  assumes "ex_thread x = ThreadPanicked" and "ex_mothra x = None" and "ex_main x = MainWaiting" and "list_all (\<lambda>c. \<not> interrupts c) cs"
  shows "\<exists>outs. run_calls (example_step L B S kst mc) cs x = Some (outs, x) \<and> concat outs = []"
  using assms(4)
proof (induction cs)
  case (Cons c cs)
  obtain e call where c: "c = (e, call)" by (cases c)
  have "example_step L B S kst mc c x = Some ([], x)"
    using Cons.prems assms(1-3) by (cases call) (auto simp: c interrupts_def example_thread_turn_def example_task_turn_def)
  with Cons show ?case by auto
qed simp

end
