(* ===== verification/Spec2Isabelle.thy ===== *)
theory Spec2Isabelle
  imports Mothra_Prelude Delay_Set Rpc_Codec Peer_DB Peer_Manager Network_Service Transport Task_Executor Cli_Config Mothra_Core Ffi
    Example_Client
begin

text \<open>
  Verification of Mothra, a peer-to-peer networking component written in Rust.

  \<^bold>\<open>The program.\<close> A host program starts a network through \<open>core/ffi/src/lib.rs\<close>. The command line is turned
  into a configuration (\<open>core/src/cli.rs\<close>, \<open>core/src/config.rs\<close>), and a task (\<open>core/src/mothra.rs\<close>) is spawned
  that takes messages of the host program from a channel, drives the network service and calls the
  host program back. The service (\<open>core/network/src/service.rs\<close>) owns a libp2p swarm with one behaviour
  (\<open>behaviour/mod.rs\<close>), which combines gossipsub, identify, the RPC (\<open>rpc/\<close>) and the peer manager
  (\<open>peer_manager/\<close>); the latter owns the peer database, the timers (\<open>hashset_delay.rs\<close>) and discovery
  (\<open>discovery/\<close>). Every connection has a handler that delegates to the handlers of gossipsub, the RPC
  and identify (\<open>behaviour/handler/\<close>, \<open>rpc/handler.rs\<close>), with codecs for the wire format (\<open>rpc/codec/\<close>).

  \<^bold>\<open>How it is modelled.\<close> A struct is a record, an enum a datatype, a method a function on explicit state;
  \<open>Option\<close> results that are \<open>None\<close> stand for a panic where the source unwraps, indexes or asserts, and
  \<open>Result\<close> is a sum. Machine integers are words. An operation that reads the clock or does checked
  arithmetic takes an \<open>env\<close>. Third-party code (tokio's delay queue, discv5, gossipsub, identify, the
  swarm, the enr, key, hash, varint and snappy libraries, clap, the disk) is a record of operations that
  the definitions take as an argument; what the program relies on is stated in locales, and every
  locale is interpreted on a concrete library, so that the theorems can be applied and runs evaluated.
  A component with state is run as a machine: calls in any order (\<open>run_calls\<close>), an invariant, and a
  condition on the calls; the locales \<open>op_machine\<close> and \<open>op_simulation\<close> carry the inductions over runs.

  \<^bold>\<open>The theories\<close>, from the bottom up.

  \<^item> \<open>Mothra_Prelude\<close>: integers and their saturating and checked arithmetic, hash maps, \<open>min_by_key\<close> and
    \<open>max_by_key\<close>, splitting of strings, machines and simulations. \<open>Rust_Strings\<close>: bytes, UTF-8, output
    of numbers, strings and durations. \<open>Rust_Parse\<close>: the parsers of the standard library for integers and IP addresses.
  \<^item> \<open>Delay_Set\<close> (\<open>hashset_delay.rs\<close>): entries that expire; a refinement of maps from keys to deadlines. A
    timeout that is too far in the future for tokio's queue is the only panic.
  \<^item> \<open>Rpc_Methods\<close>, \<open>Rpc_Protocol\<close>, \<open>Rpc_Codec\<close> (\<open>rpc/methods.rs\<close>, \<open>rpc/protocol.rs\<close>, \<open>rpc/codec/\<close>): messages,
    protocol negotiation and the wire format; round trips, fragmentation, size limits, typing.
  \<^item> \<open>Rpc_Handler\<close>, \<open>Handler_Answers\<close> and \<open>Handler_Properties\<close> (\<open>rpc/handler.rs\<close>): the substreams of a connection,
    with timeouts, queues, retries and shutdown; no panic, no lost request, one answer for every request
    of the peer, closing of everything.
  \<^item> \<open>Rpc_Behaviour\<close> (\<open>rpc/mod.rs\<close>): the queue between the behaviour and the handlers.
  \<^item> \<open>Connection_Handler\<close> (\<open>behaviour/handler/delegate.rs\<close>, \<open>behaviour/handler/mod.rs\<close>): a simulation shows
    that every run of the combined handler contains a run of the RPC handler.
  \<^item> \<open>Peer_Info\<close>, \<open>Peer_DB\<close> (\<open>peer_manager/client.rs\<close>, \<open>peer_info.rs\<close>, \<open>peerdb.rs\<close>): what is known of the
    peers; the counter of disconnected peers, eviction, reputation, connection counters.
  \<^item> \<open>Network_Config\<close>, \<open>Enr_Records\<close>, \<open>Network_Globals\<close>, \<open>Discovery\<close> (\<open>config.rs\<close>, \<open>discovery/\<close>, \<open>types/\<close>): the
    configuration, the node record across restarts, shared state, the queue of searches.
  \<^item> \<open>Peer_Manager\<close> (\<open>peer_manager/mod.rs\<close>): timers of connected peers, pings, discovered peers, penalties.
  \<^item> \<open>Network_Behaviour\<close> (\<open>behaviour/mod.rs\<close>): every call returns, its polling loops included; answers in
    order; internal requests stay internal.
  \<^item> \<open>Network_Service\<close> (\<open>service.rs\<close>): the start, swarm events, bans, the private key.
    \<open>Transport\<close>: \<open>build_transport\<close> of the same file, the stages of a connection under their timeouts; the
    peer of a connection is the one that was authenticated.
  \<^item> \<open>Task_Executor\<close> (\<open>executor.rs\<close>): tasks end after the exit was signalled.
  \<^item> \<open>Cli_Config\<close> (\<open>core/src/cli.rs\<close>, \<open>core/src/config.rs\<close>): what each command line gives, and which panic.
  \<^item> \<open>Mothra_Core\<close> (\<open>core/src/mothra.rs\<close>): the task; its runs compose all invariants below it. The slots
    for waiting requests are a stack, and lose requests when they are used in another order.
  \<^item> \<open>Ffi\<close> (\<open>core/ffi/src/lib.rs\<close>): callbacks with the lengths they pass, one network per process to which all
    messages go, gossip in order.
  \<^item> \<open>Example_Client\<close> (\<open>examples/rust/src/main.rs\<close>): the example program on top of the core; what it prints,
    how often it gossips, what ends it.

  \<^bold>\<open>Loops.\<close> Loops over collections are structural recursion. Loops that end only because of what a library
  does are \<open>partial_function (option)\<close>, where \<open>None\<close> also means that the loop does not end: \<open>purge_inbound\<close>
  and \<open>purge_outbound\<close>, \<open>drive_loop\<close>, \<open>timer_loop\<close>, \<open>process_loop\<close>, \<open>poll_behaviour\<close> and \<open>pm_event_loop\<close>;
  \<open>shrink_to_fit\<close> is a \<open>function\<close> with a termination proof. That they return is proved under the contracts of the libraries, with the number of
  waiting items or due timers as the measure, and is part of the theorems about runs. Inputs from outside
  during a poll (results of queries, heartbeats, rounds of \<open>select!\<close>) are finite lists of any length.

  \<^bold>\<open>Assumptions.\<close> A \<open>DelayQueue\<close> takes timeouts up to a limit (\<open>dq_max\<close>, about two years in tokio, assumed to be
  at least five minutes) and may panic on longer ones; the theorems about runs without panic say which
  timeouts have to respect it, and the timeouts that the program fixes itself do. The timer loops of the
  peer manager end unless the queue fails without end (\<open>errors_pass\<close>; \<open>timer_error_spins\<close> shows what
  happens otherwise). The laws of the enr builder are about keys that the builder does not use itself
  (\<open>enr_reserved\<close>). Hash maps are association lists, so their iteration order is one of the possible ones; no
  theorem depends on it. Locks are not modelled: the
  shared state is passed along. Theorems about builds with overflow checks say so.

  \<^bold>\<open>Not modelled.\<close> Log output and serialisation for logs, the runtime, module roots and error types without
  behaviour (\<open>lib.rs\<close>, \<open>error.rs\<close>, \<open>types/mod.rs\<close>), functions that are empty in the source
  (\<open>peer_banned\<close>, \<open>peer_unbanned\<close>, \<open>discover_subnet_peers\<close>, \<open>update_metadata\<close>), accessors that return a
  field, and the tests.
\<close>

end
